theory Spec2Isabelle
  imports Main "HOL-Library.Word"
begin

unbundle bit_operations_syntax

section \<open>Common conventions\<close>

text \<open>
  The C sources are embedded as HOL functions. A function that returns an \<open>int\<close> status
  returns a sum here: \<open>Inr\<close> carries the state the C function leaves behind when it
  returns 0, \<open>Inl\<close> says how it did not: \<open>Fail\<close> is the return value -1, \<open>Abort\<close> is a
  failed \<open>assert\<close>, \<open>Undefined\<close> is an access the C standard leaves undefined (a NULL
  pointer, the wrong member of a union, an index past an array).
\<close>

type_synonym byte = "8 word"

datatype error = Fail | Abort | Undefined

section \<open>Dumping a data block: \<open>append_block\<close> (lib/common/data_reader_dump.c)\<close>

text \<open>
  \<open>write(2)\<close> is the environment of \<open>append_block\<close>. A value of type \<open>sys_write\<close> answers the
  n-th call, made with a request of \<open>size\<close> bytes, by the return value of the call and by
  whether \<open>errno\<close> is \<open>EINTR\<close>.
\<close>

type_synonym sys_write = "nat \<Rightarrow> 64 word \<Rightarrow> int \<times> bool"

record sqfs_block_t =
  blk_size :: "64 word"
  blk_data :: "byte list"

text \<open>
  The loop of \<open>append_block\<close>. \<open>n\<close> counts the calls of \<open>write\<close> made so far, \<open>ptr\<close> is the
  offset of the C pointer \<open>ptr\<close> from \<open>blk->data\<close>, \<open>sz\<close> is the \<open>size_t\<close> variable \<open>size\<close>
  and \<open>err\<close> collects the lines printed to \<open>stderr\<close>. The loop has a single exit, the
  \<open>return 0\<close> after it, and it need not reach it: the function is partial, and \<open>None\<close>
  is the run that never returns.
\<close>

partial_function (option) append_block_loop ::
  "sys_write \<Rightarrow> nat \<Rightarrow> 64 word \<Rightarrow> 64 word \<Rightarrow> string list \<Rightarrow> (int \<times> string list) option"
where
  "append_block_loop wr n ptr sz err =
     (if 0 < sz then
        (case wr n sz of
           (ret, eintr) \<Rightarrow>
             if ret < 0 \<and> eintr then append_block_loop wr (Suc n) ptr sz err
             else
               let err1 = (if ret < 0 then err @ [''writing data block''] else err);
                   err2 = (if ret = 0
                           then err1 @ [''writing data block: unexpected end of file'']
                           else err1)
               in append_block_loop wr (Suc n) (ptr + word_of_int ret)
                    (sz - word_of_int ret) err2)
      else Some (0, err))"

definition append_block :: "sys_write \<Rightarrow> sqfs_block_t \<Rightarrow> (int \<times> string list) option" where
  "append_block wr blk = append_block_loop wr 0 0 (blk_size blk) []"

text \<open>Two environments: a device that accepts nothing, and one that accepts nothing
  for the first \<open>k\<close> calls and every byte of the request afterwards.\<close>

definition write_nothing :: sys_write where
  "write_nothing n sz = (0, False)"

definition write_after :: "nat \<Rightarrow> sys_write" where
  "write_after k n sz = (if n < k then (0, False) else (uint sz, False))"

definition one_byte_block :: sqfs_block_t where
  "one_byte_block = \<lparr>blk_size = 1, blk_data = [0]\<rparr>"


section \<open>Decoding a tar header: \<open>decode_header\<close> (lib/tar/read_header.c)\<close>

text \<open>
  The \<open>char\<close> arrays of \<open>tar_header_t\<close> (include/tar.h) are strings here, of the length the
  declaration gives: 100 for \<open>name\<close> and \<open>linkname\<close>, 155 for the prefix. The union \<open>tail\<close> is
  kept as its member \<open>posix\<close>, the prefix and the padding, which is the one
  \<open>decode_header\<close> reads. Fields whose names are used again below carry the prefix \<open>th_\<close>.
\<close>

record tar_header_t =
  th_name :: string
  th_mode :: string
  th_uid :: string
  th_gid :: string
  th_size :: string
  th_mtime :: string
  chksum :: string
  typeflag :: char
  linkname :: string
  magic :: string
  version :: string
  uname :: string
  gname :: string
  devmajor :: string
  devminor :: string
  tail_posix_prefix :: string
  tail_posix_padding :: string

text \<open>The fields of \<open>struct stat\<close> that the decoder writes; \<open>st_rdev\<close> is kept as the
  pair of major and minor number that \<open>makedev\<close> packs.\<close>

record stat =
  st_mode :: "32 word"
  st_uid :: "32 word"
  st_gid :: "32 word"
  st_rdev :: "32 word \<times> 32 word"
  st_mtime :: "64 word"
  st_size :: "64 word"

record tar_header_decoded_t =
  sb :: stat
  td_name :: "string option"
  link_target :: "string option"
  sparse :: "(64 word \<times> 64 word) list"
  actual_size :: "64 word"
  record_size :: "64 word"
  unknown_record :: bool
  td_mtime :: "64 word"

definition TAR_TYPE_FILE :: char where "TAR_TYPE_FILE = CHR ''0''"
definition TAR_TYPE_LINK :: char where "TAR_TYPE_LINK = CHR ''1''"
definition TAR_TYPE_SLINK :: char where "TAR_TYPE_SLINK = CHR ''2''"
definition TAR_TYPE_CHARDEV :: char where "TAR_TYPE_CHARDEV = CHR ''3''"
definition TAR_TYPE_BLOCKDEV :: char where "TAR_TYPE_BLOCKDEV = CHR ''4''"
definition TAR_TYPE_DIR :: char where "TAR_TYPE_DIR = CHR ''5''"
definition TAR_TYPE_FIFO :: char where "TAR_TYPE_FIFO = CHR ''6''"
definition TAR_TYPE_GNU_SPARSE :: char where "TAR_TYPE_GNU_SPARSE = CHR ''S''"

text \<open>The file type bits of \<open>sys/stat.h\<close>, at any word length.\<close>

definition S_IFMT :: "'a::len word" where "S_IFMT = 0xF000"
definition S_IFSOCK :: "'a::len word" where "S_IFSOCK = 0xC000"
definition S_IFLNK :: "'a::len word" where "S_IFLNK = 0xA000"
definition S_IFREG :: "'a::len word" where "S_IFREG = 0x8000"
definition S_IFBLK :: "'a::len word" where "S_IFBLK = 0x6000"
definition S_IFDIR :: "'a::len word" where "S_IFDIR = 0x4000"
definition S_IFCHR :: "'a::len word" where "S_IFCHR = 0x2000"
definition S_IFIFO :: "'a::len word" where "S_IFIFO = 0x1000"

text \<open>
  \<open>set_by_pax\<close> is an \<open>unsigned int\<close> of flag bits. The header that numbers the bits
  (lib/tar/internal.h) is not among the sources; the flags are distinct bits, so the
  word is the set of the flags that are set, and \<open>set_by_pax & PAX_NAME\<close> is membership.
\<close>

datatype pax_flag =
  PAX_SIZE | PAX_UID | PAX_GID | PAX_DEV_MAJ | PAX_DEV_MIN | PAX_NAME
  | PAX_SLINK_TARGET | PAX_MTIME | PAX_SPARSE_SIZE

datatype tar_version = ETV_UNKNOWN | ETV_V7_UNIX | ETV_PRE_POSIX | ETV_POSIX

text \<open>
  What \<open>decode_header\<close> calls and the sources do not hold: the number parsers
  \<open>read_number\<close> and \<open>read_octal\<close> (\<open>None\<close> is their non-zero return value), and the
  allocator, of which only success or failure matters (\<open>mem_ok\<close>).
\<close>

record tar_env =
  read_number :: "string \<Rightarrow> 64 word option"
  read_octal :: "string \<Rightarrow> 64 word option"
  mem_ok :: bool

definition NUL :: char where "NUL = CHR 0x00"

text \<open>\<open>strnlen(s, n)\<close> and the string \<open>strndup(s, n)\<close> copies.\<close>

definition strndup :: "string \<Rightarrow> nat \<Rightarrow> string" where
  "strndup s n = takeWhile (\<lambda>c. c \<noteq> NUL) (take n s)"

definition strnlen :: "string \<Rightarrow> nat \<Rightarrow> nat" where
  "strnlen s n = length (strndup s n)"

text \<open>
  \<open>strdup(p)\<close> copies the bytes from \<open>p\<close> up to the first NUL, wherever that is: it is
  given no length. Its argument here is the memory from \<open>p\<close> to the end of the object
  that \<open>p\<close> points into; only when that holds no NUL at all does the copy leave the
  object. For \<open>hdr->linkname\<close> the object is the header: the 100 bytes of the field are
  followed by the fields \<open>magic\<close>, \<open>version\<close>, \<open>uname\<close>, \<open>gname\<close>, \<open>devmajor\<close>, \<open>devminor\<close>
  and \<open>tail\<close>, in the order of the declaration.
\<close>

definition strdup :: "string \<Rightarrow> error + string" where
  "strdup mem = (if NUL \<in> set mem then Inr (takeWhile (\<lambda>c. c \<noteq> NUL) mem) else Inl Undefined)"

definition after_linkname :: "tar_header_t \<Rightarrow> string" where
  "after_linkname hdr =
     take 6 (magic hdr) @ take 2 (version hdr) @ take 32 (uname hdr) @ take 32 (gname hdr)
     @ take 8 (devmajor hdr) @ take 8 (devminor hdr) @ take 155 (tail_posix_prefix hdr)
     @ take 12 (tail_posix_padding hdr)"

definition bind_err :: "error + 'a \<Rightarrow> ('a \<Rightarrow> error + 'b) \<Rightarrow> error + 'b" where
  "bind_err m f = (case m of Inl e \<Rightarrow> Inl e | Inr x \<Rightarrow> f x)"

text \<open>\<open>decode_header\<close>, one definition for each of its steps, in the order of the source.\<close>

definition dh_name ::
  "tar_env \<Rightarrow> tar_header_t \<Rightarrow> pax_flag set \<Rightarrow> tar_version \<Rightarrow> tar_header_decoded_t
   \<Rightarrow> error + tar_header_decoded_t" where
  "dh_name env hdr set_by_pax ver out =
     (if PAX_NAME \<notin> set_by_pax then
        (let nm =
           (if take 1 (tail_posix_prefix hdr) \<noteq> [NUL] \<and> tail_posix_prefix hdr \<noteq> []
               \<and> ver = ETV_POSIX then
              (let len1 = strnlen (th_name hdr) 100;
                   len2 = strnlen (tail_posix_prefix hdr) 155
               in if mem_ok env
                  then Some (take len2 (tail_posix_prefix hdr) @ ''/'' @ take len1 (th_name hdr))
                  else None)
            else if mem_ok env then Some (strndup (th_name hdr) 100) else None)
         in if nm = None then Inl Fail else Inr (out\<lparr>td_name := nm\<rparr>))
      else Inr out)"

definition dh_size ::
  "tar_env \<Rightarrow> tar_header_t \<Rightarrow> pax_flag set \<Rightarrow> tar_header_decoded_t
   \<Rightarrow> error + tar_header_decoded_t" where
  "dh_size env hdr set_by_pax out =
     (if PAX_SIZE \<notin> set_by_pax then
        (case read_number env (th_size hdr) of
           None \<Rightarrow> Inl Fail
         | Some v \<Rightarrow> Inr (out\<lparr>record_size := v\<rparr>))
      else Inr out)"

definition dh_uid ::
  "tar_env \<Rightarrow> tar_header_t \<Rightarrow> pax_flag set \<Rightarrow> tar_header_decoded_t
   \<Rightarrow> error + tar_header_decoded_t" where
  "dh_uid env hdr set_by_pax out =
     (if PAX_UID \<notin> set_by_pax then
        (case read_number env (th_uid hdr) of
           None \<Rightarrow> Inl Fail
         | Some field \<Rightarrow> Inr (out\<lparr>sb := (sb out)\<lparr>st_uid := ucast field\<rparr>\<rparr>))
      else Inr out)"

definition dh_gid ::
  "tar_env \<Rightarrow> tar_header_t \<Rightarrow> pax_flag set \<Rightarrow> tar_header_decoded_t
   \<Rightarrow> error + tar_header_decoded_t" where
  "dh_gid env hdr set_by_pax out =
     (if PAX_GID \<notin> set_by_pax then
        (case read_number env (th_gid hdr) of
           None \<Rightarrow> Inl Fail
         | Some field \<Rightarrow> Inr (out\<lparr>sb := (sb out)\<lparr>st_gid := ucast field\<rparr>\<rparr>))
      else Inr out)"

definition dh_devmajor ::
  "tar_env \<Rightarrow> tar_header_t \<Rightarrow> pax_flag set \<Rightarrow> tar_header_decoded_t
   \<Rightarrow> error + tar_header_decoded_t" where
  "dh_devmajor env hdr set_by_pax out =
     (if PAX_DEV_MAJ \<notin> set_by_pax then
        (case read_number env (devmajor hdr) of
           None \<Rightarrow> Inl Fail
         | Some field \<Rightarrow>
             Inr (out\<lparr>sb := (sb out)\<lparr>st_rdev := (ucast field, snd (st_rdev (sb out)))\<rparr>\<rparr>))
      else Inr out)"

definition dh_devminor ::
  "tar_env \<Rightarrow> tar_header_t \<Rightarrow> pax_flag set \<Rightarrow> tar_header_decoded_t
   \<Rightarrow> error + tar_header_decoded_t" where
  "dh_devminor env hdr set_by_pax out =
     (if PAX_DEV_MIN \<notin> set_by_pax then
        (case read_number env (devminor hdr) of
           None \<Rightarrow> Inl Fail
         | Some field \<Rightarrow>
             Inr (out\<lparr>sb := (sb out)\<lparr>st_rdev := (fst (st_rdev (sb out)), ucast field)\<rparr>\<rparr>))
      else Inr out)"

text \<open>\<open>out->mtime\<close> is a signed 64-bit value, kept as its two's complement word.\<close>

definition dh_mtime ::
  "tar_env \<Rightarrow> tar_header_t \<Rightarrow> pax_flag set \<Rightarrow> tar_header_decoded_t
   \<Rightarrow> error + tar_header_decoded_t" where
  "dh_mtime env hdr set_by_pax out =
     (if PAX_MTIME \<notin> set_by_pax then
        (case read_number env (th_mtime hdr) of
           None \<Rightarrow> Inl Fail
         | Some field \<Rightarrow>
             if field AND 0x8000000000000000 \<noteq> 0
             then Inr (out\<lparr>td_mtime := - (NOT field + 1)\<rparr>)
             else Inr (out\<lparr>td_mtime := field\<rparr>))
      else Inr out)"

definition dh_mode ::
  "tar_env \<Rightarrow> tar_header_t \<Rightarrow> tar_header_decoded_t \<Rightarrow> error + tar_header_decoded_t" where
  "dh_mode env hdr out =
     (case read_octal env (th_mode hdr) of
        None \<Rightarrow> Inl Fail
      | Some field \<Rightarrow> Inr (out\<lparr>sb := (sb out)\<lparr>st_mode := ucast (field AND 0xFFF)\<rparr>\<rparr>))"

definition dh_link_target ::
  "tar_env \<Rightarrow> tar_header_t \<Rightarrow> pax_flag set \<Rightarrow> tar_header_decoded_t
   \<Rightarrow> error + tar_header_decoded_t" where
  "dh_link_target env hdr set_by_pax out =
     (if typeflag hdr = TAR_TYPE_LINK \<or> typeflag hdr = TAR_TYPE_SLINK then
        (if PAX_SLINK_TARGET \<notin> set_by_pax then
           bind_err (strdup (take 100 (linkname hdr) @ after_linkname hdr)) (\<lambda>t.
             if mem_ok env then Inr (out\<lparr>link_target := Some t\<rparr>) else Inl Fail)
         else Inr out)
      else Inr out)"

definition dh_typeflag :: "tar_header_t \<Rightarrow> tar_header_decoded_t \<Rightarrow> tar_header_decoded_t" where
  "dh_typeflag hdr out0 =
     (let out = out0\<lparr>unknown_record := False\<rparr>;
          t = typeflag hdr;
          m = st_mode (sb out)
      in if t = NUL \<or> t = TAR_TYPE_FILE \<or> t = TAR_TYPE_GNU_SPARSE
           then out\<lparr>sb := (sb out)\<lparr>st_mode := m OR S_IFREG\<rparr>\<rparr>
         else if t = TAR_TYPE_LINK then out\<lparr>sb := (sb out)\<lparr>st_mode := S_IFLNK OR 0x1FF\<rparr>\<rparr>
         else if t = TAR_TYPE_SLINK then out\<lparr>sb := (sb out)\<lparr>st_mode := S_IFLNK OR 0x1FF\<rparr>\<rparr>
         else if t = TAR_TYPE_CHARDEV then out\<lparr>sb := (sb out)\<lparr>st_mode := m OR S_IFCHR\<rparr>\<rparr>
         else if t = TAR_TYPE_BLOCKDEV then out\<lparr>sb := (sb out)\<lparr>st_mode := m OR S_IFBLK\<rparr>\<rparr>
         else if t = TAR_TYPE_DIR then out\<lparr>sb := (sb out)\<lparr>st_mode := m OR S_IFDIR\<rparr>\<rparr>
         else if t = TAR_TYPE_FIFO then out\<lparr>sb := (sb out)\<lparr>st_mode := m OR S_IFIFO\<rparr>\<rparr>
         else out\<lparr>unknown_record := True\<rparr>)"

text \<open>With a 64-bit \<open>time_t\<close> the last step copies \<open>out->mtime\<close>.\<close>

definition dh_st_mtime :: "tar_header_decoded_t \<Rightarrow> tar_header_decoded_t" where
  "dh_st_mtime out = out\<lparr>sb := (sb out)\<lparr>st_mtime := td_mtime out\<rparr>\<rparr>"

definition decode_header ::
  "tar_env \<Rightarrow> tar_header_t \<Rightarrow> pax_flag set \<Rightarrow> tar_header_decoded_t \<Rightarrow> tar_version
   \<Rightarrow> error + tar_header_decoded_t" where
  "decode_header env hdr set_by_pax out ver =
     bind_err (dh_name env hdr set_by_pax ver out) (\<lambda>out.
     bind_err (dh_size env hdr set_by_pax out) (\<lambda>out.
     bind_err (dh_uid env hdr set_by_pax out) (\<lambda>out.
     bind_err (dh_gid env hdr set_by_pax out) (\<lambda>out.
     bind_err (dh_devmajor env hdr set_by_pax out) (\<lambda>out.
     bind_err (dh_devminor env hdr set_by_pax out) (\<lambda>out.
     bind_err (dh_mtime env hdr set_by_pax out) (\<lambda>out.
     bind_err (dh_mode env hdr out) (\<lambda>out.
     bind_err (dh_link_target env hdr set_by_pax out) (\<lambda>out.
     Inr (dh_st_mtime (dh_typeflag hdr out)))))))))))"

text \<open>\<open>check_version\<close>: the three pairs of \<open>magic\<close> and \<open>version\<close> that \<open>read_header\<close>
  accepts. The string literals are compared with their final NUL where the field is
  longer than the text.\<close>

definition check_version :: "tar_header_t \<Rightarrow> tar_version" where
  "check_version hdr =
     (if take 6 (magic hdr) = replicate 6 NUL \<and> take 2 (version hdr) = replicate 2 NUL
        then ETV_V7_UNIX
      else if take 6 (magic hdr) = ''ustar'' @ [NUL] \<and> take 2 (version hdr) = ''00''
        then ETV_POSIX
      else if take 6 (magic hdr) = ''ustar '' \<and> take 2 (version hdr) = '' '' @ [NUL]
        then ETV_PRE_POSIX
      else ETV_UNKNOWN)"

text \<open>What \<open>read_header\<close> does with the header record that ends its loop over the
  records: it decodes it and settles the sizes. \<open>ver\<close> is the result of
  \<open>check_version\<close>, which is not \<open>ETV_UNKNOWN\<close> there.\<close>

definition read_header_decode ::
  "tar_env \<Rightarrow> tar_header_t \<Rightarrow> pax_flag set \<Rightarrow> tar_header_decoded_t \<Rightarrow> tar_version
   \<Rightarrow> error + tar_header_decoded_t" where
  "read_header_decode env hdr set_by_pax out ver =
     bind_err (decode_header env hdr set_by_pax out ver) (\<lambda>out.
       if sparse out \<noteq> []
       then Inr (out\<lparr>sb := (sb out)\<lparr>st_size := actual_size out\<rparr>\<rparr>)
       else Inr (out\<lparr>sb := (sb out)\<lparr>st_size := record_size out\<rparr>,
                      actual_size := record_size out\<rparr>))"

text \<open>Two hard link headers of a POSIX archive, the first to the file \<open>a\<close>, the second
  to a file whose name takes all the 100 bytes of the field \<open>linkname\<close>; and an
  environment that reads every number as 0, every mode as 0644, and never runs out of
  memory.\<close>

definition hard_link_header :: tar_header_t where
  "hard_link_header =
     \<lparr>th_name = ''b'' @ replicate 99 NUL, th_mode = ''0000644'' @ [NUL],
      th_uid = ''0000000'' @ [NUL], th_gid = ''0000000'' @ [NUL],
      th_size = ''00000000000'' @ [NUL], th_mtime = ''00000000000'' @ [NUL],
      chksum = ''0000000'' @ [NUL], typeflag = TAR_TYPE_LINK,
      linkname = ''a'' @ replicate 99 NUL, magic = ''ustar'' @ [NUL], version = ''00'',
      uname = replicate 32 NUL, gname = replicate 32 NUL,
      devmajor = replicate 8 NUL, devminor = replicate 8 NUL,
      tail_posix_prefix = replicate 155 NUL, tail_posix_padding = replicate 12 NUL\<rparr>"

definition long_link_header :: tar_header_t where
  "long_link_header = hard_link_header\<lparr>linkname := replicate 100 (CHR ''t'')\<rparr>"

definition zero_env :: tar_env where
  "zero_env = \<lparr>read_number = (\<lambda>s. Some 0), read_octal = (\<lambda>s. Some 0x1A4), mem_ok = True\<rparr>"

definition empty_decoded :: tar_header_decoded_t where
  "empty_decoded =
     \<lparr>sb = \<lparr>st_mode = 0, st_uid = 0, st_gid = 0, st_rdev = (0, 0), st_mtime = 0, st_size = 0\<rparr>,
      td_name = None, link_target = None, sparse = [], actual_size = 0, record_size = 0,
      unknown_record = False, td_mtime = 0\<rparr>"

section \<open>The environment of the serializer\<close>

subsection \<open>Files\<close>

text \<open>
  \<open>sqfs_write_inodes\<close> writes to two files: the image, behind \<open>info->outfd\<close>, and the
  temporary file that \<open>tmpfile()\<close> gives it. A file is its bytes, the position of its
  descriptor and the number of bytes the device can hold (\<open>limit\<close>): a write that goes
  past it is cut short there, which is the truncated write of the source.
\<close>

datatype fd = Outfd | Tmpfd

record file_t =
  content :: "byte list"
  pos :: nat
  limit :: nat

record world =
  outfile :: file_t
  tmpf :: "file_t option"
  tmp_limit :: "nat option"
  alloc_ok :: bool

definition get_file :: "world \<Rightarrow> fd \<Rightarrow> file_t option" where
  "get_file w d = (case d of Outfd \<Rightarrow> Some (outfile w) | Tmpfd \<Rightarrow> tmpf w)"

definition put_file :: "world \<Rightarrow> fd \<Rightarrow> file_t \<Rightarrow> world" where
  "put_file w d f = (case d of Outfd \<Rightarrow> w\<lparr>outfile := f\<rparr> | Tmpfd \<Rightarrow> w\<lparr>tmpf := Some f\<rparr>)"

text \<open>The bytes of a file after \<open>bs\<close> is written at position \<open>p\<close>; a position past the
  end leaves a hole of zero bytes.\<close>

definition pwrite :: "byte list \<Rightarrow> nat \<Rightarrow> byte list \<Rightarrow> byte list" where
  "pwrite c p bs = take p (c @ replicate (p - length c) 0) @ bs @ drop (p + length bs) c"

text \<open>
  \<open>write_retry(fd, data, size)\<close> and \<open>read_retry(fd, buffer, size)\<close> of the utility
  library repeat the system call until the request is served; they return the number of
  bytes moved, which is less than \<open>size\<close> only when the device is full or the file ends,
  and -1 on a descriptor that is not open.
\<close>

definition write_retry :: "world \<Rightarrow> fd \<Rightarrow> byte list \<Rightarrow> world \<times> int" where
  "write_retry w d bs =
     (case get_file w d of
        None \<Rightarrow> (w, -1)
      | Some f \<Rightarrow>
          (let n = min (length bs) (limit f - pos f)
           in (put_file w d (f\<lparr>content := pwrite (content f) (pos f) (take n bs),
                                pos := pos f + n\<rparr>), int n)))"

definition read_retry :: "world \<Rightarrow> fd \<Rightarrow> nat \<Rightarrow> world \<times> int \<times> byte list" where
  "read_retry w d n =
     (case get_file w d of
        None \<Rightarrow> (w, -1, [])
      | Some f \<Rightarrow>
          (let bs = take n (drop (pos f) (content f))
           in (put_file w d (f\<lparr>pos := pos f + length bs\<rparr>), int (length bs), bs)))"

text \<open>\<open>tmpfile()\<close>: a new, empty file, or \<open>NULL\<close>.\<close>

definition tmpfile :: "world \<Rightarrow> world option" where
  "tmpfile w =
     (case tmp_limit w of
        None \<Rightarrow> None
      | Some l \<Rightarrow> Some (w\<lparr>tmpf := Some \<lparr>content = [], pos = 0, limit = l\<rparr>\<rparr>))"

definition fclose_tmp :: "world \<Rightarrow> world" where
  "fclose_tmp w = w\<lparr>tmpf := None\<rparr>"

text \<open>\<open>lseek(fd, 0, SEEK_SET)\<close>; \<open>None\<close> is the result \<open>(off_t)-1\<close>.\<close>

definition lseek_set0 :: "world \<Rightarrow> fd \<Rightarrow> world option" where
  "lseek_set0 w d =
     (case get_file w d of None \<Rightarrow> None | Some f \<Rightarrow> Some (put_file w d (f\<lparr>pos := 0\<rparr>)))"

subsection \<open>Little-endian records\<close>

text \<open>On the little-endian host \<open>htole16\<close>, \<open>htole32\<close> and \<open>htole64\<close> convert their
  argument to the width they name and leave the value as it is; a record is written
  to a meta block as the bytes of its fields, lowest byte first.\<close>

definition htole16 :: "'a::len word \<Rightarrow> 16 word" where "htole16 x = ucast x"
definition htole32 :: "'a::len word \<Rightarrow> 32 word" where "htole32 x = ucast x"
definition htole64 :: "'a::len word \<Rightarrow> 64 word" where "htole64 x = ucast x"

definition le_bytes :: "nat \<Rightarrow> 'a::len word \<Rightarrow> byte list" where
  "le_bytes n x = map (\<lambda>i. ucast (drop_bit (8 * i) x)) [0..<n]"

definition le16 :: "16 word \<Rightarrow> byte list" where "le16 = le_bytes 2"
definition le32 :: "32 word \<Rightarrow> byte list" where "le32 = le_bytes 4"
definition le64 :: "64 word \<Rightarrow> byte list" where "le64 = le_bytes 8"

definition str_bytes :: "string \<Rightarrow> byte list" where
  "str_bytes s = map of_char s"

subsection \<open>The compressor and the meta-writer\<close>

text \<open>
  A compressor maps a block to its compressed bytes (\<open>Cmp_ok\<close>), reports that the block
  does not shrink (\<open>Cmp_bigger\<close>, the block is then stored as it is) or fails.
\<close>

datatype cmp_result = Cmp_fail | Cmp_bigger | Cmp_ok "byte list"

type_synonym compressor_t = "byte list \<Rightarrow> cmp_result"

definition SQFS_META_BLOCK_SIZE :: nat where "SQFS_META_BLOCK_SIZE = 8192"

text \<open>
  Modelled from the spec: the meta-writer (\<open>meta_writer_create\<close>, \<open>meta_writer_append\<close>,
  \<open>meta_writer_flush\<close>), whose source file is not among the sources. The spec, section
  4.3 and 6: the writer produces a chain of blocks of at most 8192 uncompressed bytes;
  \<open>append\<close> copies into the current block and flushes it when it is full; the cursor
  \<open>(block_offset, offset)\<close> is the position of the next byte that would be appended;
  \<open>flush\<close> finalizes the current block; each block is written as a 16-bit little-endian
  length, whose top bit says that the block is not compressed, and the bytes.
  \<open>offset\<close> and \<open>block_offset\<close> are the fields that \<open>write_inode\<close> and \<open>write_dir\<close> read.
\<close>

record meta_writer_t =
  offset :: nat
  block_offset :: nat
  outfd :: fd
  mw_cmp :: compressor_t
  mw_data :: "byte list"

definition meta_writer_create :: "fd \<Rightarrow> compressor_t \<Rightarrow> meta_writer_t" where
  "meta_writer_create d c =
     \<lparr>offset = 0, block_offset = 0, outfd = d, mw_cmp = c, mw_data = []\<rparr>"

definition meta_block :: "meta_writer_t \<Rightarrow> byte list option" where
  "meta_block m =
     (case mw_cmp m (mw_data m) of
        Cmp_fail \<Rightarrow> None
      | Cmp_bigger \<Rightarrow> Some (le16 (of_nat (offset m) OR 0x8000) @ mw_data m)
      | Cmp_ok z \<Rightarrow>
          if z = [] then Some (le16 (of_nat (offset m) OR 0x8000) @ mw_data m)
          else Some (le16 (of_nat (length z)) @ z))"

definition meta_writer_flush ::
  "world \<Rightarrow> meta_writer_t \<Rightarrow> error + (world \<times> meta_writer_t)" where
  "meta_writer_flush w m =
     (if offset m = 0 then Inr (w, m)
      else
        (case meta_block m of
           None \<Rightarrow> Inl Fail
         | Some blk \<Rightarrow>
             (case write_retry w (outfd m) blk of
                (w', ret) \<Rightarrow>
                  if ret < 0 then Inl Fail
                  else if ret < int (length blk) then Inl Fail
                  else Inr (w', m\<lparr>mw_data := [], offset := 0,
                                   block_offset := block_offset m + length blk\<rparr>))))"

lemma meta_writer_flush_offset:
  "meta_writer_flush w m = Inr (w', m') \<Longrightarrow> offset m' = 0"
  by (auto simp: meta_writer_flush_def split: if_splits option.splits prod.splits)

function meta_writer_append ::
  "world \<Rightarrow> meta_writer_t \<Rightarrow> byte list \<Rightarrow> error + (world \<times> meta_writer_t)" where
  "meta_writer_append w m bs =
     (if bs = [] then Inr (w, m)
      else
        (let diff = min (SQFS_META_BLOCK_SIZE - offset m) (length bs);
             m1 = m\<lparr>mw_data := mw_data m @ take diff bs, offset := offset m + diff\<rparr>
         in if SQFS_META_BLOCK_SIZE \<le> offset m1 then
              (case meta_writer_flush w m1 of
                 Inl e \<Rightarrow> Inl e
               | Inr (w2, m2) \<Rightarrow> meta_writer_append w2 m2 (drop diff bs))
            else meta_writer_append w m1 (drop diff bs)))"
  by pat_completeness auto
termination meta_writer_append
proof (relation "measure (\<lambda>(w, m, bs). 2 * length bs + (if SQFS_META_BLOCK_SIZE \<le> offset m then 1 else 0))",
    goal_cases)
  case 1
  show ?case by simp
next
  case (2 w m bs diff m1 x w2 m2)
  from 2(5,6) have "offset m2 = 0"
    by (auto dest: meta_writer_flush_offset)
  with 2 show ?case
    by (cases "length bs") (auto simp: SQFS_META_BLOCK_SIZE_def min_def split: if_splits)
next
  case (3 w m bs diff m1)
  then show ?case
    by (cases "length bs") (auto simp: SQFS_META_BLOCK_SIZE_def min_def split: if_splits)
qed

section \<open>The filesystem tree\<close>

text \<open>
  Modelled from the spec: \<open>tree_node_t\<close>, \<open>dir_info_t\<close> and \<open>file_info_t\<close>, whose header is
  not among the sources. The fields are those the serializer reads and writes
  (part_002) and those of the node of the spec, section 3: name, mode, uid, gid, mtime,
  optional xattr-id, \<open>inode_number\<close>, \<open>inode_ref\<close>. The widths are those of the on-disk
  fields the values are written to. The list \<open>children\<close> is the chain of the \<open>next\<close>
  pointers that starts at \<open>dir->children\<close>; the \<open>parent\<close> pointer is not stored: the one
  place that follows it, \<open>write_inode\<close>, is passed what it reads there. A name is a C
  string, its length is \<open>strlen\<close>.
\<close>

record file_info_t =
  fi_size :: "64 word"
  startblock :: "64 word"
  fragment :: "32 word"
  fragment_offset :: "32 word"
  blocksizes :: "32 word list"

datatype 'n dir_info_t =
  Dir_info (children: "'n list") (dir_size: "64 word") (dir_start_block: "64 word")
    (dir_block_offset: "32 word")

text \<open>The union \<open>data\<close> of a node; reading a member other than the one stored is
  \<open>Undefined\<close>.\<close>

datatype 'n data_t = Dir "'n dir_info_t" | File file_info_t | Slink_target string | Devno "64 word"

datatype tree_node =
  Tree_node (name: string) (uid: "32 word") (gid: "32 word") (mode: "16 word")
    (mtime: "32 word") (xattr: "32 word option") (inode_ref: "64 word") (inode_num: "32 word")
    (type: int) (data: "tree_node data_t")

definition set_inode_ref :: "64 word \<Rightarrow> tree_node \<Rightarrow> tree_node" where
  "set_inode_ref r n =
     Tree_node (name n) (uid n) (gid n) (mode n) (mtime n) (xattr n) r (inode_num n) (type n) (data n)"

definition set_inode_num :: "32 word \<Rightarrow> tree_node \<Rightarrow> tree_node" where
  "set_inode_num k n =
     Tree_node (name n) (uid n) (gid n) (mode n) (mtime n) (xattr n) (inode_ref n) k (type n) (data n)"

definition set_type :: "int \<Rightarrow> tree_node \<Rightarrow> tree_node" where
  "set_type t n =
     Tree_node (name n) (uid n) (gid n) (mode n) (mtime n) (xattr n) (inode_ref n) (inode_num n) t
       (data n)"

definition set_data :: "tree_node data_t \<Rightarrow> tree_node \<Rightarrow> tree_node" where
  "set_data d n =
     Tree_node (name n) (uid n) (gid n) (mode n) (mtime n) (xattr n) (inode_ref n) (inode_num n)
       (type n) d"

definition S_ISDIR :: "16 word \<Rightarrow> bool" where
  "S_ISDIR m \<longleftrightarrow> m AND S_IFMT = S_IFDIR"

text \<open>The inode types of the SquashFS format (\<open>E_SQFS_INODE_TYPE\<close>).\<close>

definition SQFS_INODE_DIR :: int where "SQFS_INODE_DIR = 1"
definition SQFS_INODE_FILE :: int where "SQFS_INODE_FILE = 2"
definition SQFS_INODE_SLINK :: int where "SQFS_INODE_SLINK = 3"
definition SQFS_INODE_BDEV :: int where "SQFS_INODE_BDEV = 4"
definition SQFS_INODE_CDEV :: int where "SQFS_INODE_CDEV = 5"
definition SQFS_INODE_FIFO :: int where "SQFS_INODE_FIFO = 6"
definition SQFS_INODE_SOCKET :: int where "SQFS_INODE_SOCKET = 7"
definition SQFS_INODE_EXT_DIR :: int where "SQFS_INODE_EXT_DIR = 8"
definition SQFS_INODE_EXT_FILE :: int where "SQFS_INODE_EXT_FILE = 9"

section \<open>Directory listings: \<open>write_dir\<close> (part_002, part_000)\<close>

definition SQFS_MAX_DIR_ENT :: nat where "SQFS_MAX_DIR_ENT = 256"

text \<open>The records of part_000. \<open>write_dir\<close> calls the second field of an entry
  \<open>inode_number\<close>; it is the \<open>int16_t inode_diff\<close> of the declaration.\<close>

record sqfs_dir_header_t =
  hdr_count :: "32 word"
  hdr_start_block :: "32 word"
  hdr_inode_number :: "32 word"

record sqfs_dir_entry_t =
  ent_offset :: "16 word"
  inode_diff :: "16 word"
  ent_type :: "16 word"
  ent_size :: "16 word"

definition enc_dir_header :: "sqfs_dir_header_t \<Rightarrow> byte list" where
  "enc_dir_header h = le32 (hdr_count h) @ le32 (hdr_start_block h) @ le32 (hdr_inode_number h)"

definition enc_dir_entry :: "sqfs_dir_entry_t \<Rightarrow> byte list" where
  "enc_dir_entry e = le16 (ent_offset e) @ le16 (inode_diff e) @ le16 (ent_type e) @ le16 (ent_size e)"

text \<open>The first inner loop: \<open>d\<close> runs from \<open>c\<close> along the list and is counted until its
  block or its inode number is too far from those of \<open>c\<close>.\<close>

fun count_entries :: "tree_node \<Rightarrow> tree_node list \<Rightarrow> nat" where
  "count_entries c [] = 0"
| "count_entries c (d # ds) =
     (if drop_bit 16 (inode_ref d) \<noteq> drop_bit 16 (inode_ref c) then 0
      else if inode_num d - inode_num c > 0xFFFF then 0
      else 1 + count_entries c ds)"

definition dir_entry :: "tree_node \<Rightarrow> tree_node \<Rightarrow> sqfs_dir_entry_t" where
  "dir_entry d c =
     \<lparr>ent_offset = htole16 (inode_ref c AND 0x0000FFFF),
      inode_diff = htole16 (inode_num c - inode_num d),
      ent_type = htole16 (word_of_int (type c) :: 32 word),
      ent_size = htole16 ((of_nat (length (name c)) :: 64 word) - 1)\<rparr>"

text \<open>
  The second inner loop writes \<open>count\<close> entries, starting at \<open>c\<close>; \<open>d\<close> is the first node of
  the group. Next to the state it leaves behind (the files, the writer, the node \<open>c\<close>
  has reached, \<open>dir->size\<close>) the model returns the entries it has appended, each with the
  node it describes.
\<close>

type_synonym dir_group = "sqfs_dir_header_t \<times> (sqfs_dir_entry_t \<times> tree_node) list"

fun write_dir_entries ::
  "world \<Rightarrow> meta_writer_t \<Rightarrow> tree_node \<Rightarrow> tree_node list \<Rightarrow> nat \<Rightarrow> nat \<Rightarrow> 64 word
   \<Rightarrow> error + (world \<times> meta_writer_t \<times> tree_node list \<times> 64 word
                \<times> (sqfs_dir_entry_t \<times> tree_node) list)" where
  "write_dir_entries w dm d [] i count sz =
     (if i < count then Inl Undefined else Inr (w, dm, [], sz, []))"
| "write_dir_entries w dm d (c # cs) i count sz =
     (if i < count then
        (let ent = dir_entry d c;
             sz1 = sz + 8 + of_nat (length (name c))
         in case meta_writer_append w dm (enc_dir_entry ent) of
              Inl e \<Rightarrow> Inl e
            | Inr (w1, dm1) \<Rightarrow>
                (case meta_writer_append w1 dm1 (str_bytes (name c)) of
                   Inl e \<Rightarrow> Inl e
                 | Inr (w2, dm2) \<Rightarrow>
                     (case write_dir_entries w2 dm2 d cs (Suc i) count sz1 of
                        Inl e \<Rightarrow> Inl e
                      | Inr (w3, dm3, c', sz3, ents) \<Rightarrow>
                          Inr (w3, dm3, c', sz3, (ent, c) # ents))))
      else Inr (w, dm, c # cs, sz, []))"

lemma write_dir_entries_rest:
  "write_dir_entries w dm d c i count sz = Inr (w', dm', c', sz', ents) \<Longrightarrow>
   length c' + (count - i) = length c \<and> length ents = count - i"
proof (induction c arbitrary: w dm i sz ents)
  case Nil
  then show ?case by (auto split: if_splits)
next
  case (Cons x xs)
  show ?case
  proof (cases "i < count")
    case False
    with Cons.prems show ?thesis by auto
  next
    case True
    with Cons.prems obtain w2 dm2 ents' where
      r: "write_dir_entries w2 dm2 d xs (Suc i) count
            (sz + 8 + of_nat (length (name x))) = Inr (w', dm', c', sz', ents')"
      and e: "ents = (dir_entry d x, x) # ents'"
      by (auto simp: Let_def split: sum.splits)
    from Cons.IH[OF r] True e show ?thesis by auto
  qed
qed

text \<open>The outer loop of \<open>write_dir\<close>: one header and its entries for each round.\<close>

definition dir_header :: "tree_node \<Rightarrow> nat \<Rightarrow> sqfs_dir_header_t" where
  "dir_header c count =
     \<lparr>hdr_count = htole32 ((of_nat count :: 64 word) - 1),
      hdr_start_block = htole32 (drop_bit 16 (inode_ref c)),
      hdr_inode_number = htole32 (inode_num c)\<rparr>"

function write_dir_loop ::
  "world \<Rightarrow> meta_writer_t \<Rightarrow> tree_node list \<Rightarrow> 64 word
   \<Rightarrow> error + (world \<times> meta_writer_t \<times> 64 word \<times> dir_group list)" where
  "write_dir_loop w dm [] sz = Inr (w, dm, sz, [])"
| "write_dir_loop w dm (c # cs) sz =
     (let count0 = count_entries c (c # cs);
          count = (if count0 > SQFS_MAX_DIR_ENT then SQFS_MAX_DIR_ENT else count0);
          hdr = dir_header c count;
          sz1 = sz + 12
      in case meta_writer_append w dm (enc_dir_header hdr) of
           Inl e \<Rightarrow> Inl e
         | Inr (w1, dm1) \<Rightarrow>
             (case write_dir_entries w1 dm1 c (c # cs) 0 count sz1 of
                Inl e \<Rightarrow> Inl e
              | Inr (w2, dm2, c', sz2, ents) \<Rightarrow>
                  (case write_dir_loop w2 dm2 c' sz2 of
                     Inl e \<Rightarrow> Inl e
                   | Inr (w3, dm3, sz3, groups) \<Rightarrow> Inr (w3, dm3, sz3, (hdr, ents) # groups))))"
  by pat_completeness auto
termination write_dir_loop
proof (relation "measure (\<lambda>(w, dm, c, sz). length c)", goal_cases)
  case 1
  show ?case by simp
next
  case (2 w dm c cs sz count0 count hdr sz1 x w1 dm1 y w2 z dm2 u c' v sz2 ents)
  from 2 have r: "write_dir_entries w1 dm1 c (c # cs) 0 count sz1 = Inr (w2, dm2, c', sz2, ents)"
    by simp
  have "1 \<le> count"
    using 2(1,2) by (simp add: SQFS_MAX_DIR_ENT_def)
  with write_dir_entries_rest[OF r] show ?case by simp
qed

definition write_dir ::
  "world \<Rightarrow> meta_writer_t \<Rightarrow> tree_node dir_info_t
   \<Rightarrow> error + (world \<times> meta_writer_t \<times> tree_node dir_info_t \<times> dir_group list)" where
  "write_dir w dm dir =
     (case write_dir_loop w dm (children dir) 0 of
        Inl e \<Rightarrow> Inl e
      | Inr (w', dm', sz, groups) \<Rightarrow>
          Inr (w', dm',
               Dir_info (children dir) sz (of_nat (block_offset dm)) (of_nat (offset dm)),
               groups))"

declare meta_writer_append.simps [simp del]
declare write_dir_loop.simps [simp del]

text \<open>What \<open>write_dir\<close> appends, as a function of the children alone: the listing is cut
  into groups from the front, each as long as the first inner loop allows and no longer
  than \<open>SQFS_MAX_DIR_ENT\<close>.\<close>

lemma count_entries_first: "1 \<le> count_entries c (c # cs)"
  by simp

function dir_groups :: "tree_node list \<Rightarrow> dir_group list" where
  "dir_groups [] = []"
| "dir_groups (c # cs) =
     (let n = min SQFS_MAX_DIR_ENT (count_entries c (c # cs))
      in (dir_header c n, map (\<lambda>x. (dir_entry c x, x)) (take n (c # cs)))
         # dir_groups (drop n (c # cs)))"
  by pat_completeness auto
termination dir_groups
proof (relation "measure length", goal_cases)
  case 1
  show ?case by simp
next
  case (2 c cs n)
  have "1 \<le> count_entries c (c # cs)" by (rule count_entries_first)
  with 2 have "1 \<le> n" by (simp add: SQFS_MAX_DIR_ENT_def)
  then show ?case by simp
qed

declare dir_groups.simps [simp del]

text \<open>The bytes of a listing: for each group the header and then, for each of its
  entries, the record and the name.\<close>

definition enc_group :: "dir_group \<Rightarrow> byte list" where
  "enc_group g =
     enc_dir_header (fst g)
     @ concat (map (\<lambda>(e, c). enc_dir_entry e @ str_bytes (name c)) (snd g))"

definition enc_listing :: "dir_group list \<Rightarrow> byte list" where
  "enc_listing gs = concat (map enc_group gs)"

section \<open>Inodes: \<open>hard_link_count\<close> and \<open>write_inode\<close> (part_002)\<close>

text \<open>
  The on-disk inode records. Their declarations are not among the sources: the fields
  are those the initializers of \<open>write_inode\<close> name, with the widths of the conversions
  applied to them, in the order of the SquashFS 4.0 format. Fields of the same name in
  different records carry the name of their record.
\<close>

record sqfs_inode_t =
  base_type :: "16 word"
  base_mode :: "16 word"
  uid_idx :: "16 word"
  gid_idx :: "16 word"
  mod_time :: "32 word"
  inode_number :: "32 word"

record sqfs_inode_ipc_t =
  ipc_nlink :: "32 word"

record sqfs_inode_slink_t =
  slink_nlink :: "32 word"
  target_size :: "32 word"

record sqfs_inode_dev_t =
  dev_nlink :: "32 word"
  devno :: "32 word"

record sqfs_inode_file_t =
  file_blocks_start :: "32 word"
  file_fragment_index :: "32 word"
  file_fragment_offset :: "32 word"
  file_file_size :: "32 word"

record sqfs_inode_file_ext_t =
  fext_blocks_start :: "64 word"
  fext_file_size :: "64 word"
  fext_sparse :: "64 word"
  fext_nlink :: "32 word"
  fext_fragment_idx :: "32 word"
  fext_fragment_offset :: "32 word"
  fext_xattr_idx :: "32 word"

record sqfs_inode_dir_t =
  dir_start_block32 :: "32 word"
  dir_nlink :: "32 word"
  dir_size16 :: "16 word"
  dir_offset :: "16 word"
  dir_parent_inode :: "32 word"

record sqfs_inode_dir_ext_t =
  dext_nlink :: "32 word"
  dext_size :: "32 word"
  dext_start_block :: "32 word"
  dext_parent_inode :: "32 word"
  dext_inodex_count :: "16 word"
  dext_offset :: "16 word"
  dext_xattr_idx :: "32 word"

definition enc_inode :: "sqfs_inode_t \<Rightarrow> byte list" where
  "enc_inode b =
     le16 (base_type b) @ le16 (base_mode b) @ le16 (uid_idx b) @ le16 (gid_idx b)
     @ le32 (mod_time b) @ le32 (inode_number b)"

definition enc_ipc :: "sqfs_inode_ipc_t \<Rightarrow> byte list" where
  "enc_ipc x = le32 (ipc_nlink x)"

definition enc_slink :: "sqfs_inode_slink_t \<Rightarrow> byte list" where
  "enc_slink x = le32 (slink_nlink x) @ le32 (target_size x)"

definition enc_dev :: "sqfs_inode_dev_t \<Rightarrow> byte list" where
  "enc_dev x = le32 (dev_nlink x) @ le32 (devno x)"

definition enc_file :: "sqfs_inode_file_t \<Rightarrow> byte list" where
  "enc_file x =
     le32 (file_blocks_start x) @ le32 (file_fragment_index x) @ le32 (file_fragment_offset x)
     @ le32 (file_file_size x)"

definition enc_file_ext :: "sqfs_inode_file_ext_t \<Rightarrow> byte list" where
  "enc_file_ext x =
     le64 (fext_blocks_start x) @ le64 (fext_file_size x) @ le64 (fext_sparse x)
     @ le32 (fext_nlink x) @ le32 (fext_fragment_idx x) @ le32 (fext_fragment_offset x)
     @ le32 (fext_xattr_idx x)"

definition enc_dir :: "sqfs_inode_dir_t \<Rightarrow> byte list" where
  "enc_dir x =
     le32 (dir_start_block32 x) @ le32 (dir_nlink x) @ le16 (dir_size16 x) @ le16 (dir_offset x)
     @ le32 (dir_parent_inode x)"

definition enc_dir_ext :: "sqfs_inode_dir_ext_t \<Rightarrow> byte list" where
  "enc_dir_ext x =
     le32 (dext_nlink x) @ le32 (dext_size x) @ le32 (dext_start_block x)
     @ le32 (dext_parent_inode x) @ le16 (dext_inodex_count x) @ le16 (dext_offset x)
     @ le32 (dext_xattr_idx x)"

text \<open>What follows the common part of an inode: the record of its type and, for a
  symbolic link, the target, for a file, the sizes of its blocks.\<close>

datatype inode_tail =
  Tail_ipc sqfs_inode_ipc_t
  | Tail_slink sqfs_inode_slink_t string
  | Tail_dev sqfs_inode_dev_t
  | Tail_file_ext sqfs_inode_file_ext_t "32 word list"
  | Tail_file sqfs_inode_file_t "32 word list"
  | Tail_dir sqfs_inode_dir_t
  | Tail_dir_ext sqfs_inode_dir_ext_t

text \<open>The link count a tail stores; the basic file inode has no such field.\<close>

fun tail_nlink :: "inode_tail \<Rightarrow> 32 word option" where
  "tail_nlink (Tail_ipc x) = Some (ipc_nlink x)"
| "tail_nlink (Tail_slink x t) = Some (slink_nlink x)"
| "tail_nlink (Tail_dev x) = Some (dev_nlink x)"
| "tail_nlink (Tail_file_ext x bs) = Some (fext_nlink x)"
| "tail_nlink (Tail_file x bs) = None"
| "tail_nlink (Tail_dir x) = Some (dir_nlink x)"
| "tail_nlink (Tail_dir_ext x) = Some (dext_nlink x)"

text \<open>The bytes of a tail, in the order in which \<open>write_inode\<close> appends them: the
  record, then the target or the block sizes.\<close>

fun enc_tail :: "inode_tail \<Rightarrow> byte list" where
  "enc_tail (Tail_ipc x) = enc_ipc x"
| "enc_tail (Tail_slink x t) = enc_slink x @ str_bytes t"
| "enc_tail (Tail_dev x) = enc_dev x"
| "enc_tail (Tail_file_ext x bs) = enc_file_ext x @ concat (map le32 bs)"
| "enc_tail (Tail_file x bs) = enc_file x @ concat (map le32 bs)"
| "enc_tail (Tail_dir x) = enc_dir x"
| "enc_tail (Tail_dir_ext x) = enc_dir_ext x"

text \<open>
  Modelled from the spec: the ID table (spec, section 2, component C6: it deduplicates
  the ids into an index table), whose source file is not among the sources.
  \<open>id_table_id_to_index\<close> gives the index of an id and enters an id that is new; the
  index is the \<open>uint16_t\<close> of \<open>write_inode\<close>, so a table of 0x10000 ids takes no other.
\<close>

type_synonym id_table_t = "32 word list"

fun find_id :: "id_table_t \<Rightarrow> 32 word \<Rightarrow> nat \<Rightarrow> nat option" where
  "find_id [] x i = None"
| "find_id (y # ys) x i = (if y = x then Some i else find_id ys x (Suc i))"

definition id_table_id_to_index :: "id_table_t \<Rightarrow> 32 word \<Rightarrow> error + (id_table_t \<times> 16 word)" where
  "id_table_id_to_index tbl x =
     (case find_id tbl x 0 of
        Some i \<Rightarrow> Inr (tbl, of_nat i)
      | None \<Rightarrow>
          if length tbl \<ge> 0x10000 then Inl Fail
          else Inr (tbl @ [x], of_nat (length tbl)))"

text \<open>The fields of the super block and of \<open>sqfs_info_t\<close> that the serializer uses.\<close>

record sqfs_super_t =
  inode_count :: "32 word"
  block_size :: "32 word"
  root_inode_ref :: "64 word"
  bytes_used :: "64 word"
  inode_table_start :: "64 word"
  directory_table_start :: "64 word"

record options_t =
  def_mtime :: "32 word"

record sqfs_info_t =
  opt :: options_t
  super :: sqfs_super_t
  fs_root :: tree_node
  idtbl :: id_table_t
  inode_counter :: "32 word"
  cmp :: compressor_t

text \<open>
  The state that \<open>write_inode\<close> and \<open>write_child_inodes\<close> work on: the files, \<open>info\<close> and
  the two meta-writers \<open>im\<close> and \<open>dm\<close>. \<open>ilog\<close> and \<open>dlog\<close> are not state of the program:
  they record, in the order of the calls, the inode records handed to \<open>im\<close> and the
  directory listings handed to \<open>dm\<close>.
\<close>

record ser =
  world :: world
  info :: sqfs_info_t
  im :: meta_writer_t
  dm :: meta_writer_t
  ilog :: "(sqfs_inode_t \<times> inode_tail) list"
  dlog :: "dir_group list list"

definition im_append :: "ser \<Rightarrow> byte list \<Rightarrow> error + ser" where
  "im_append s bs =
     (case meta_writer_append (world s) (im s) bs of
        Inl e \<Rightarrow> Inl e
      | Inr (w, m) \<Rightarrow> Inr (s\<lparr>world := w, im := m\<rparr>))"

definition log_inode :: "sqfs_inode_t \<Rightarrow> inode_tail \<Rightarrow> ser \<Rightarrow> ser" where
  "log_inode b t s = s\<lparr>ilog := ilog s @ [(b, t)]\<rparr>"

fun hard_link_count :: "tree_node \<Rightarrow> error + nat" where
  "hard_link_count n =
     (if S_ISDIR (mode n) then
        (case data n of
           Dir di \<Rightarrow> Inr (2 + length (children di))
         | _ \<Rightarrow> Inl Undefined)
      else Inr 1)"

declare hard_link_count.simps [simp del]

text \<open>The first \<open>switch\<close> of \<open>write_inode\<close>: the type of the inode, and for a directory
  its listing.\<close>

definition wi_type :: "ser \<Rightarrow> tree_node \<Rightarrow> error + (tree_node \<times> ser)" where
  "wi_type s node =
     (let fmt = mode node AND S_IFMT in
      if fmt = S_IFSOCK then Inr (set_type SQFS_INODE_SOCKET node, s)
      else if fmt = S_IFIFO then Inr (set_type SQFS_INODE_FIFO node, s)
      else if fmt = S_IFLNK then Inr (set_type SQFS_INODE_SLINK node, s)
      else if fmt = S_IFBLK then Inr (set_type SQFS_INODE_BDEV node, s)
      else if fmt = S_IFCHR then Inr (set_type SQFS_INODE_CDEV node, s)
      else if fmt = S_IFDIR then
        (case data node of
           Dir di \<Rightarrow>
             (case write_dir (world s) (dm s) di of
                Inl e \<Rightarrow> Inl e
              | Inr (w, dm', di', groups) \<Rightarrow>
                  (let node1 = set_data (Dir di') (set_type SQFS_INODE_DIR node);
                       s1 = s\<lparr>world := w, dm := dm', dlog := dlog s @ [groups]\<rparr>
                   in if dir_start_block di' > 0xFFFFFFFF \<or> dir_size di' > 0xFFFF
                      then Inr (set_type SQFS_INODE_EXT_DIR node1, s1)
                      else Inr (node1, s1)))
         | _ \<Rightarrow> Inl Undefined)
      else if fmt = S_IFREG then
        (case data node of
           File fi \<Rightarrow>
             (case hard_link_count node of
                Inl e \<Rightarrow> Inl e
              | Inr nl \<Rightarrow>
                  if startblock fi > 0xFFFFFFFF \<or> fi_size fi > 0xFFFFFFFF \<or> nl > 1
                  then Inr (set_type SQFS_INODE_EXT_FILE node, s)
                  else Inr (set_type SQFS_INODE_FILE node, s))
         | _ \<Rightarrow> Inl Undefined)
      else Inl Abort)"

text \<open>The loop at the label \<open>out_file_blocks\<close>.\<close>

function write_file_blocks :: "ser \<Rightarrow> file_info_t \<Rightarrow> nat \<Rightarrow> nat \<Rightarrow> error + ser" where
  "write_file_blocks s fi i n =
     (if i < n then
        (if i < length (blocksizes fi) then
           (case im_append s (le32 (htole32 (blocksizes fi ! i))) of
              Inl e \<Rightarrow> Inl e
            | Inr s' \<Rightarrow> write_file_blocks s' fi (Suc i) n)
         else Inl Undefined)
      else Inr s)"
  by pat_completeness auto
termination write_file_blocks
  by (relation "measure (\<lambda>(s, fi, i, n). n - i)") auto

declare write_file_blocks.simps [simp del]

definition out_file_blocks ::
  "ser \<Rightarrow> file_info_t \<Rightarrow> error + (ser \<times> 32 word list)" where
  "out_file_blocks s fi =
     (if block_size (super (info s)) = 0 then Inl Undefined
      else
        (let n = unat (fi_size fi div ucast (block_size (super (info s))))
         in case write_file_blocks s fi 0 n of
              Inl e \<Rightarrow> Inl e
            | Inr s' \<Rightarrow> Inr (s', take n (blocksizes fi))))"

text \<open>The second \<open>switch\<close> of \<open>write_inode\<close>: the record of the type. \<open>parent\<close> is
  \<open>node->parent->inode_num\<close>, or \<open>None\<close> when \<open>node->parent\<close> is \<open>NULL\<close>.\<close>

definition wi_tail ::
  "ser \<Rightarrow> 32 word option \<Rightarrow> tree_node \<Rightarrow> sqfs_inode_t \<Rightarrow> error + ser" where
  "wi_tail s parent node base =
     (let t = type node in
      if t = SQFS_INODE_FIFO \<or> t = SQFS_INODE_SOCKET then
        bind_err (hard_link_count node) (\<lambda>nl.
          let ipc = \<lparr>ipc_nlink = of_nat nl\<rparr>
          in bind_err (im_append s (enc_ipc ipc)) (\<lambda>s1.
               Inr (log_inode base (Tail_ipc ipc) s1)))
      else if t = SQFS_INODE_SLINK then
        (case data node of
           Slink_target tgt \<Rightarrow>
             bind_err (hard_link_count node) (\<lambda>nl.
               let slink = \<lparr>slink_nlink = htole32 (of_nat nl :: 64 word),
                            target_size = htole32 (of_nat (length tgt) :: 64 word)\<rparr>
               in bind_err (im_append s (enc_slink slink)) (\<lambda>s1.
                    bind_err (im_append s1
                                (take (unat (target_size slink)) (str_bytes tgt))) (\<lambda>s2.
                      Inr (log_inode base
                             (Tail_slink slink (take (unat (target_size slink)) tgt)) s2))))
         | _ \<Rightarrow> Inl Undefined)
      else if t = SQFS_INODE_BDEV \<or> t = SQFS_INODE_CDEV then
        (case data node of
           Devno dn \<Rightarrow>
             bind_err (hard_link_count node) (\<lambda>nl.
               let dev = \<lparr>dev_nlink = htole32 (of_nat nl :: 64 word), devno = htole32 dn\<rparr>
               in bind_err (im_append s (enc_dev dev)) (\<lambda>s1.
                    Inr (log_inode base (Tail_dev dev) s1)))
         | _ \<Rightarrow> Inl Undefined)
      else if t = SQFS_INODE_EXT_FILE then
        (case data node of
           File fi \<Rightarrow>
             bind_err (hard_link_count node) (\<lambda>nl.
               let ext = \<lparr>fext_blocks_start = htole64 (startblock fi),
                          fext_file_size = htole64 (fi_size fi),
                          fext_sparse = htole64 (0xFFFFFFFFFFFFFFFF :: 64 word),
                          fext_nlink = htole32 (of_nat nl :: 64 word),
                          fext_fragment_idx = htole32 (fragment fi),
                          fext_fragment_offset = htole32 (fragment_offset fi),
                          fext_xattr_idx = htole32 (0xFFFFFFFF :: 32 word)\<rparr>
               in bind_err (im_append s (enc_file_ext ext)) (\<lambda>s1.
                    bind_err (out_file_blocks s1 fi) (\<lambda>(s2, bs).
                      Inr (log_inode base (Tail_file_ext ext bs) s2))))
         | _ \<Rightarrow> Inl Undefined)
      else if t = SQFS_INODE_FILE then
        (case data node of
           File fi \<Rightarrow>
             (let reg = \<lparr>file_blocks_start = htole32 (startblock fi),
                         file_fragment_index = htole32 (fragment fi),
                         file_fragment_offset = htole32 (fragment_offset fi),
                         file_file_size = htole32 (fi_size fi)\<rparr>
              in bind_err (im_append s (enc_file reg)) (\<lambda>s1.
                   bind_err (out_file_blocks s1 fi) (\<lambda>(s2, bs).
                     Inr (log_inode base (Tail_file reg bs) s2))))
         | _ \<Rightarrow> Inl Undefined)
      else if t = SQFS_INODE_DIR then
        (case data node of
           Dir di \<Rightarrow>
             bind_err (hard_link_count node) (\<lambda>nl.
               let dir = \<lparr>dir_start_block32 = htole32 (dir_start_block di),
                          dir_nlink = htole32 (of_nat nl :: 64 word),
                          dir_size16 = htole16 (dir_size di),
                          dir_offset = htole16 (dir_block_offset di),
                          dir_parent_inode =
                            (case parent of Some p \<Rightarrow> htole32 p | None \<Rightarrow> htole32 (1 :: 32 word))\<rparr>
               in bind_err (im_append s (enc_dir dir)) (\<lambda>s1.
                    Inr (log_inode base (Tail_dir dir) s1)))
         | _ \<Rightarrow> Inl Undefined)
      else if t = SQFS_INODE_EXT_DIR then
        (case data node of
           Dir di \<Rightarrow>
             bind_err (hard_link_count node) (\<lambda>nl.
               let ext = \<lparr>dext_nlink = htole32 (of_nat nl :: 64 word),
                          dext_size = htole32 (dir_size di),
                          dext_start_block = htole32 (dir_start_block di),
                          dext_parent_inode =
                            (case parent of Some p \<Rightarrow> htole32 p | None \<Rightarrow> htole32 (1 :: 32 word)),
                          dext_inodex_count = ucast (htole32 (0 :: 32 word)),
                          dext_offset = htole16 (dir_block_offset di),
                          dext_xattr_idx = htole32 (0xFFFFFFFF :: 32 word)\<rparr>
               in bind_err (im_append s (enc_dir_ext ext)) (\<lambda>s1.
                    Inr (log_inode base (Tail_dir_ext ext) s1)))
         | _ \<Rightarrow> Inl Undefined)
      else Inl Abort)"

definition write_inode :: "ser \<Rightarrow> 32 word option \<Rightarrow> tree_node \<Rightarrow> error + (tree_node \<times> ser)" where
  "write_inode s parent node =
     bind_err (id_table_id_to_index (idtbl (info s)) (uid node)) (\<lambda>(tbl1, uid_idx).
     bind_err (id_table_id_to_index tbl1 (gid node)) (\<lambda>(tbl2, gid_idx).
       let node1 = set_inode_num (inode_counter (info s))
                     (set_inode_ref
                        (push_bit 16 (of_nat (block_offset (im s))) OR of_nat (offset (im s)))
                        node);
           s1 = s\<lparr>info := (info s)
                   \<lparr>idtbl := tbl2,
                    inode_counter := inode_counter (info s) + 1,
                    super := (super (info s))
                      \<lparr>inode_count := inode_count (super (info s)) + 1\<rparr>\<rparr>\<rparr>
       in bind_err (wi_type s1 node1) (\<lambda>(node2, s2).
            let base = \<lparr>base_type = htole16 (word_of_int (type node2) :: 32 word),
                        base_mode = htole16 (mode node2),
                        uid_idx = htole16 uid_idx,
                        gid_idx = htole16 gid_idx,
                        mod_time = htole32 (def_mtime (opt (info s2))),
                        inode_number = htole32 (inode_num node2)\<rparr>
            in bind_err (im_append s2 (enc_inode base)) (\<lambda>s3.
                 bind_err (wi_tail s3 parent node2 base) (\<lambda>s4. Inr (node2, s4))))))"

section \<open>The traversal: \<open>write_child_inodes\<close> and \<open>sqfs_write_inodes\<close> (part_002)\<close>

text \<open>The last loop of \<open>write_child_inodes\<close>: the inodes of the children of one
  directory, in the order of the list. \<open>p\<close> is what \<open>it->parent->inode_num\<close> holds.\<close>

fun write_inodes ::
  "ser \<Rightarrow> 32 word option \<Rightarrow> tree_node list \<Rightarrow> error + (tree_node list \<times> ser)" where
  "write_inodes s p [] = Inr ([], s)"
| "write_inodes s p (it # rest) =
     (case write_inode s p it of
        Inl e \<Rightarrow> Inl e
      | Inr (it', s1) \<Rightarrow>
          (case write_inodes s1 p rest of
             Inl e \<Rightarrow> Inl e
           | Inr (rest', s2) \<Rightarrow> Inr (it' # rest', s2)))"

text \<open>
  \<open>write_child_inodes\<close> and its second loop, which descends into the children that are
  directories. The nodes are changed in place in C; here the functions return the
  nodes as they leave them.
\<close>

fun write_child_inodes :: "ser \<Rightarrow> tree_node \<Rightarrow> error + (tree_node \<times> ser)"
  and write_subdirs :: "ser \<Rightarrow> tree_node list \<Rightarrow> error + (tree_node list \<times> ser)" where
  "write_child_inodes s (Tree_node nm u g m mt xa r k ty (Dir (Dir_info cs dsz dsb dbo))) =
     (case (if list_ex (\<lambda>it. S_ISDIR (mode it)) cs then write_subdirs s cs else Inr (cs, s)) of
        Inl e \<Rightarrow> Inl e
      | Inr (cs1, s1) \<Rightarrow>
          (case write_inodes s1 (Some k) cs1 of
             Inl e \<Rightarrow> Inl e
           | Inr (cs2, s2) \<Rightarrow>
               Inr (Tree_node nm u g m mt xa r k ty (Dir (Dir_info cs2 dsz dsb dbo)), s2)))"
| "write_child_inodes s (Tree_node nm u g m mt xa r k ty (File fi)) = Inl Undefined"
| "write_child_inodes s (Tree_node nm u g m mt xa r k ty (Slink_target t)) = Inl Undefined"
| "write_child_inodes s (Tree_node nm u g m mt xa r k ty (Devno dn)) = Inl Undefined"
| "write_subdirs s [] = Inr ([], s)"
| "write_subdirs s (it # rest) =
     (if \<not> S_ISDIR (mode it) then
        (case write_subdirs s rest of
           Inl e \<Rightarrow> Inl e
         | Inr (rest', s') \<Rightarrow> Inr (it # rest', s'))
      else
        (case write_child_inodes s it of
           Inl e \<Rightarrow> Inl e
         | Inr (it', s1) \<Rightarrow>
             (case write_subdirs s1 rest of
                Inl e \<Rightarrow> Inl e
              | Inr (rest', s2) \<Rightarrow> Inr (it' # rest', s2))))"

text \<open>
  \<open>sqfs_write_inodes\<close> from the assignment to \<open>info->inode_counter\<close> to the last
  assignment to the super block: the tree is serialized, both writers are flushed and
  the super block is told where the two tables are.
\<close>

definition serialize_tree :: "ser \<Rightarrow> error + ser" where
  "serialize_tree s0 =
     (let s = s0\<lparr>info := (info s0)\<lparr>inode_counter := 2\<rparr>\<rparr> in
      bind_err (write_child_inodes s (fs_root (info s))) (\<lambda>(root1, s1).
      bind_err (write_inode s1 None root1) (\<lambda>(root2, s2).
      bind_err (meta_writer_flush (world s2) (im s2)) (\<lambda>(w3, im3).
      bind_err (meta_writer_flush w3 (dm s2)) (\<lambda>(w4, dm4).
        let sup = super (info s2);
            sup1 = sup\<lparr>root_inode_ref := inode_ref root2\<rparr>;
            sup2 = sup1\<lparr>inode_table_start := bytes_used sup1\<rparr>;
            sup3 = sup2\<lparr>bytes_used := bytes_used sup2 + of_nat (block_offset im3)\<rparr>;
            sup4 = sup3\<lparr>directory_table_start := bytes_used sup3\<rparr>;
            sup5 = sup4\<lparr>bytes_used := bytes_used sup4 + of_nat (block_offset dm4)\<rparr>
        in Inr (s2\<lparr>world := w4, im := im3, dm := dm4,
                    info := (info s2)\<lparr>fs_root := root2, super := sup5\<rparr>\<rparr>))))))"

text \<open>The loop that copies the temporary file to the image, a buffer at a time; the
  buffer is \<open>dm->data\<close>, a meta block and its length.\<close>

definition tmp_rest :: "world \<Rightarrow> nat" where
  "tmp_rest w = (case tmpf w of None \<Rightarrow> 0 | Some f \<Rightarrow> length (content f) - pos f)"

lemma read_retry_tmp_rest:
  "read_retry w Tmpfd n = (w1, ret, buf) \<Longrightarrow> 0 < ret \<Longrightarrow> tmp_rest w1 < tmp_rest w"
  by (auto simp: read_retry_def get_file_def put_file_def tmp_rest_def Let_def
      split: option.splits)

lemma write_retry_tmp_rest:
  "write_retry w Outfd bs = (w1, ret) \<Longrightarrow> tmp_rest w1 = tmp_rest w"
  by (auto simp: write_retry_def get_file_def put_file_def tmp_rest_def Let_def
      split: option.splits)

function copy_tmp :: "world \<Rightarrow> error + world" where
  "copy_tmp w =
     (case read_retry w Tmpfd (SQFS_META_BLOCK_SIZE + 2) of
        (w1, ret, buf) \<Rightarrow>
          if ret < 0 then Inl Fail
          else if ret = 0 then Inr w1
          else
            (case write_retry w1 Outfd buf of
               (w2, ret2) \<Rightarrow>
                 if ret2 < 0 then Inl Fail
                 else if ret2 < ret then Inl Fail
                 else copy_tmp w2))"
  by pat_completeness auto
termination copy_tmp
proof (relation "measure tmp_rest", goal_cases)
  case 1
  show ?case by simp
next
  case (2 w w1 r ret buf w2 ret2)
  from 2(1,2) have "read_retry w Tmpfd (SQFS_META_BLOCK_SIZE + 2) = (w1, ret, buf)"
    by simp
  with 2(3,4) have a: "tmp_rest w1 < tmp_rest w"
    by (auto dest: read_retry_tmp_rest)
  from 2(5) have "write_retry w1 Outfd buf = (w2, ret2)"
    by simp
  then have "tmp_rest w2 = tmp_rest w1"
    by (rule write_retry_tmp_rest)
  with a show ?case by simp
qed

declare copy_tmp.simps [simp del]

definition sqfs_write_inodes :: "world \<Rightarrow> sqfs_info_t \<Rightarrow> error + (sqfs_info_t \<times> world)" where
  "sqfs_write_inodes w info0 =
     (case tmpfile w of
        None \<Rightarrow> Inl Fail
      | Some w1 \<Rightarrow>
          if \<not> alloc_ok w1 then Inl Fail
          else
            bind_err
              (serialize_tree
                 \<lparr>world = w1, info = info0,
                  im = meta_writer_create Outfd (cmp info0),
                  dm = meta_writer_create Tmpfd (cmp info0),
                  ilog = [], dlog = []\<rparr>) (\<lambda>s.
              case lseek_set0 (world s) Tmpfd of
                None \<Rightarrow> Inl Fail
              | Some w2 \<Rightarrow>
                  bind_err (copy_tmp w2) (\<lambda>w3. Inr (info s, fclose_tmp w3))))"

text \<open>Names for the values that \<open>write_inode\<close> passes from step to step: the node
  with its reference and number, the state with the counters advanced, the common part
  of the inode; and a node with another \<open>mtime\<close>.\<close>

definition wi_node1 :: "ser \<Rightarrow> tree_node \<Rightarrow> tree_node" where
  "wi_node1 s node =
     set_inode_num (inode_counter (info s))
       (set_inode_ref (push_bit 16 (of_nat (block_offset (im s))) OR of_nat (offset (im s))) node)"

definition wi_ser1 :: "ser \<Rightarrow> id_table_t \<Rightarrow> ser" where
  "wi_ser1 s tbl =
     s\<lparr>info := (info s)
         \<lparr>idtbl := tbl,
          inode_counter := inode_counter (info s) + 1,
          super := (super (info s))\<lparr>inode_count := inode_count (super (info s)) + 1\<rparr>\<rparr>\<rparr>"

definition wi_base :: "ser \<Rightarrow> tree_node \<Rightarrow> 16 word \<Rightarrow> 16 word \<Rightarrow> sqfs_inode_t" where
  "wi_base s node u g =
     \<lparr>base_type = htole16 (word_of_int (type node) :: 32 word),
      base_mode = htole16 (mode node),
      uid_idx = htole16 u,
      gid_idx = htole16 g,
      mod_time = htole32 (def_mtime (opt (info s))),
      inode_number = htole32 (inode_num node)\<rparr>"

definition set_mtime :: "32 word \<Rightarrow> tree_node \<Rightarrow> tree_node" where
  "set_mtime t n =
     Tree_node (name n) (uid n) (gid n) (mode n) t (xattr n) (inode_ref n) (inode_num n) (type n)
       (data n)"

section \<open>Example inputs\<close>

text \<open>A compressor that never shrinks a block, an empty image on a device of one
  megabyte, and the state of the serializer right after \<open>sqfs_write_inodes\<close> has
  created the temporary file and the two writers.\<close>

definition no_compress :: compressor_t where
  "no_compress bs = Cmp_bigger"

definition ex_world :: world where
  "ex_world =
     \<lparr>outfile = \<lparr>content = [], pos = 0, limit = 1048576\<rparr>, tmpf = None,
      tmp_limit = Some 1048576, alloc_ok = True\<rparr>"

definition ex_info :: "32 word \<Rightarrow> tree_node \<Rightarrow> sqfs_info_t" where
  "ex_info bs root =
     \<lparr>opt = \<lparr>def_mtime = 0x5D000000\<rparr>,
      super = \<lparr>inode_count = 0, block_size = bs, root_inode_ref = 0, bytes_used = 0,
               inode_table_start = 0, directory_table_start = 0\<rparr>,
      fs_root = root, idtbl = [], inode_counter = 2, cmp = no_compress\<rparr>"

definition ex_ser :: "32 word \<Rightarrow> tree_node \<Rightarrow> ser" where
  "ex_ser bs root =
     \<lparr>world = ex_world\<lparr>tmpf := Some \<lparr>content = [], pos = 0, limit = 1048576\<rparr>\<rparr>,
      info = ex_info bs root,
      im = meta_writer_create Outfd no_compress,
      dm = meta_writer_create Tmpfd no_compress,
      ilog = [], dlog = []\<rparr>"

text \<open>Nodes: a regular file of a given size with given block sizes and xattr-id, a
  directory with given children, a symbolic link. Mode 0644 is 0x1A4, 0755 is 0x1ED.\<close>

definition file_node :: "string \<Rightarrow> 64 word \<Rightarrow> 32 word list \<Rightarrow> 32 word option \<Rightarrow> tree_node" where
  "file_node nm sz bs xa =
     Tree_node nm 0 0 (S_IFREG OR 0x1A4) 0x12345678 xa 0 0 0
       (File \<lparr>fi_size = sz, startblock = 96, fragment = 0xFFFFFFFF, fragment_offset = 0,
               blocksizes = bs\<rparr>)"

definition dir_node :: "string \<Rightarrow> tree_node list \<Rightarrow> tree_node" where
  "dir_node nm cs =
     Tree_node nm 0 0 (S_IFDIR OR 0x1ED) 0x12345678 None 0 0 0 (Dir (Dir_info cs 0 0 0))"

definition slink_node :: "string \<Rightarrow> string \<Rightarrow> tree_node" where
  "slink_node nm tgt =
     Tree_node nm 0 0 (S_IFLNK OR 0x1FF) 0x12345678 None 0 0 0 (Slink_target tgt)"

text \<open>A named pipe, a directory with two regular files, and a directory with \<open>n\<close>
  named pipes, whose names are two letters each.\<close>

definition fifo_node :: "string \<Rightarrow> tree_node" where
  "fifo_node nm = Tree_node nm 0 0 (S_IFIFO OR 0x1A4) 0x12345678 None 0 0 0 (Devno 0)"

definition two_file_dir :: tree_node where
  "two_file_dir = dir_node ''d'' [file_node ''a'' 10 [] None, file_node ''bc'' 10 [] None]"

definition many_fifo_dir :: "nat \<Rightarrow> tree_node" where
  "many_fifo_dir n =
     dir_node ''d''
       (map (\<lambda>i. fifo_node [char_of (65 + i div 26), char_of (97 + i mod 26)]) [0..<n])"

section \<open>Notions for the properties of the traversal\<close>

text \<open>The children of a node, the number of nodes of a tree, and the trees in which
  only nodes with the mode of a directory hold a directory.\<close>

definition kids :: "tree_node \<Rightarrow> tree_node list" where
  "kids n = (case data n of Dir di \<Rightarrow> children di | _ \<Rightarrow> [])"

fun tree_size :: "tree_node \<Rightarrow> nat" where
  "tree_size (Tree_node nm u g m mt xa r k ty (Dir (Dir_info cs a b c))) =
     Suc (sum_list (map tree_size cs))"
| "tree_size (Tree_node nm u g m mt xa r k ty (File fi)) = 1"
| "tree_size (Tree_node nm u g m mt xa r k ty (Slink_target t)) = 1"
| "tree_size (Tree_node nm u g m mt xa r k ty (Devno dn)) = 1"

fun wf_tree :: "tree_node \<Rightarrow> bool" where
  "wf_tree (Tree_node nm u g m mt xa r k ty (Dir (Dir_info cs a b c))) =
     (S_ISDIR m \<and> list_all wf_tree cs)"
| "wf_tree (Tree_node nm u g m mt xa r k ty (File fi)) = True"
| "wf_tree (Tree_node nm u g m mt xa r k ty (Slink_target t)) = True"
| "wf_tree (Tree_node nm u g m mt xa r k ty (Devno dn)) = True"

text \<open>Post-order numbering: every child of every directory of the tree has a smaller
  inode number than the directory.\<close>

fun children_before :: "tree_node \<Rightarrow> bool" where
  "children_before (Tree_node nm u g m mt xa r k ty (Dir (Dir_info cs a b c))) =
     list_all (\<lambda>x. inode_num x < k \<and> children_before x) cs"
| "children_before (Tree_node nm u g m mt xa r k ty (File fi)) = True"
| "children_before (Tree_node nm u g m mt xa r k ty (Slink_target t)) = True"
| "children_before (Tree_node nm u g m mt xa r k ty (Devno dn)) = True"

text \<open>The number of nodes below a node, and below the nodes of a list.\<close>

definition below :: "tree_node \<Rightarrow> nat" where
  "below n = sum_list (map tree_size (kids n))"

definition below_all :: "tree_node list \<Rightarrow> nat" where
  "below_all cs = sum_list (map below cs)"

text \<open>
  \<open>advanced k s s'\<close>: from \<open>s\<close> to \<open>s'\<close> the next \<open>k\<close> inode numbers have been given out, one
  for each of the \<open>k\<close> inodes appended to the log, in order, and counted in the super
  block. \<open>numbered lo hi c\<close>: the number of \<open>c\<close> is in the range and \<open>c\<close> is numbered in
  post-order.
\<close>

definition counter :: "ser \<Rightarrow> nat" where
  "counter s = unat (inode_counter (info s))"

definition advanced :: "nat \<Rightarrow> ser \<Rightarrow> ser \<Rightarrow> bool" where
  "advanced k s s' \<longleftrightarrow>
     counter s' = counter s + k \<and>
     (\<exists>l. ilog s' = ilog s @ l \<and>
          map (\<lambda>x. unat (inode_number (fst x))) l = [counter s ..< counter s + k]) \<and>
     inode_count (super (info s')) = inode_count (super (info s)) + of_nat k"

definition numbered :: "nat \<Rightarrow> nat \<Rightarrow> tree_node \<Rightarrow> bool" where
  "numbered lo hi c \<longleftrightarrow>
     lo \<le> unat (inode_num c) \<and> unat (inode_num c) < hi \<and> children_before c"

text \<open>
  \<open>layout base w mi md\<close>: the inode writer \<open>mi\<close> writes to the image and the directory
  writer \<open>md\<close> to the temporary file; both files are at their ends; the image is \<open>base\<close>
  followed by the blocks of \<open>mi\<close>, the temporary file is the blocks of \<open>md\<close>.
\<close>

definition appending :: "file_t \<Rightarrow> bool" where
  "appending f \<longleftrightarrow> pos f = length (content f)"

definition layout :: "byte list \<Rightarrow> world \<Rightarrow> meta_writer_t \<Rightarrow> meta_writer_t \<Rightarrow> bool" where
  "layout base w mi md \<longleftrightarrow>
     outfd mi = Outfd \<and> outfd md = Tmpfd \<and> appending (outfile w) \<and>
     (\<exists>i. content (outfile w) = base @ i \<and> length i = block_offset mi) \<and>
     (\<exists>f. tmpf w = Some f \<and> appending f \<and> length (content f) = block_offset md)"

text \<open>A tree of four nodes: a file and a directory that holds a symbolic link.\<close>

definition ex_tree :: tree_node where
  "ex_tree =
     dir_node [] [file_node ''a'' 10 [] None, dir_node ''d'' [slink_node ''l'' ''a'']]"

section \<open>Properties of \<open>append_block\<close>\<close>

lemma append_block_loop_result:
  assumes "append_block_loop wr n ptr sz err = Some y"
  shows "fst y = 0"
proof (rule append_block_loop.raw_induct
    [where P = "\<lambda>wr n ptr sz err y. fst y = 0", OF _ assms])
  fix loop :: "sys_write \<Rightarrow> nat \<Rightarrow> 64 word \<Rightarrow> 64 word \<Rightarrow> string list \<Rightarrow> (int \<times> string list) option"
  fix wr n ptr sz err y
  assume IH: "\<And>wr n ptr sz err y. loop wr n ptr sz err = Some y \<Longrightarrow> fst y = 0"
  assume step: "(if 0 < sz then
        (case wr n sz of
           (ret, eintr) \<Rightarrow>
             if ret < 0 \<and> eintr then loop wr (Suc n) ptr sz err
             else
               let err1 = (if ret < 0 then err @ [''writing data block''] else err);
                   err2 = (if ret = 0
                           then err1 @ [''writing data block: unexpected end of file'']
                           else err1)
               in loop wr (Suc n) (ptr + word_of_int ret)
                    (sz - word_of_int ret) err2)
      else Some (0, err)) = Some y"
  show "fst y = 0"
  proof (cases "0 < sz")
    case False
    with step show ?thesis by auto
  next
    case True
    obtain ret eintr where w: "wr n sz = (ret, eintr)" by (cases "wr n sz")
    from step True w show ?thesis
      by (auto simp: Let_def split: if_splits dest: IH)
  qed
qed

lemma append_block_loop_done:
  "append_block_loop wr n ptr 0 err = Some (0, err)"
  by (subst append_block_loop.simps) simp

lemma append_block_loop_write_after:
  "n \<le> k \<Longrightarrow> sz \<noteq> 0 \<Longrightarrow>
   append_block_loop (write_after k) n ptr sz err =
     Some (0, err @ replicate (k - n) ''writing data block: unexpected end of file'')"
proof (induction "k - n" arbitrary: n err)
  case 0
  then have nk: "n = k" by simp
  from 0(3) have pos: "0 < sz" by (simp add: word_greater_zero_iff)
  from 0(3) have nz: "uint sz \<noteq> 0" by (simp add: uint_0_iff)
  show ?case
    by (subst append_block_loop.simps)
       (simp add: nk pos nz write_after_def append_block_loop_done)
next
  case (Suc d)
  then have lt: "n < k" and d: "d = k - Suc n" and le: "Suc n \<le> k" by simp_all
  from Suc(4) have pos: "0 < sz" by (simp add: word_greater_zero_iff)
  have rep: "replicate (k - n) x = x # replicate (k - Suc n) x" for x :: string
    using lt by (simp add: Suc_diff_Suc flip: replicate_Suc)
  show ?case
    by (subst append_block_loop.simps)
       (simp add: lt pos write_after_def Suc(1)[OF d le Suc(4)] rep)
qed

lemma append_block_loop_write_nothing:
  assumes "append_block_loop wr n ptr sz err = Some y"
  shows "wr = write_nothing \<longrightarrow> sz = 0"
proof (rule append_block_loop.raw_induct
    [where P = "\<lambda>wr n ptr sz err y. wr = write_nothing \<longrightarrow> sz = 0", OF _ assms])
  fix loop :: "sys_write \<Rightarrow> nat \<Rightarrow> 64 word \<Rightarrow> 64 word \<Rightarrow> string list \<Rightarrow> (int \<times> string list) option"
  fix wr n ptr sz err y
  assume IH: "\<And>wr n ptr sz err y. loop wr n ptr sz err = Some y \<Longrightarrow>
     wr = write_nothing \<longrightarrow> sz = 0"
  assume step: "(if 0 < sz then
        (case wr n sz of
           (ret, eintr) \<Rightarrow>
             if ret < 0 \<and> eintr then loop wr (Suc n) ptr sz err
             else
               let err1 = (if ret < 0 then err @ [''writing data block''] else err);
                   err2 = (if ret = 0
                           then err1 @ [''writing data block: unexpected end of file'']
                           else err1)
               in loop wr (Suc n) (ptr + word_of_int ret)
                    (sz - word_of_int ret) err2)
      else Some (0, err)) = Some y"
  show "wr = write_nothing \<longrightarrow> sz = 0"
  proof (intro impI, rule ccontr)
    assume wn: "wr = write_nothing" and "sz \<noteq> 0"
    then have pos: "0 < sz" by (simp add: word_greater_zero_iff)
    from step pos wn have "loop write_nothing (Suc n) ptr sz
        (err @ [''writing data block: unexpected end of file'']) = Some y"
      by (simp add: write_nothing_def)
    from IH[OF this] \<open>sz \<noteq> 0\<close> show False by simp
  qed
qed

text \<open>
  Claim C7, as the code has it. \<open>append_block\<close> has no error return: whatever \<open>write\<close>
  answers, a run that returns returns 0. A \<open>write\<close> that reports 0 bytes only prints a
  line and is tried again: after any number \<open>k\<close> of such answers, followed by a \<open>write\<close>
  that takes the block, \<open>append_block\<close> returns 0 with the \<open>k\<close> lines printed.
\<close>

theorem append_block_never_fails:
  "(append_block wr blk = Some y \<longrightarrow> fst y = 0) \<and>
   (blk_size blk \<noteq> 0 \<longrightarrow>
      append_block (write_after k) blk =
        Some (0, replicate k ''writing data block: unexpected end of file''))"
  using append_block_loop_write_after[of 0 k "blk_size blk" 0 "[]"]
  by (auto simp: append_block_def dest: append_block_loop_result)

theorem append_block_never_fails_witness:
  "blk_size one_byte_block \<noteq> 0 \<and>
   append_block (write_after 2) one_byte_block =
     Some (0, [''writing data block: unexpected end of file'',
               ''writing data block: unexpected end of file'']) \<and>
   fst (0 :: int, [''writing data block: unexpected end of file'',
               ''writing data block: unexpected end of file'']) = 0"
  using append_block_never_fails[of "write_after 2" one_byte_block
      "(0, [''writing data block: unexpected end of file'',
            ''writing data block: unexpected end of file''])" 2]
  by (simp add: one_byte_block_def numeral_2_eq_2)

text \<open>
  Claim C7, as the spec words it, says that \<open>append_block\<close> returns 0 for every block.
  On a descriptor where \<open>write\<close> keeps reporting 0 bytes the loop never ends: the
  function returns nothing at all.
\<close>

theorem append_block_write_nothing_hangs:
  "append_block write_nothing one_byte_block = None"
proof (cases "append_block write_nothing one_byte_block")
  case None
  then show ?thesis .
next
  case (Some y)
  then have "(1 :: 64 word) = 0"
    unfolding append_block_def one_byte_block_def
    by (auto dest: append_block_loop_write_nothing)
  then show ?thesis by simp
qed

section \<open>Properties of \<open>decode_header\<close>\<close>

lemma bind_err_Inr: "bind_err m f = Inr y \<longleftrightarrow> (\<exists>x. m = Inr x \<and> f x = Inr y)"
  by (cases m) (simp_all add: bind_err_def)

lemma dh_name_keeps: "dh_name env hdr p ver out = Inr out' \<Longrightarrow> link_target out' = link_target out"
  by (auto simp: dh_name_def Let_def split: if_splits)
lemma dh_size_keeps: "dh_size env hdr p out = Inr out' \<Longrightarrow> link_target out' = link_target out"
  by (auto simp: dh_size_def split: if_splits option.splits)
lemma dh_uid_keeps: "dh_uid env hdr p out = Inr out' \<Longrightarrow> link_target out' = link_target out"
  by (auto simp: dh_uid_def split: if_splits option.splits)
lemma dh_gid_keeps: "dh_gid env hdr p out = Inr out' \<Longrightarrow> link_target out' = link_target out"
  by (auto simp: dh_gid_def split: if_splits option.splits)
lemma dh_devmajor_keeps: "dh_devmajor env hdr p out = Inr out' \<Longrightarrow> link_target out' = link_target out"
  by (auto simp: dh_devmajor_def split: if_splits option.splits)
lemma dh_devminor_keeps: "dh_devminor env hdr p out = Inr out' \<Longrightarrow> link_target out' = link_target out"
  by (auto simp: dh_devminor_def split: if_splits option.splits)
lemma dh_mtime_keeps: "dh_mtime env hdr p out = Inr out' \<Longrightarrow> link_target out' = link_target out"
  by (auto simp: dh_mtime_def split: if_splits option.splits)
lemma dh_mode_keeps: "dh_mode env hdr out = Inr out' \<Longrightarrow> link_target out' = link_target out"
  by (auto simp: dh_mode_def split: if_splits option.splits)

lemma strdup_field:
  "NUL \<in> set (take n s) \<Longrightarrow> strdup (take n s @ rest) = Inr (strndup s n)"
  by (auto simp: strdup_def strndup_def takeWhile_append1)

lemma takeWhile_no_NUL:
  "NUL \<notin> set xs \<Longrightarrow>
   takeWhile (\<lambda>c. c \<noteq> NUL) (xs @ ys) = xs @ takeWhile (\<lambda>c. c \<noteq> NUL) ys"
  by (induction xs) auto

lemma strdup_full:
  "NUL \<notin> set (take n s) \<Longrightarrow>
   strdup (take n s @ rest) = map_sum id (\<lambda>t. take n s @ t) (strdup rest)"
  by (auto simp: strdup_def takeWhile_no_NUL)

lemma check_version_NUL:
  "check_version hdr \<noteq> ETV_UNKNOWN \<Longrightarrow> NUL \<in> set (take 6 (magic hdr) @ take 2 (version hdr))"
  by (auto simp: check_version_def split: if_splits)

lemma dh_link_target_link:
  "dh_link_target env hdr p out = Inr out' \<Longrightarrow> typeflag hdr = TAR_TYPE_LINK \<Longrightarrow>
   link_target out' =
     (if PAX_SLINK_TARGET \<in> p then link_target out
      else Some (takeWhile (\<lambda>c. c \<noteq> NUL) (take 100 (linkname hdr) @ after_linkname hdr)))"
  by (auto simp: dh_link_target_def strdup_def bind_err_def split: if_splits sum.splits)

lemma dh_typeflag_link:
  "typeflag hdr = TAR_TYPE_LINK \<Longrightarrow>
   st_mode (sb (dh_st_mtime (dh_typeflag hdr out))) = S_IFLNK OR 0x1FF
   \<and> link_target (dh_st_mtime (dh_typeflag hdr out)) = link_target out"
  by (simp add: dh_typeflag_def dh_st_mtime_def Let_def TAR_TYPE_LINK_def NUL_def
      TAR_TYPE_FILE_def TAR_TYPE_GNU_SPARSE_def)

lemma decode_header_link:
  assumes "decode_header env hdr set_by_pax out ver = Inr out'"
    and "typeflag hdr = TAR_TYPE_LINK"
  shows "st_mode (sb out') = S_IFLNK OR 0x1FF \<and>
         link_target out' =
           (if PAX_SLINK_TARGET \<in> set_by_pax then link_target out
            else Some (takeWhile (\<lambda>c. c \<noteq> NUL) (take 100 (linkname hdr) @ after_linkname hdr)))"
proof -
  from assms(1) obtain o1 o2 o3 o4 o5 o6 o7 o8 o9 where
    s: "dh_name env hdr set_by_pax ver out = Inr o1"
       "dh_size env hdr set_by_pax o1 = Inr o2"
       "dh_uid env hdr set_by_pax o2 = Inr o3"
       "dh_gid env hdr set_by_pax o3 = Inr o4"
       "dh_devmajor env hdr set_by_pax o4 = Inr o5"
       "dh_devminor env hdr set_by_pax o5 = Inr o6"
       "dh_mtime env hdr set_by_pax o6 = Inr o7"
       "dh_mode env hdr o7 = Inr o8"
       "dh_link_target env hdr set_by_pax o8 = Inr o9"
    and o: "out' = dh_st_mtime (dh_typeflag hdr o9)"
    unfolding decode_header_def bind_err_Inr by auto
  have "link_target o8 = link_target out"
    using s(1-8)
    by (simp add: dh_name_keeps dh_size_keeps dh_uid_keeps dh_gid_keeps dh_devmajor_keeps
        dh_devminor_keeps dh_mtime_keeps dh_mode_keeps)
  with dh_link_target_link[OF s(9) assms(2)] dh_typeflag_link[OF assms(2), of o9] o
  show ?thesis by simp
qed

lemma read_header_decode_keeps:
  assumes "read_header_decode env hdr set_by_pax out ver = Inr out'"
  shows "\<exists>d. decode_header env hdr set_by_pax out ver = Inr d
           \<and> st_mode (sb out') = st_mode (sb d) \<and> link_target out' = link_target d"
  using assms unfolding read_header_decode_def bind_err_Inr
  by (auto split: if_splits)

text \<open>
  What holds of every header with the type flag \<open>'1'\<close> (a hard link) that \<open>read_header\<close>
  decodes: the mode is exactly \<open>S_IFLNK | 0777\<close>, whatever the mode field held; a target
  that an earlier record has set (\<open>PAX_SLINK_TARGET\<close>) stays; otherwise the target is the
  string that starts at \<open>hdr->linkname\<close>, which is the string of the field when the field
  holds a NUL, and the 100 bytes of the field followed by what \<open>strdup\<close> finds behind
  it when it holds none.
\<close>

lemma hard_link_decoded:
  assumes "typeflag hdr = TAR_TYPE_LINK"
    and "read_header_decode env hdr set_by_pax out ver = Inr out'"
  shows "st_mode (sb out') = S_IFLNK OR 0x1FF"
    and "PAX_SLINK_TARGET \<in> set_by_pax \<Longrightarrow> link_target out' = link_target out"
    and "PAX_SLINK_TARGET \<notin> set_by_pax \<Longrightarrow> NUL \<in> set (take 100 (linkname hdr)) \<Longrightarrow>
           link_target out' = Some (strndup (linkname hdr) 100)"
    and "PAX_SLINK_TARGET \<notin> set_by_pax \<Longrightarrow> NUL \<notin> set (take 100 (linkname hdr)) \<Longrightarrow>
           link_target out' =
             Some (take 100 (linkname hdr) @ takeWhile (\<lambda>c. c \<noteq> NUL) (after_linkname hdr))"
proof -
  from read_header_decode_keeps[OF assms(2)] obtain d where
    d: "decode_header env hdr set_by_pax out ver = Inr d"
      "st_mode (sb out') = st_mode (sb d)" "link_target out' = link_target d"
    by blast
  note l = decode_header_link[OF d(1) assms(1)]
  show "st_mode (sb out') = S_IFLNK OR 0x1FF"
    using l d(2) by simp
  show "link_target out' = link_target out" if "PAX_SLINK_TARGET \<in> set_by_pax"
    using l d(3) that by simp
  show "link_target out' = Some (strndup (linkname hdr) 100)"
    if "PAX_SLINK_TARGET \<notin> set_by_pax" "NUL \<in> set (take 100 (linkname hdr))"
    using l d(3) that by (simp add: strndup_def takeWhile_append1)
  show "link_target out' =
          Some (take 100 (linkname hdr) @ takeWhile (\<lambda>c. c \<noteq> NUL) (after_linkname hdr))"
    if "PAX_SLINK_TARGET \<notin> set_by_pax" "NUL \<notin> set (take 100 (linkname hdr))"
    using l d(3) that by (simp add: takeWhile_no_NUL)
qed

lemma decode_header_example:
  "\<exists>out'. read_header_decode zero_env hard_link_header {} empty_decoded
            (check_version hard_link_header) = Inr out'"
  by (simp add: read_header_decode_def decode_header_def bind_err_def dh_name_def dh_size_def
     dh_uid_def dh_gid_def dh_devmajor_def dh_devminor_def dh_mtime_def dh_mode_def
     dh_link_target_def zero_env_def hard_link_header_def strndup_def strnlen_def
     strdup_def after_linkname_def NUL_def TAR_TYPE_LINK_def Let_def empty_decoded_def
     check_version_def)

lemma hard_link_example:
  "map_sum id (\<lambda>out. (st_mode (sb out), link_target out))
     (read_header_decode zero_env hard_link_header {} empty_decoded
        (check_version hard_link_header)) = Inr (0xA1FF, Some ''a'')"
proof -
  obtain out' where
    r: "read_header_decode zero_env hard_link_header {} empty_decoded
          (check_version hard_link_header) = Inr out'"
    using decode_header_example by blast
  have t: "typeflag hard_link_header = TAR_TYPE_LINK"
    by (simp add: hard_link_header_def)
  have n: "NUL \<in> set (take 100 (linkname hard_link_header))"
    by (simp add: hard_link_header_def)
  have "strndup (linkname hard_link_header) 100 = ''a''"
    by (simp add: hard_link_header_def strndup_def NUL_def)
  with hard_link_decoded(1,3)[OF t r] n r show ?thesis
    by (simp add: S_IFLNK_def)
qed

lemma long_link_decodes:
  "\<exists>out'. read_header_decode zero_env long_link_header {} empty_decoded
            (check_version long_link_header) = Inr out'"
  by (simp add: read_header_decode_def decode_header_def bind_err_def dh_name_def dh_size_def
     dh_uid_def dh_gid_def dh_devmajor_def dh_devminor_def dh_mtime_def dh_mode_def
     dh_link_target_def zero_env_def hard_link_header_def long_link_header_def strndup_def
     strnlen_def strdup_def after_linkname_def NUL_def TAR_TYPE_LINK_def Let_def
     empty_decoded_def check_version_def eval_nat_numeral)

text \<open>
  Claim C8 at the input where the code parts from it: a hard link header of a POSIX
  archive (\<open>check_version\<close> accepts it) whose link name takes all the 100 bytes of the
  field \<open>linkname\<close>, so that the field holds no NUL. The mode comes out as \<open>S_IFLNK | 0777\<close>,
  as the claim says. The target does not come out as the 100 bytes of the field:
  \<open>strdup(hdr->linkname)\<close> is given no length and reads on into the field \<open>magic\<close>, and
  \<open>read_header\<close> returns 0 with the target \<open>ttt...tustar\<close> of 105 bytes. The name of the
  entry, a few lines earlier, is copied with \<open>strndup(hdr->name, sizeof(hdr->name))\<close>,
  which stops at the end of the field.
\<close>

theorem hard_link_target_overruns_linkname:
  "check_version long_link_header = ETV_POSIX \<and>
   typeflag long_link_header = TAR_TYPE_LINK \<and>
   linkname long_link_header = replicate 100 (CHR ''t'') \<and>
   strndup (linkname long_link_header) 100 = replicate 100 (CHR ''t'') \<and>
   map_sum id (\<lambda>out. (st_mode (sb out), link_target out))
     (read_header_decode zero_env long_link_header {} empty_decoded
        (check_version long_link_header))
     = Inr (0xA1FF, Some (replicate 100 (CHR ''t'') @ ''ustar''))"
proof -
  obtain out' where
    r: "read_header_decode zero_env long_link_header {} empty_decoded
          (check_version long_link_header) = Inr out'"
    using long_link_decodes by blast
  have t: "typeflag long_link_header = TAR_TYPE_LINK"
    by (simp add: long_link_header_def hard_link_header_def)
  have l: "linkname long_link_header = replicate 100 (CHR ''t'')"
    by (simp add: long_link_header_def)
  have n: "NUL \<notin> set (take 100 (linkname long_link_header))"
    by (simp add: l NUL_def)
  have a: "takeWhile (\<lambda>c. c \<noteq> NUL) (after_linkname long_link_header) = ''ustar''"
    by (simp add: after_linkname_def long_link_header_def hard_link_header_def NUL_def)
  have v: "check_version long_link_header = ETV_POSIX"
    by (simp add: check_version_def long_link_header_def hard_link_header_def NUL_def
        eval_nat_numeral)
  have s: "strndup (linkname long_link_header) 100 = replicate 100 (CHR ''t'')"
    by (simp add: l strndup_def NUL_def)
  from hard_link_decoded(1,4)[OF t r] n a l
  have "st_mode (sb out') = 0xA1FF"
    "link_target out' = Some (replicate 100 (CHR ''t'') @ ''ustar'')"
    by (simp_all add: S_IFLNK_def)
  with r v t l s show ?thesis by simp
qed

section \<open>Properties of \<open>write_inode\<close>\<close>

lemma ucast_of_nat_64_32: "(ucast (of_nat n :: 64 word) :: 32 word) = of_nat n"
  by (rule bit_word_eqI) (auto simp add: bit_simps)

lemma sel_set [simp]:
  "inode_ref (set_inode_ref r n) = r"
  "inode_num (set_inode_ref r n) = inode_num n"
  "type (set_inode_ref r n) = type n"
  "mode (set_inode_ref r n) = mode n"
  "data (set_inode_ref r n) = data n"
  "name (set_inode_ref r n) = name n"
  "uid (set_inode_ref r n) = uid n"
  "gid (set_inode_ref r n) = gid n"
  "mtime (set_inode_ref r n) = mtime n"
  "xattr (set_inode_ref r n) = xattr n"
  "inode_ref (set_inode_num k n) = inode_ref n"
  "inode_num (set_inode_num k n) = k"
  "type (set_inode_num k n) = type n"
  "mode (set_inode_num k n) = mode n"
  "data (set_inode_num k n) = data n"
  "name (set_inode_num k n) = name n"
  "uid (set_inode_num k n) = uid n"
  "gid (set_inode_num k n) = gid n"
  "mtime (set_inode_num k n) = mtime n"
  "xattr (set_inode_num k n) = xattr n"
  "inode_ref (set_type t n) = inode_ref n"
  "inode_num (set_type t n) = inode_num n"
  "type (set_type t n) = t"
  "mode (set_type t n) = mode n"
  "data (set_type t n) = data n"
  "name (set_type t n) = name n"
  "uid (set_type t n) = uid n"
  "gid (set_type t n) = gid n"
  "mtime (set_type t n) = mtime n"
  "xattr (set_type t n) = xattr n"
  "inode_ref (set_data d n) = inode_ref n"
  "inode_num (set_data d n) = inode_num n"
  "type (set_data d n) = type n"
  "mode (set_data d n) = mode n"
  "data (set_data d n) = d"
  "name (set_data d n) = name n"
  "uid (set_data d n) = uid n"
  "gid (set_data d n) = gid n"
  "mtime (set_data d n) = mtime n"
  "xattr (set_data d n) = xattr n"
  by (simp_all add: set_inode_ref_def set_inode_num_def set_type_def set_data_def)

lemma im_append_keeps:
  "im_append s bs = Inr s' \<Longrightarrow>
   info s' = info s \<and> dm s' = dm s \<and> ilog s' = ilog s \<and> dlog s' = dlog s"
  by (auto simp: im_append_def split: sum.splits)

lemma write_file_blocks_keeps:
  "write_file_blocks s fi i n = Inr s' \<Longrightarrow>
   info s' = info s \<and> dm s' = dm s \<and> ilog s' = ilog s \<and> dlog s' = dlog s"
proof (induction s fi i n rule: write_file_blocks.induct)
  case (1 s fi i n)
  show ?case
  proof (cases "i < n")
    case False
    with "1.prems" show ?thesis by (simp add: write_file_blocks.simps)
  next
    case True
    with "1.prems" obtain s1 where
      a: "i < length (blocksizes fi)"
         "im_append s (le32 (htole32 (blocksizes fi ! i))) = Inr s1"
         "write_file_blocks s1 fi (Suc i) n = Inr s'"
      by (subst (asm) write_file_blocks.simps) (auto split: if_splits sum.splits)
    from "1.IH"[OF True a(1) a(2) a(3)] im_append_keeps[OF a(2)] show ?thesis by simp
  qed
qed

lemma out_file_blocks_keeps:
  "out_file_blocks s fi = Inr (s', bs) \<Longrightarrow>
   info s' = info s \<and> dm s' = dm s \<and> ilog s' = ilog s \<and> dlog s' = dlog s"
  by (auto simp: out_file_blocks_def Let_def split: if_splits sum.splits
      dest: write_file_blocks_keeps)

lemma wi_tail_log:
  assumes "wi_tail s p n b = Inr s'"
  shows "info s' = info s \<and> dm s' = dm s \<and> dlog s' = dlog s \<and>
         (\<exists>t. ilog s' = ilog s @ [(b, t)] \<and>
            ((type n = SQFS_INODE_FILE \<and> tail_nlink t = None) \<or>
             (type n \<noteq> SQFS_INODE_FILE \<and>
              (\<exists>nl. hard_link_count n = Inr nl \<and> tail_nlink t = Some (of_nat nl)))))"
  using assms unfolding wi_tail_def Let_def
  by (auto simp: bind_err_Inr log_inode_def htole32_def ucast_of_nat_64_32
      SQFS_INODE_DIR_def SQFS_INODE_FILE_def SQFS_INODE_SLINK_def SQFS_INODE_BDEV_def
      SQFS_INODE_CDEV_def SQFS_INODE_FIFO_def SQFS_INODE_SOCKET_def SQFS_INODE_EXT_DIR_def
      SQFS_INODE_EXT_FILE_def
      split: if_splits data_t.splits
      dest!: im_append_keeps out_file_blocks_keeps)

lemmas S_IF_defs = S_IFMT_def S_IFSOCK_def S_IFLNK_def S_IFREG_def S_IFBLK_def S_IFDIR_def
  S_IFCHR_def S_IFIFO_def

lemmas SQFS_INODE_defs = SQFS_INODE_DIR_def SQFS_INODE_FILE_def SQFS_INODE_SLINK_def
  SQFS_INODE_BDEV_def SQFS_INODE_CDEV_def SQFS_INODE_FIFO_def SQFS_INODE_SOCKET_def
  SQFS_INODE_EXT_DIR_def SQFS_INODE_EXT_FILE_def

lemma wi_type_keeps:
  "wi_type s n = Inr (n', s') \<Longrightarrow>
   inode_ref n' = inode_ref n \<and> inode_num n' = inode_num n \<and> mode n' = mode n \<and>
   name n' = name n \<and> uid n' = uid n \<and> gid n' = gid n \<and> mtime n' = mtime n \<and>
   xattr n' = xattr n \<and> info s' = info s \<and> im s' = im s \<and> ilog s' = ilog s"
  by (auto simp: wi_type_def Let_def split: if_splits data_t.splits sum.splits)

lemma S_IF_distinct [simp]:
  "(S_IFREG :: 16 word) \<noteq> S_IFSOCK" "(S_IFREG :: 16 word) \<noteq> S_IFIFO"
  "(S_IFREG :: 16 word) \<noteq> S_IFLNK" "(S_IFREG :: 16 word) \<noteq> S_IFBLK"
  "(S_IFREG :: 16 word) \<noteq> S_IFCHR" "(S_IFREG :: 16 word) \<noteq> S_IFDIR"
  "(S_IFDIR :: 16 word) \<noteq> S_IFSOCK" "(S_IFDIR :: 16 word) \<noteq> S_IFIFO"
  "(S_IFDIR :: 16 word) \<noteq> S_IFLNK" "(S_IFDIR :: 16 word) \<noteq> S_IFBLK"
  "(S_IFDIR :: 16 word) \<noteq> S_IFCHR" "(S_IFDIR :: 16 word) \<noteq> S_IFREG"
  by (simp_all add: S_IF_defs)

lemma SQFS_INODE_distinct [simp]:
  "SQFS_INODE_FILE \<noteq> SQFS_INODE_EXT_FILE" "SQFS_INODE_EXT_FILE \<noteq> SQFS_INODE_FILE"
  "SQFS_INODE_DIR \<noteq> SQFS_INODE_EXT_DIR" "SQFS_INODE_EXT_DIR \<noteq> SQFS_INODE_DIR"
  "SQFS_INODE_FILE \<noteq> SQFS_INODE_EXT_DIR" "SQFS_INODE_FILE \<noteq> SQFS_INODE_DIR"
  "SQFS_INODE_EXT_FILE \<noteq> SQFS_INODE_EXT_DIR" "SQFS_INODE_EXT_FILE \<noteq> SQFS_INODE_DIR"
  "SQFS_INODE_DIR \<noteq> SQFS_INODE_FILE" "SQFS_INODE_DIR \<noteq> SQFS_INODE_EXT_FILE"
  "SQFS_INODE_EXT_DIR \<noteq> SQFS_INODE_FILE" "SQFS_INODE_EXT_DIR \<noteq> SQFS_INODE_EXT_FILE"
  "SQFS_INODE_SOCKET \<notin> {SQFS_INODE_FILE, SQFS_INODE_EXT_FILE, SQFS_INODE_DIR, SQFS_INODE_EXT_DIR}"
  "SQFS_INODE_FIFO \<notin> {SQFS_INODE_FILE, SQFS_INODE_EXT_FILE, SQFS_INODE_DIR, SQFS_INODE_EXT_DIR}"
  "SQFS_INODE_SLINK \<notin> {SQFS_INODE_FILE, SQFS_INODE_EXT_FILE, SQFS_INODE_DIR, SQFS_INODE_EXT_DIR}"
  "SQFS_INODE_BDEV \<notin> {SQFS_INODE_FILE, SQFS_INODE_EXT_FILE, SQFS_INODE_DIR, SQFS_INODE_EXT_DIR}"
  "SQFS_INODE_CDEV \<notin> {SQFS_INODE_FILE, SQFS_INODE_EXT_FILE, SQFS_INODE_DIR, SQFS_INODE_EXT_DIR}"
  by (simp_all add: SQFS_INODE_defs)

lemma hard_link_count_not_dir:
  "\<not> S_ISDIR (mode n) \<Longrightarrow> hard_link_count n = Inr 1"
  by (simp add: hard_link_count.simps)


lemma wi_type_reg_eq:
  assumes "mode n AND S_IFMT = S_IFREG"
  shows "wi_type s n =
           (case data n of
              File fi \<Rightarrow>
                if startblock fi > 0xFFFFFFFF \<or> fi_size fi > 0xFFFFFFFF
                then Inr (set_type SQFS_INODE_EXT_FILE n, s)
                else Inr (set_type SQFS_INODE_FILE n, s)
            | _ \<Rightarrow> Inl Undefined)"
  by (simp add: wi_type_def assms S_ISDIR_def hard_link_count.simps split: data_t.splits)

lemma wi_type_dir_eq:
  assumes "mode n AND S_IFMT = S_IFDIR"
  shows "wi_type s n =
           (case data n of
              Dir di \<Rightarrow>
                (case write_dir (world s) (dm s) di of
                   Inl e \<Rightarrow> Inl e
                 | Inr (w, dm', di', groups) \<Rightarrow>
                    (let node1 = set_data (Dir di') (set_type SQFS_INODE_DIR n);
                         s1 = s\<lparr>world := w, dm := dm', dlog := dlog s @ [groups]\<rparr>
                     in if dir_start_block di' > 0xFFFFFFFF \<or> dir_size di' > 0xFFFF
                        then Inr (set_type SQFS_INODE_EXT_DIR node1, s1)
                        else Inr (node1, s1)))
            | _ \<Rightarrow> Inl Undefined)"
  by (simp add: wi_type_def assms)

lemma wi_type_reg:
  assumes "mode n AND S_IFMT = S_IFREG" and "wi_type s n = Inr (n', s')"
  shows "\<exists>fi. data n = File fi \<and> data n' = File fi \<and> s' = s \<and>
           hard_link_count n = Inr 1 \<and>
           type n' = (if startblock fi > 0xFFFFFFFF \<or> fi_size fi > 0xFFFFFFFF
                      then SQFS_INODE_EXT_FILE else SQFS_INODE_FILE)"
proof -
  have "\<not> S_ISDIR (mode n)" using assms(1) by (simp add: S_ISDIR_def)
  then have h: "hard_link_count n = Inr 1" by (rule hard_link_count_not_dir)
  from assms(2) obtain fi where fi: "data n = File fi"
    unfolding wi_type_reg_eq[OF assms(1)] by (cases "data n") simp_all
  show ?thesis
  proof (cases "startblock fi > 0xFFFFFFFF \<or> fi_size fi > 0xFFFFFFFF")
    case True
    with assms(2) fi have "n' = set_type SQFS_INODE_EXT_FILE n" "s' = s"
      unfolding wi_type_reg_eq[OF assms(1)] by simp_all
    with fi h True show ?thesis by simp
  next
    case False
    with assms(2) fi have "n' = set_type SQFS_INODE_FILE n" "s' = s"
      unfolding wi_type_reg_eq[OF assms(1)] by simp_all
    with fi h False show ?thesis by simp
  qed
qed

lemma wi_type_dir:
  assumes "mode n AND S_IFMT = S_IFDIR" and "wi_type s n = Inr (n', s')"
  shows "\<exists>di w dm' di' groups. data n = Dir di \<and>
           write_dir (world s) (dm s) di = Inr (w, dm', di', groups) \<and>
           data n' = Dir di' \<and> s' = s\<lparr>world := w, dm := dm', dlog := dlog s @ [groups]\<rparr> \<and>
           type n' = (if dir_start_block di' > 0xFFFFFFFF \<or> dir_size di' > 0xFFFF
                      then SQFS_INODE_EXT_DIR else SQFS_INODE_DIR)"
proof -
  from assms(2) obtain di where di: "data n = Dir di"
    unfolding wi_type_dir_eq[OF assms(1)] by (auto split: data_t.splits)
  with assms(2) obtain w dm' di' groups where
    wd: "write_dir (world s) (dm s) di = Inr (w, dm', di', groups)"
    unfolding wi_type_dir_eq[OF assms(1)] by (auto split: sum.splits)
  from assms(2) di wd have
    "data n' = Dir di'" "s' = s\<lparr>world := w, dm := dm', dlog := dlog s @ [groups]\<rparr>"
    "type n' = (if dir_start_block di' > 0xFFFFFFFF \<or> dir_size di' > 0xFFFF
                then SQFS_INODE_EXT_DIR else SQFS_INODE_DIR)"
    unfolding wi_type_dir_eq[OF assms(1)] by (auto simp: Let_def split: if_splits)
  with di wd show ?thesis by blast
qed

lemma wi_type_other:
  assumes "mode n AND S_IFMT \<noteq> S_IFREG" and "mode n AND S_IFMT \<noteq> S_IFDIR"
    and "wi_type s n = Inr (n', s')"
  shows "type n' \<in> {SQFS_INODE_SOCKET, SQFS_INODE_FIFO, SQFS_INODE_SLINK, SQFS_INODE_BDEV,
           SQFS_INODE_CDEV} \<and> data n' = data n \<and> s' = s"
  using assms
  by (auto simp: wi_type_def Let_def split: if_splits)

lemma write_inode_steps:
  assumes "write_inode s p node = Inr (node', s')"
  shows "\<exists>tbl1 u tbl2 g s2 s3.
           id_table_id_to_index (idtbl (info s)) (uid node) = Inr (tbl1, u) \<and>
           id_table_id_to_index tbl1 (gid node) = Inr (tbl2, g) \<and>
           wi_type (wi_ser1 s tbl2) (wi_node1 s node) = Inr (node', s2) \<and>
           im_append s2 (enc_inode (wi_base s2 node' u g)) = Inr s3 \<and>
           wi_tail s3 p node' (wi_base s2 node' u g) = Inr s'"
proof -
  from assms obtain tbl1 u where
    a: "id_table_id_to_index (idtbl (info s)) (uid node) = Inr (tbl1, u)"
    unfolding write_inode_def bind_err_Inr by auto
  with assms obtain tbl2 g where
    b: "id_table_id_to_index tbl1 (gid node) = Inr (tbl2, g)"
    unfolding write_inode_def by (auto simp: bind_err_Inr)
  from assms a b obtain n2 s2 where
    c: "wi_type (wi_ser1 s tbl2) (wi_node1 s node) = Inr (n2, s2)"
    unfolding write_inode_def wi_ser1_def wi_node1_def
    by (auto simp: bind_err_Inr Let_def)
  from assms a b c obtain s3 where
    d: "im_append s2 (enc_inode (wi_base s2 n2 u g)) = Inr s3"
    unfolding write_inode_def wi_ser1_def wi_node1_def wi_base_def
    by (auto simp: bind_err_Inr Let_def)
  from assms a b c d have
    e: "wi_tail s3 p n2 (wi_base s2 n2 u g) = Inr s'" "n2 = node'"
    unfolding write_inode_def wi_ser1_def wi_node1_def wi_base_def
    by (auto simp: bind_err_Inr Let_def)
  from a b c d e show ?thesis by blast
qed

lemma htole_id [simp]:
  "htole16 (x :: 16 word) = x" "htole32 (y :: 32 word) = y" "htole64 (z :: 64 word) = z"
  by (simp_all add: htole16_def htole32_def htole64_def)

lemma ucast_of_int_32_16: "(ucast (word_of_int k :: 32 word) :: 16 word) = word_of_int k"
  by (rule bit_word_eqI) (auto simp add: bit_simps)

lemma write_dir_children:
  "write_dir w m di = Inr (w', m', di', gs) \<Longrightarrow>
   children di' = children di \<and> dir_start_block di' = of_nat (block_offset m) \<and>
   dir_block_offset di' = of_nat (offset m)"
  by (auto simp: write_dir_def split: sum.splits)

lemma write_inode_facts:
  assumes "write_inode s p node = Inr (node', s')"
  shows "inode_ref node' = push_bit 16 (of_nat (block_offset (im s))) OR of_nat (offset (im s))"
    and "inode_num node' = inode_counter (info s)"
    and "mode node' = mode node" and "name node' = name node"
    and "uid node' = uid node" and "gid node' = gid node"
    and "mtime node' = mtime node" and "xattr node' = xattr node"
    and "inode_counter (info s') = inode_counter (info s) + 1"
    and "super (info s') =
           (super (info s))\<lparr>inode_count := inode_count (super (info s)) + 1\<rparr>"
    and "opt (info s') = opt (info s)" and "cmp (info s') = cmp (info s)"
    and "fs_root (info s') = fs_root (info s)"
proof -
  from write_inode_steps[OF assms] obtain tbl1 u tbl2 g s2 s3 where
    st: "wi_type (wi_ser1 s tbl2) (wi_node1 s node) = Inr (node', s2)"
      "im_append s2 (enc_inode (wi_base s2 node' u g)) = Inr s3"
      "wi_tail s3 p node' (wi_base s2 node' u g) = Inr s'"
    by blast
  note k = wi_type_keeps[OF st(1)] im_append_keeps[OF st(2)] wi_tail_log[OF st(3)]
  show "inode_ref node' = push_bit 16 (of_nat (block_offset (im s))) OR of_nat (offset (im s))"
    using k by (simp add: wi_node1_def)
  show "inode_num node' = inode_counter (info s)"
    using k by (simp add: wi_node1_def)
  show "mode node' = mode node" "name node' = name node" "uid node' = uid node"
    "gid node' = gid node" "mtime node' = mtime node" "xattr node' = xattr node"
    using k by (simp_all add: wi_node1_def)
  show "inode_counter (info s') = inode_counter (info s) + 1"
    "super (info s') = (super (info s))\<lparr>inode_count := inode_count (super (info s)) + 1\<rparr>"
    "opt (info s') = opt (info s)" "cmp (info s') = cmp (info s)"
    "fs_root (info s') = fs_root (info s)"
    using k by (simp_all add: wi_ser1_def)
qed

lemma write_inode_log:
  assumes "write_inode s p node = Inr (node', s')"
  shows "\<exists>b t. ilog s' = ilog s @ [(b, t)] \<and>
           mod_time b = def_mtime (opt (info s)) \<and>
           inode_number b = inode_counter (info s) \<and>
           base_type b = word_of_int (type node') \<and>
           base_mode b = mode node \<and>
           ((type node' = SQFS_INODE_FILE \<and> tail_nlink t = None) \<or>
            (type node' \<noteq> SQFS_INODE_FILE \<and>
             (\<exists>nl. hard_link_count node' = Inr nl \<and> tail_nlink t = Some (of_nat nl))))"
proof -
  from write_inode_steps[OF assms] obtain tbl1 u tbl2 g s2 s3 where
    st: "wi_type (wi_ser1 s tbl2) (wi_node1 s node) = Inr (node', s2)"
      "im_append s2 (enc_inode (wi_base s2 node' u g)) = Inr s3"
      "wi_tail s3 p node' (wi_base s2 node' u g) = Inr s'"
    by blast
  note k = wi_type_keeps[OF st(1)] im_append_keeps[OF st(2)]
  from wi_tail_log[OF st(3)] obtain t where
    t: "ilog s' = ilog s3 @ [(wi_base s2 node' u g, t)]"
      "(type node' = SQFS_INODE_FILE \<and> tail_nlink t = None) \<or>
       (type node' \<noteq> SQFS_INODE_FILE \<and>
        (\<exists>nl. hard_link_count node' = Inr nl \<and> tail_nlink t = Some (of_nat nl)))"
    by blast
  have "ilog s' = ilog s @ [(wi_base s2 node' u g, t)]"
    using t(1) k by (simp add: wi_ser1_def)
  moreover have "mod_time (wi_base s2 node' u g) = def_mtime (opt (info s))"
    "inode_number (wi_base s2 node' u g) = inode_counter (info s)"
    "base_type (wi_base s2 node' u g) = word_of_int (type node')"
    "base_mode (wi_base s2 node' u g) = mode node"
    using k by (simp_all add: wi_base_def wi_ser1_def wi_node1_def htole16_def ucast_of_int_32_16)
  ultimately show ?thesis using t(2) by blast
qed


lemma sel_set_mtime [simp]:
  "inode_ref (set_mtime t n) = inode_ref n"
  "inode_num (set_mtime t n) = inode_num n"
  "type (set_mtime t n) = type n"
  "mode (set_mtime t n) = mode n"
  "data (set_mtime t n) = data n"
  "name (set_mtime t n) = name n"
  "uid (set_mtime t n) = uid n"
  "gid (set_mtime t n) = gid n"
  "mtime (set_mtime t n) = t"
  "xattr (set_mtime t n) = xattr n"
  by (simp_all add: set_mtime_def)

lemma set_mtime_commute:
  "set_type ty (set_mtime t n) = set_mtime t (set_type ty n)"
  "set_data d (set_mtime t n) = set_mtime t (set_data d n)"
  "set_inode_ref r (set_mtime t n) = set_mtime t (set_inode_ref r n)"
  "set_inode_num k (set_mtime t n) = set_mtime t (set_inode_num k n)"
  by (simp_all add: set_mtime_def set_type_def set_data_def set_inode_ref_def set_inode_num_def)

lemma hard_link_count_set_mtime [simp]:
  "hard_link_count (set_mtime t n) = hard_link_count n"
  by (simp add: hard_link_count.simps)

lemma wi_type_set_mtime:
  assumes "wi_type s n = Inr (n', s')"
  shows "wi_type s (set_mtime t n) = Inr (set_mtime t n', s')"
proof -
  consider (reg) "mode n AND S_IFMT = S_IFREG" | (dir) "mode n AND S_IFMT = S_IFDIR"
    | (other) "mode n AND S_IFMT \<noteq> S_IFREG" "mode n AND S_IFMT \<noteq> S_IFDIR"
    by blast
  then show ?thesis
  proof cases
    case reg
    then have r': "mode (set_mtime t n) AND S_IFMT = S_IFREG" by simp
    from assms show ?thesis
      unfolding wi_type_reg_eq[OF reg] wi_type_reg_eq[OF r']
      by (cases "data n") (auto simp: set_mtime_commute split: if_splits)
  next
    case dir
    then have d': "mode (set_mtime t n) AND S_IFMT = S_IFDIR" by simp
    from assms show ?thesis
      unfolding wi_type_dir_eq[OF dir] wi_type_dir_eq[OF d']
      by (cases "data n")
         (auto simp: set_mtime_commute Let_def split: if_splits sum.splits)
  next
    case other
    with assms show ?thesis
      unfolding wi_type_def Let_def
      by (auto simp: set_mtime_commute split: if_splits)
  qed
qed

lemma wi_tail_set_mtime:
  "wi_tail s p (set_mtime t n) b = wi_tail s p n b"
  unfolding wi_tail_def Let_def sel_set_mtime hard_link_count_set_mtime by (rule refl)

lemma write_inode_set_mtime:
  assumes "write_inode s p node = Inr (node', s')"
  shows "write_inode s p (set_mtime t node) = Inr (set_mtime t node', s')"
proof -
  from write_inode_steps[OF assms] obtain tbl1 u tbl2 g s2 s3 where
    st: "id_table_id_to_index (idtbl (info s)) (uid node) = Inr (tbl1, u)"
      "id_table_id_to_index tbl1 (gid node) = Inr (tbl2, g)"
      "wi_type (wi_ser1 s tbl2) (wi_node1 s node) = Inr (node', s2)"
      "im_append s2 (enc_inode (wi_base s2 node' u g)) = Inr s3"
      "wi_tail s3 p node' (wi_base s2 node' u g) = Inr s'"
    by blast
  have n1: "wi_node1 s (set_mtime t node) = set_mtime t (wi_node1 s node)"
    by (simp add: wi_node1_def set_mtime_commute)
  have b: "wi_base s2 (set_mtime t node') u g = wi_base s2 node' u g"
    by (simp add: wi_base_def)
  from wi_type_set_mtime[OF st(3)]
  have ty: "wi_type (wi_ser1 s tbl2) (wi_node1 s (set_mtime t node)) = Inr (set_mtime t node', s2)"
    by (simp add: n1)
  show ?thesis
    unfolding write_inode_def
    using st(1,2,4,5) ty
    by (simp add: bind_err_def Let_def wi_tail_set_mtime wi_base_def wi_node1_def wi_ser1_def)
qed


lemma length_le [simp]:
  "length (le16 a) = 2" "length (le32 b) = 4" "length (le64 c) = 8"
  by (simp_all add: le16_def le32_def le64_def le_bytes_def)

lemma length_enc [simp]:
  "length (enc_inode x1) = 16" "length (enc_ipc x2) = 4" "length (enc_slink x3) = 8"
  "length (enc_dev x4) = 8" "length (enc_file x5) = 16" "length (enc_file_ext x6) = 40"
  "length (enc_dir x7) = 16" "length (enc_dir_ext x8) = 24"
  "length (enc_dir_header x9) = 12" "length (enc_dir_entry x10) = 8"
  by (simp_all add: enc_inode_def enc_ipc_def enc_slink_def enc_dev_def enc_file_def
      enc_file_ext_def enc_dir_def enc_dir_ext_def enc_dir_header_def enc_dir_entry_def)

lemma meta_writer_append_Nil [simp]: "meta_writer_append w m [] = Inr (w, m)"
  by (simp add: meta_writer_append.simps)

lemma meta_writer_append_small:
  assumes "offset m + length bs < SQFS_META_BLOCK_SIZE"
  shows "meta_writer_append w m bs =
           Inr (w, m\<lparr>mw_data := mw_data m @ bs, offset := offset m + length bs\<rparr>)"
proof (cases "bs = []")
  case True
  then show ?thesis by simp
next
  case False
  with assms show ?thesis
    by (subst meta_writer_append.simps) (simp add: Let_def min_def)
qed

lemma ex_file_inode:
  "\<exists>n' s'. write_inode (ex_ser 131072 r) None (file_node ''a'' 10 [] xa) = Inr (n', s')"
  by (simp add: write_inode_def bind_err_def id_table_id_to_index_def ex_ser_def ex_info_def
      file_node_def Let_def wi_type_def S_IF_defs hard_link_count.simps S_ISDIR_def
      im_append_def meta_writer_append_small meta_writer_create_def SQFS_META_BLOCK_SIZE_def
      wi_tail_def SQFS_INODE_defs out_file_blocks_def write_file_blocks.simps log_inode_def)


lemmas eval_defs = write_inode_def bind_err_def id_table_id_to_index_def ex_ser_def ex_info_def
  ex_world_def file_node_def dir_node_def slink_node_def Let_def wi_type_def S_IF_defs
  hard_link_count.simps S_ISDIR_def im_append_def meta_writer_append_small
  meta_writer_create_def SQFS_META_BLOCK_SIZE_def wi_tail_def SQFS_INODE_defs
  out_file_blocks_def write_file_blocks.simps log_inode_def write_dir_def
  write_dir_loop.simps SQFS_MAX_DIR_ENT_def dir_header_def dir_entry_def str_bytes_def

lemma ex_file_narrow:
  "\<exists>n' s'. write_inode (ex_ser 0x80000000 r) None (file_node ''a'' 0xFFFFFFFF [5] None)
            = Inr (n', s')"
  by (simp add: eval_defs)

lemma ex_file_ext:
  "\<exists>n' s'. write_inode (ex_ser 0x80000000 r) None (file_node ''a'' 0x100000000 [5, 6] None)
            = Inr (n', s')"
  by (simp add: eval_defs)

lemma ex_dir_inode:
  "\<exists>n' s'. write_inode (ex_ser 131072 r) None (dir_node ''d'' [slink_node ''l'' ''a''])
            = Inr (n', s')"
  by (simp add: eval_defs)

lemma ex_slink_inode:
  "\<exists>n' s'. write_inode (ex_ser 131072 r) None (slink_node ''l'' ''a'') = Inr (n', s')"
  by (simp add: eval_defs)

text \<open>
  Claim C2, as the code has it. The inode of a regular file gets the extended form
  exactly when its size or its start block exceeds \<open>2^32 - 1\<close> or its link count exceeds
  1, and the basic form otherwise; a file of size \<open>2^32 - 1\<close> (with a start block that
  fits) gets the basic form, a file of size \<open>2^32\<close> the extended one. The inode of a
  directory gets the extended form exactly when the size of its listing exceeds
  \<open>2^16 - 1\<close> or the start block of the listing exceeds \<open>2^32 - 1\<close>. No other inode gets
  an extended form. Whether the node has an xattr-id plays no part.
\<close>

theorem inode_form_choice:
  assumes "write_inode s p node = Inr (node', s')"
  shows
    "(mode node AND S_IFMT = S_IFREG \<longrightarrow>
        (\<exists>fi. data node = File fi \<and>
           (type node' = SQFS_INODE_EXT_FILE \<longleftrightarrow>
              fi_size fi > 0xFFFFFFFF \<or> startblock fi > 0xFFFFFFFF \<or>
              (\<exists>nl. hard_link_count node = Inr nl \<and> nl > 1)) \<and>
           (type node' \<noteq> SQFS_INODE_EXT_FILE \<longrightarrow> type node' = SQFS_INODE_FILE) \<and>
           (startblock fi \<le> 0xFFFFFFFF \<and> fi_size fi = 0xFFFFFFFF \<longrightarrow>
              type node' = SQFS_INODE_FILE) \<and>
           (fi_size fi = 0x100000000 \<longrightarrow> type node' = SQFS_INODE_EXT_FILE))) \<and>
     (mode node AND S_IFMT = S_IFDIR \<longrightarrow>
        (\<exists>di. data node' = Dir di \<and>
           (type node' = SQFS_INODE_EXT_DIR \<longleftrightarrow>
              dir_size di > 0xFFFF \<or> dir_start_block di > 0xFFFFFFFF) \<and>
           (type node' \<noteq> SQFS_INODE_EXT_DIR \<longrightarrow> type node' = SQFS_INODE_DIR))) \<and>
     (mode node AND S_IFMT \<noteq> S_IFREG \<and> mode node AND S_IFMT \<noteq> S_IFDIR \<longrightarrow>
        type node' \<noteq> SQFS_INODE_EXT_FILE \<and> type node' \<noteq> SQFS_INODE_EXT_DIR)"
proof -
  from write_inode_steps[OF assms] obtain tbl2 s2 where
    ty: "wi_type (wi_ser1 s tbl2) (wi_node1 s node) = Inr (node', s2)"
    by blast
  have m: "mode (wi_node1 s node) = mode node" "data (wi_node1 s node) = data node"
    by (simp_all add: wi_node1_def)
  have h: "hard_link_count (wi_node1 s node) = hard_link_count node"
    by (simp add: hard_link_count.simps m)
  show ?thesis
  proof (intro conjI impI)
    assume r: "mode node AND S_IFMT = S_IFREG"
    from wi_type_reg[OF _ ty] r m h obtain fi where
      fi: "data node = File fi" "hard_link_count node = Inr 1"
        "type node' = (if startblock fi > 0xFFFFFFFF \<or> fi_size fi > 0xFFFFFFFF
                       then SQFS_INODE_EXT_FILE else SQFS_INODE_FILE)"
      by auto
    have big: "(0xFFFFFFFF :: 64 word) < 0x100000000" by simp
    show "\<exists>fi. data node = File fi \<and>
           (type node' = SQFS_INODE_EXT_FILE \<longleftrightarrow>
              fi_size fi > 0xFFFFFFFF \<or> startblock fi > 0xFFFFFFFF \<or>
              (\<exists>nl. hard_link_count node = Inr nl \<and> nl > 1)) \<and>
           (type node' \<noteq> SQFS_INODE_EXT_FILE \<longrightarrow> type node' = SQFS_INODE_FILE) \<and>
           (startblock fi \<le> 0xFFFFFFFF \<and> fi_size fi = 0xFFFFFFFF \<longrightarrow>
              type node' = SQFS_INODE_FILE) \<and>
           (fi_size fi = 0x100000000 \<longrightarrow> type node' = SQFS_INODE_EXT_FILE)"
      using fi big by (intro exI[of _ fi]) (auto simp: not_less)
  next
    assume d: "mode node AND S_IFMT = S_IFDIR"
    from wi_type_dir[OF _ ty] d m obtain di' where
      "data node' = Dir di'"
      "type node' = (if dir_start_block di' > 0xFFFFFFFF \<or> dir_size di' > 0xFFFF
                     then SQFS_INODE_EXT_DIR else SQFS_INODE_DIR)"
      by auto
    then show "\<exists>di. data node' = Dir di \<and>
           (type node' = SQFS_INODE_EXT_DIR \<longleftrightarrow>
              dir_size di > 0xFFFF \<or> dir_start_block di > 0xFFFFFFFF) \<and>
           (type node' \<noteq> SQFS_INODE_EXT_DIR \<longrightarrow> type node' = SQFS_INODE_DIR)"
      by (intro exI[of _ di']) auto
  next
    assume o: "mode node AND S_IFMT \<noteq> S_IFREG \<and> mode node AND S_IFMT \<noteq> S_IFDIR"
    with wi_type_other[OF _ _ ty] m
    have t: "type node' \<in> {SQFS_INODE_SOCKET, SQFS_INODE_FIFO, SQFS_INODE_SLINK,
               SQFS_INODE_BDEV, SQFS_INODE_CDEV}"
      by simp
    from t show "type node' \<noteq> SQFS_INODE_EXT_FILE"
      by (auto simp: SQFS_INODE_defs)
    from t show "type node' \<noteq> SQFS_INODE_EXT_DIR"
      by (auto simp: SQFS_INODE_defs)
  qed
qed


lemma mode_ex [simp]:
  "mode (file_node nm sz bs xa) AND S_IFMT = S_IFREG"
  "mode (dir_node nm cs) AND S_IFMT = S_IFDIR"
  "mode (slink_node nm tgt) AND S_IFMT = S_IFLNK"
  by (simp_all add: file_node_def dir_node_def slink_node_def S_IF_defs)

lemma data_ex [simp]:
  "data (file_node nm sz bs xa) =
     File \<lparr>fi_size = sz, startblock = 96, fragment = 0xFFFFFFFF, fragment_offset = 0,
            blocksizes = bs\<rparr>"
  "data (dir_node nm cs) = Dir (Dir_info cs 0 0 0)"
  "data (slink_node nm tgt) = Slink_target tgt"
  "xattr (file_node nm sz bs xa) = xa"
  "mtime (file_node nm sz bs xa) = 0x12345678"
  by (simp_all add: file_node_def dir_node_def slink_node_def)

theorem inode_form_choice_witness:
  "\<exists>n1 s1 n2 s2 n3 s3 di.
     write_inode (ex_ser 0x80000000 (dir_node [] [])) None
       (file_node ''a'' 0xFFFFFFFF [5] None) = Inr (n1, s1) \<and>
     type n1 = SQFS_INODE_FILE \<and>
     write_inode (ex_ser 0x80000000 (dir_node [] [])) None
       (file_node ''a'' 0x100000000 [5, 6] None) = Inr (n2, s2) \<and>
     type n2 = SQFS_INODE_EXT_FILE \<and>
     write_inode (ex_ser 131072 (dir_node [] [])) None
       (dir_node ''d'' [slink_node ''l'' ''a'']) = Inr (n3, s3) \<and>
     data n3 = Dir di \<and>
     (type n3 = SQFS_INODE_EXT_DIR \<longleftrightarrow> dir_size di > 0xFFFF \<or> dir_start_block di > 0xFFFFFFFF)"
proof -
  obtain n1 s1 where
    a: "write_inode (ex_ser 0x80000000 (dir_node [] [])) None
          (file_node ''a'' 0xFFFFFFFF [5] None) = Inr (n1, s1)"
    using ex_file_narrow by blast
  obtain n2 s2 where
    b: "write_inode (ex_ser 0x80000000 (dir_node [] [])) None
          (file_node ''a'' 0x100000000 [5, 6] None) = Inr (n2, s2)"
    using ex_file_ext by blast
  obtain n3 s3 where
    c: "write_inode (ex_ser 131072 (dir_node [] [])) None
          (dir_node ''d'' [slink_node ''l'' ''a'']) = Inr (n3, s3)"
    using ex_dir_inode by blast
  from inode_form_choice[OF a] have "type n1 = SQFS_INODE_FILE"
    by auto
  moreover from inode_form_choice[OF b] have "type n2 = SQFS_INODE_EXT_FILE"
    by auto
  moreover from inode_form_choice[OF c] obtain di where
    "data n3 = Dir di"
    "type n3 = SQFS_INODE_EXT_DIR \<longleftrightarrow> dir_size di > 0xFFFF \<or> dir_start_block di > 0xFFFFFFFF"
    by auto
  ultimately show ?thesis using a b c by blast
qed

lemma ex_file_xattr_type:
  "map_sum id (\<lambda>(n, s). type n)
     (write_inode (ex_ser 131072 (dir_node [] [])) None (file_node ''a'' 10 [] (Some 0)))
   = Inr SQFS_INODE_FILE"
  by (simp add: eval_defs)

text \<open>
  Claim C2, as the spec words it, also promotes a node that has an xattr-id. A file of 10
  bytes with the xattr-id 0 gets the basic form.
\<close>

theorem xattr_file_gets_narrow_form:
  "xattr (file_node ''a'' 10 [] (Some 0)) = Some 0 \<and>
   map_sum id (\<lambda>(n, s). type n)
     (write_inode (ex_ser 131072 (dir_node [] [])) None (file_node ''a'' 10 [] (Some 0)))
   = Inr SQFS_INODE_FILE \<and>
   SQFS_INODE_FILE \<noteq> SQFS_INODE_EXT_FILE"
  using ex_file_xattr_type by simp

subsection \<open>The bytes that reach the inode writer\<close>

text \<open>
  Appending \<open>a @ b\<close> to a meta-writer is appending \<open>a\<close> and then \<open>b\<close>; the block offset of
  a writer never decreases, and a writer that is still at the same block offset has
  written nothing to its file and holds the appended bytes at the end of its block.
\<close>

lemma meta_writer_flush_block_offset:
  "meta_writer_flush w m = Inr (w', m') \<Longrightarrow> offset m \<noteq> 0 \<Longrightarrow>
   block_offset m < block_offset m'"
  by (auto simp: meta_writer_flush_def meta_block_def
      split: if_splits option.splits prod.splits cmp_result.splits)

lemma meta_writer_append_unfold:
  assumes "bs \<noteq> []"
  shows "meta_writer_append w m bs =
     (if SQFS_META_BLOCK_SIZE
           \<le> offset m + min (SQFS_META_BLOCK_SIZE - offset m) (length bs)
      then (case meta_writer_flush w
                   (m\<lparr>mw_data := mw_data m
                          @ take (min (SQFS_META_BLOCK_SIZE - offset m) (length bs)) bs,
                      offset := offset m
                          + min (SQFS_META_BLOCK_SIZE - offset m) (length bs)\<rparr>) of
              Inl e \<Rightarrow> Inl e
            | Inr (w2, m2) \<Rightarrow>
                meta_writer_append w2 m2
                  (drop (min (SQFS_META_BLOCK_SIZE - offset m) (length bs)) bs))
      else meta_writer_append w
             (m\<lparr>mw_data := mw_data m
                    @ take (min (SQFS_META_BLOCK_SIZE - offset m) (length bs)) bs,
                offset := offset m + min (SQFS_META_BLOCK_SIZE - offset m) (length bs)\<rparr>)
             (drop (min (SQFS_META_BLOCK_SIZE - offset m) (length bs)) bs))"
  using assms by (subst meta_writer_append.simps) (simp add: Let_def)

lemma meta_writer_append_step_full:
  assumes "bs \<noteq> []" and "SQFS_META_BLOCK_SIZE - offset m \<le> length bs"
  shows "meta_writer_append w m (bs @ b) =
           (case meta_writer_flush w
                   (m\<lparr>mw_data := mw_data m @ take (SQFS_META_BLOCK_SIZE - offset m) bs,
                      offset := offset m + (SQFS_META_BLOCK_SIZE - offset m)\<rparr>) of
              Inl e \<Rightarrow> Inl e
            | Inr (w2, m2) \<Rightarrow>
                meta_writer_append w2 m2 (drop (SQFS_META_BLOCK_SIZE - offset m) bs @ b))"
proof -
  have ne: "bs @ b \<noteq> []" using assms(1) by simp
  have mn: "min (SQFS_META_BLOCK_SIZE - offset m) (length (bs @ b))
              = SQFS_META_BLOCK_SIZE - offset m"
    using assms(2) by simp
  have full: "SQFS_META_BLOCK_SIZE \<le> offset m + (SQFS_META_BLOCK_SIZE - offset m)"
    by arith
  have tk: "take (SQFS_META_BLOCK_SIZE - offset m) (bs @ b)
              = take (SQFS_META_BLOCK_SIZE - offset m) bs"
    "drop (SQFS_META_BLOCK_SIZE - offset m) (bs @ b)
              = drop (SQFS_META_BLOCK_SIZE - offset m) bs @ b"
    using assms(2) by simp_all
  show ?thesis
    unfolding meta_writer_append_unfold[OF ne] mn tk using full by simp
qed

lemma meta_writer_append_step_room:
  assumes "bs \<noteq> []" and "length bs < SQFS_META_BLOCK_SIZE - offset m"
  shows "meta_writer_append w m bs =
           Inr (w, m\<lparr>mw_data := mw_data m @ bs, offset := offset m + length bs\<rparr>)"
proof -
  have mn: "min (SQFS_META_BLOCK_SIZE - offset m) (length bs) = length bs"
    using assms(2) by simp
  have nf: "\<not> SQFS_META_BLOCK_SIZE \<le> offset m + length bs"
    using assms(2) by arith
  show ?thesis
    unfolding meta_writer_append_unfold[OF assms(1)] mn using nf by simp
qed

lemma meta_writer_append_append:
  "meta_writer_append w m (a @ b) =
     (case meta_writer_append w m a of
        Inl e \<Rightarrow> Inl e
      | Inr (w1, m1) \<Rightarrow> meta_writer_append w1 m1 b)"
proof (induction w m a rule: meta_writer_append.induct)
  case (1 w m bs)
  define room where "room = SQFS_META_BLOCK_SIZE - offset m"
  show ?case
  proof (cases "bs = []")
    case True
    then show ?thesis by simp
  next
    case False
    show ?thesis
    proof (cases "room \<le> length bs")
      case True
      define m1 where
        "m1 = m\<lparr>mw_data := mw_data m @ take room bs, offset := offset m + room\<rparr>"
      have full: "SQFS_META_BLOCK_SIZE \<le> offset m1"
        unfolding m1_def room_def by simp
      have mn: "room = min (SQFS_META_BLOCK_SIZE - offset m) (length bs)"
        using True by (simp add: room_def)
      from True have le: "SQFS_META_BLOCK_SIZE - offset m \<le> length bs"
        by (simp add: room_def)
      have l: "meta_writer_append w m bs =
                 (case meta_writer_flush w m1 of Inl e \<Rightarrow> Inl e
                  | Inr (w2, m2) \<Rightarrow> meta_writer_append w2 m2 (drop room bs))"
        using meta_writer_append_step_full[OF False le, of w "[]"]
        unfolding room_def m1_def append_Nil2 .
      have r: "meta_writer_append w m (bs @ b) =
                 (case meta_writer_flush w m1 of Inl e \<Rightarrow> Inl e
                  | Inr (w2, m2) \<Rightarrow> meta_writer_append w2 m2 (drop room bs @ b))"
        using meta_writer_append_step_full[OF False le, of w b]
        unfolding room_def m1_def .
      show ?thesis
      proof (cases "meta_writer_flush w m1")
        case (Inl e)
        with l r show ?thesis by simp
      next
        case (Inr p)
        obtain w2 m2 where p: "p = (w2, m2)" by (cases p)
        have "meta_writer_append w2 m2 (drop room bs @ b) =
                (case meta_writer_append w2 m2 (drop room bs) of
                   Inl e \<Rightarrow> Inl e
                 | Inr (w1, m1) \<Rightarrow> meta_writer_append w1 m1 b)"
          by (rule "1.IH"(1)[OF False mn m1_def full Inr p[symmetric]])
        with l r Inr p show ?thesis by simp
      qed
    next
      case False
      then have lt: "length bs < SQFS_META_BLOCK_SIZE - offset m"
        by (simp add: room_def)
      define m1 where "m1 = m\<lparr>mw_data := mw_data m @ bs, offset := offset m + length bs\<rparr>"
      have l: "meta_writer_append w m bs = Inr (w, m1)"
        using meta_writer_append_step_room[OF \<open>bs \<noteq> []\<close> lt] by (simp add: m1_def)
      have "meta_writer_append w m (bs @ b) = meta_writer_append w m1 b"
      proof (cases "b = []")
        case True
        with l show ?thesis by simp
      next
        case bne: False
        have ne: "bs @ b \<noteq> []" using bne by simp
        define k where "k = min (SQFS_META_BLOCK_SIZE - offset m1) (length b)"
        define mL where
          "mL = m\<lparr>mw_data := mw_data m @ take (length bs + k) (bs @ b),
                  offset := offset m + (length bs + k)\<rparr>"
        define mR where
          "mR = m1\<lparr>mw_data := mw_data m1 @ take k b, offset := offset m1 + k\<rparr>"
        have d: "min (SQFS_META_BLOCK_SIZE - offset m) (length (bs @ b)) = length bs + k"
          using lt by (auto simp: k_def m1_def min_def)
        have L: "meta_writer_append w m (bs @ b) =
                   (if SQFS_META_BLOCK_SIZE \<le> offset m + (length bs + k)
                    then (case meta_writer_flush w mL of
                            Inl e \<Rightarrow> Inl e
                          | Inr (w2, m2) \<Rightarrow>
                              meta_writer_append w2 m2 (drop (length bs + k) (bs @ b)))
                    else meta_writer_append w mL (drop (length bs + k) (bs @ b)))"
          unfolding meta_writer_append_unfold[OF ne] d mL_def by (rule refl)
        have R: "meta_writer_append w m1 b =
                   (if SQFS_META_BLOCK_SIZE \<le> offset m1 + k
                    then (case meta_writer_flush w mR of
                            Inl e \<Rightarrow> Inl e
                          | Inr (w2, m2) \<Rightarrow> meta_writer_append w2 m2 (drop k b))
                    else meta_writer_append w mR (drop k b))"
          unfolding meta_writer_append_unfold[OF bne] k_def mR_def by (rule refl)
        have e: "mL = mR" "drop (length bs + k) (bs @ b) = drop k b"
          "offset m + (length bs + k) = offset m1 + k"
          by (simp_all add: mL_def mR_def m1_def add.assoc)
        show ?thesis
          unfolding L R e by (rule refl)
      qed
      with l show ?thesis by simp
    qed
  qed
qed

lemma meta_writer_append_same_block:
  "meta_writer_append w m bs = Inr (w', m') \<Longrightarrow>
   block_offset m \<le> block_offset m' \<and>
   (block_offset m' = block_offset m \<longrightarrow>
      w' = w \<and> mw_data m' = mw_data m @ bs \<and> offset m' = offset m + length bs)"
proof (induction w m bs arbitrary: w' m' rule: meta_writer_append.induct)
  case (1 w m bs)
  define x where "x = min (SQFS_META_BLOCK_SIZE - offset m) (length bs)"
  define m1 where "m1 = m\<lparr>mw_data := mw_data m @ take x bs, offset := offset m + x\<rparr>"
  show ?case
  proof (cases "bs = []")
    case True
    with "1.prems" show ?thesis by simp
  next
    case False
    have om: "offset m1 = offset m + x"
      by (simp add: m1_def)
    have eq: "meta_writer_append w m bs =
       (if SQFS_META_BLOCK_SIZE \<le> offset m + x
        then (case meta_writer_flush w m1 of Inl e \<Rightarrow> Inl e
              | Inr (w2, m2) \<Rightarrow> meta_writer_append w2 m2 (drop x bs))
        else meta_writer_append w m1 (drop x bs))"
      unfolding meta_writer_append_unfold[OF False] m1_def x_def by (rule refl)
    show ?thesis
    proof (cases "SQFS_META_BLOCK_SIZE \<le> offset m1")
      case True
      with "1.prems" eq om have
        "(case meta_writer_flush w m1 of Inl e \<Rightarrow> Inl e
              | Inr (w2, m2) \<Rightarrow> meta_writer_append w2 m2 (drop x bs)) = Inr (w', m')"
        by simp
      then obtain w2 m2 where
        f: "meta_writer_flush w m1 = Inr (w2, m2)"
        and a: "meta_writer_append w2 m2 (drop x bs) = Inr (w', m')"
        by (auto split: sum.splits)
      from True have "offset m1 \<noteq> 0" by (simp add: SQFS_META_BLOCK_SIZE_def)
      from meta_writer_flush_block_offset[OF f this]
      have "block_offset m < block_offset m2" by (simp add: m1_def)
      moreover from "1.IH"(1)[OF False x_def m1_def True f refl a]
      have "block_offset m2 \<le> block_offset m'" by simp
      ultimately show ?thesis by simp
    next
      case nf: False
      with "1.prems" eq om have
        a: "meta_writer_append w m1 (drop x bs) = Inr (w', m')"
        by simp
      from "1.IH"(2)[OF False x_def m1_def nf a]
      have "block_offset m1 \<le> block_offset m'"
        and "block_offset m' = block_offset m1 \<longrightarrow>
             w' = w \<and> mw_data m' = mw_data m1 @ drop x bs \<and>
             offset m' = offset m1 + length (drop x bs)"
        by simp_all
      moreover have "x \<le> length bs" by (simp add: x_def)
      ultimately show ?thesis
        by (auto simp: m1_def)
    qed
  qed
qed


lemma append_chain:
  "meta_writer_append w m a = Inr (w1, m1) \<Longrightarrow> meta_writer_append w1 m1 b = Inr (w2, m2) \<Longrightarrow>
   meta_writer_append w m (a @ b) = Inr (w2, m2)"
  by (simp add: meta_writer_append_append)

lemma im_append_bytes:
  "im_append s bs = Inr s' \<Longrightarrow>
   meta_writer_append (world s) (im s) bs = Inr (world s', im s')"
  by (auto simp: im_append_def split: sum.splits)

lemma write_file_blocks_bytes:
  "write_file_blocks s fi i n = Inr s' \<Longrightarrow>
   meta_writer_append (world s) (im s)
     (concat (map le32 (take (n - i) (drop i (blocksizes fi))))) = Inr (world s', im s')"
proof (induction s fi i n rule: write_file_blocks.induct)
  case (1 s fi i n)
  show ?case
  proof (cases "i < n")
    case False
    with "1.prems" show ?thesis by (simp add: write_file_blocks.simps)
  next
    case True
    with "1.prems" obtain s1 where
      a: "i < length (blocksizes fi)"
         "im_append s (le32 (htole32 (blocksizes fi ! i))) = Inr s1"
         "write_file_blocks s1 fi (Suc i) n = Inr s'"
      by (subst (asm) write_file_blocks.simps) (auto split: if_splits sum.splits)
    from True have n: "n - i = Suc (n - Suc i)" by simp
    have "take (n - i) (drop i (blocksizes fi)) =
            blocksizes fi ! i # take (n - Suc i) (drop (Suc i) (blocksizes fi))"
      unfolding n using a(1) by (simp flip: Cons_nth_drop_Suc)
    then have "concat (map le32 (take (n - i) (drop i (blocksizes fi)))) =
            le32 (htole32 (blocksizes fi ! i))
            @ concat (map le32 (take (n - Suc i) (drop (Suc i) (blocksizes fi))))"
      by simp
    with append_chain[OF im_append_bytes[OF a(2)] "1.IH"[OF True a(1) a(2) a(3)]]
    show ?thesis by simp
  qed
qed

lemma out_file_blocks_bytes:
  "out_file_blocks s fi = Inr (s', bs) \<Longrightarrow>
   meta_writer_append (world s) (im s) (concat (map le32 bs)) = Inr (world s', im s')"
  by (auto simp: out_file_blocks_def Let_def split: if_splits sum.splits
      dest!: write_file_blocks_bytes)

lemma wi_tail_bytes_last:
  assumes "wi_tail s p n b = Inr s'"
  shows "meta_writer_append (world s) (im s) (enc_tail (snd (last (ilog s'))))
           = Inr (world s', im s')"
  using assms unfolding wi_tail_def Let_def
  by (auto simp: bind_err_Inr log_inode_def SQFS_INODE_defs str_bytes_def take_map
        meta_writer_append_append
      split: if_splits data_t.splits
      dest!: im_append_bytes out_file_blocks_bytes)

lemma wi_tail_bytes:
  assumes "wi_tail s p n b = Inr s'"
  shows "\<exists>t. meta_writer_append (world s) (im s) (enc_tail t) = Inr (world s', im s') \<and>
           ((type n = SQFS_INODE_FILE \<and> tail_nlink t = None) \<or>
            (type n \<noteq> SQFS_INODE_FILE \<and>
             (\<exists>nl. hard_link_count n = Inr nl \<and> tail_nlink t = Some (of_nat nl))))"
proof -
  from wi_tail_log[OF assms] obtain t where
    t: "ilog s' = ilog s @ [(b, t)]"
      "(type n = SQFS_INODE_FILE \<and> tail_nlink t = None) \<or>
       (type n \<noteq> SQFS_INODE_FILE \<and>
        (\<exists>nl. hard_link_count n = Inr nl \<and> tail_nlink t = Some (of_nat nl)))"
    by blast
  from wi_tail_bytes_last[OF assms] t(1)
  have "meta_writer_append (world s) (im s) (enc_tail t) = Inr (world s', im s')"
    by simp
  with t(2) show ?thesis by blast
qed


lemma write_inode_bytes:
  assumes "write_inode s p node = Inr (node', s')"
  shows "\<exists>b t w2.
           meta_writer_append w2 (im s) (enc_inode b @ enc_tail t) = Inr (world s', im s') \<and>
           (block_offset (im s') = block_offset (im s) \<longrightarrow>
              world s' = w2 \<and> mw_data (im s') = mw_data (im s) @ enc_inode b @ enc_tail t) \<and>
           (mode node AND S_IFMT \<noteq> S_IFDIR \<longrightarrow> w2 = world s) \<and>
           (mode node AND S_IFMT = S_IFDIR \<longrightarrow>
              (\<exists>di m2 di' gs. data node = Dir di \<and>
                 write_dir (world s) (dm s) di = Inr (w2, m2, di', gs))) \<and>
           mod_time b = def_mtime (opt (info s)) \<and>
           inode_number b = inode_counter (info s) \<and>
           base_type b = word_of_int (type node') \<and>
           base_mode b = mode node \<and>
           ((type node' = SQFS_INODE_FILE \<and> tail_nlink t = None) \<or>
            (type node' \<noteq> SQFS_INODE_FILE \<and>
             (\<exists>nl. hard_link_count node' = Inr nl \<and> tail_nlink t = Some (of_nat nl))))"
proof -
  from write_inode_steps[OF assms] obtain tbl1 u tbl2 g s2 s3 where
    st: "wi_type (wi_ser1 s tbl2) (wi_node1 s node) = Inr (node', s2)"
      "im_append s2 (enc_inode (wi_base s2 node' u g)) = Inr s3"
      "wi_tail s3 p node' (wi_base s2 node' u g) = Inr s'"
    by blast
  define b where "b = wi_base s2 node' u g"
  note k = wi_type_keeps[OF st(1)] im_append_keeps[OF st(2)]
  have m: "mode (wi_node1 s node) = mode node" "data (wi_node1 s node) = data node"
    by (simp_all add: wi_node1_def)
  have i2: "im s2 = im s"
    using k by (simp add: wi_ser1_def)
  from wi_tail_bytes[OF st(3)] obtain t where
    t: "meta_writer_append (world s3) (im s3) (enc_tail t) = Inr (world s', im s')"
      "(type node' = SQFS_INODE_FILE \<and> tail_nlink t = None) \<or>
       (type node' \<noteq> SQFS_INODE_FILE \<and>
        (\<exists>nl. hard_link_count node' = Inr nl \<and> tail_nlink t = Some (of_nat nl)))"
    by blast
  from append_chain[OF im_append_bytes[OF st(2)] t(1)]
  have a: "meta_writer_append (world s2) (im s) (enc_inode b @ enc_tail t)
             = Inr (world s', im s')"
    by (simp add: i2 b_def)
  from meta_writer_append_same_block[OF a]
  have sb: "block_offset (im s') = block_offset (im s) \<longrightarrow>
              world s' = world s2 \<and> mw_data (im s') = mw_data (im s) @ enc_inode b @ enc_tail t"
    by simp
  have nd: "world s2 = world s" if "mode node AND S_IFMT \<noteq> S_IFDIR"
  proof (cases "mode node AND S_IFMT = S_IFREG")
    case True
    from wi_type_reg[OF _ st(1)] True m have "s2 = wi_ser1 s tbl2" by auto
    then show ?thesis by (simp add: wi_ser1_def)
  next
    case False
    from wi_type_other[OF _ _ st(1)] False that m have "s2 = wi_ser1 s tbl2" by auto
    then show ?thesis by (simp add: wi_ser1_def)
  qed
  have d: "\<exists>di m2 di' gs. data node = Dir di \<and>
             write_dir (world s) (dm s) di = Inr (world s2, m2, di', gs)"
    if "mode node AND S_IFMT = S_IFDIR"
  proof -
    from wi_type_dir[OF _ st(1)] that m obtain di w m2 di' gs where
      x: "data node = Dir di"
        "write_dir (world (wi_ser1 s tbl2)) (dm (wi_ser1 s tbl2)) di = Inr (w, m2, di', gs)"
        "s2 = (wi_ser1 s tbl2)\<lparr>world := w, dm := m2,
                 dlog := dlog (wi_ser1 s tbl2) @ [gs]\<rparr>"
      by auto
    from x(3) have "world s2 = w" by simp
    with x(1,2) show ?thesis by (auto simp: wi_ser1_def)
  qed
  have f: "mod_time b = def_mtime (opt (info s))"
    "inode_number b = inode_counter (info s)"
    "base_type b = word_of_int (type node')"
    "base_mode b = mode node"
    using k
    by (simp_all add: b_def wi_base_def wi_ser1_def wi_node1_def htole16_def ucast_of_int_32_16)
  from a sb nd d f t(2) show ?thesis by blast
qed

lemma enc_inode_mod_time:
  "take 4 (drop 8 (enc_inode b @ rest)) = le32 (mod_time b)"
  by (simp add: enc_inode_def)

lemma ex_dir_bytes:
  "map_sum id (\<lambda>(n, s). (block_offset (im s), mw_data (im s)))
     (write_inode (ex_ser 131072 (dir_node [] [])) None
        (dir_node ''d'' [slink_node ''l'' ''a'']))
   = Inr (0, [1, 0, 0xED, 0x41, 0, 0, 0, 0, 0, 0, 0, 0x5D, 2, 0, 0, 0,
              0, 0, 0, 0, 3, 0, 0, 0, 21, 0, 0, 0, 1, 0, 0, 0])"
  by (simp add: eval_defs enc_inode_def enc_dir_def enc_dir_header_def enc_dir_entry_def
      le16_def le32_def le_bytes_def upt_rec drop_bit_eq_div htole16_def htole32_def)

lemma ex_file_bytes:
  "map_sum id (\<lambda>(n, s). (block_offset (im s), mw_data (im s), type n))
     (write_inode (ex_ser 131072 (dir_node [] [])) None (file_node ''a'' 10 [] None))
   = Inr (0, [2, 0, 0xA4, 0x81, 0, 0, 0, 0, 0, 0, 0, 0x5D, 2, 0, 0, 0,
              96, 0, 0, 0, 0xFF, 0xFF, 0xFF, 0xFF, 0, 0, 0, 0, 10, 0, 0, 0], SQFS_INODE_FILE)"
  by (simp add: eval_defs enc_inode_def enc_file_def
      le16_def le32_def le_bytes_def upt_rec drop_bit_eq_div htole16_def htole32_def)

lemma ex_slink_bytes:
  "map_sum id (\<lambda>(n, s). (block_offset (im s), mw_data (im s), type n))
     (write_inode (ex_ser 131072 (dir_node [] [])) None (slink_node ''l'' ''a''))
   = Inr (0, [3, 0, 0xFF, 0xA1, 0, 0, 0, 0, 0, 0, 0, 0x5D, 2, 0, 0, 0,
              1, 0, 0, 0, 1, 0, 0, 0, 97], SQFS_INODE_SLINK)"
  by (simp add: eval_defs enc_inode_def enc_slink_def
      le16_def le32_def le_bytes_def upt_rec drop_bit_eq_div htole16_def htole32_def)

text \<open>
  Claim C9. What \<open>write_inode\<close> appends to the inode writer is the common part of the
  inode followed by the record of its type, and the link count in that record is
  \<open>hard_link_count\<close> of the node: 2 plus the number of the children for a directory, 1 for
  every other node; the basic file inode is the one record that has no field for it.
  The bytes go to the writer \<open>im\<close> in the files as the listing of the directory, if the
  node is one, has left them (\<open>w2\<close>); as long as the writer stays in the same block they
  are the end of \<open>im->data\<close>. For a regular file the count is 1, so the third condition
  of the promotion to the extended file inode, a link count above 1, never holds.
\<close>

theorem serialized_nlink:
  assumes "write_inode s p node = Inr (node', s')"
  shows "\<exists>b t w2.
           meta_writer_append w2 (im s) (enc_inode b @ enc_tail t) = Inr (world s', im s') \<and>
           (block_offset (im s') = block_offset (im s) \<longrightarrow>
              mw_data (im s') = mw_data (im s) @ enc_inode b @ enc_tail t) \<and>
           (\<not> S_ISDIR (mode node) \<longrightarrow> w2 = world s) \<and>
           (S_ISDIR (mode node) \<longrightarrow>
              (\<exists>di m2 di' gs. data node = Dir di \<and>
                 write_dir (world s) (dm s) di = Inr (w2, m2, di', gs) \<and>
                 hard_link_count node = Inr (2 + length (children di)) \<and>
                 tail_nlink t = Some (of_nat (2 + length (children di))))) \<and>
           (\<not> S_ISDIR (mode node) \<longrightarrow>
              hard_link_count node = Inr 1 \<and>
              tail_nlink t = (if type node' = SQFS_INODE_FILE then None else Some 1)) \<and>
           (mode node AND S_IFMT = S_IFREG \<longrightarrow>
              \<not> (\<exists>nl. hard_link_count node = Inr nl \<and> 1 < nl))"
proof -
  from write_inode_steps[OF assms] obtain tbl2 s2 where
    ty: "wi_type (wi_ser1 s tbl2) (wi_node1 s node) = Inr (node', s2)"
    by blast
  have m: "mode (wi_node1 s node) = mode node" "data (wi_node1 s node) = data node"
    by (simp_all add: wi_node1_def)
  have m': "mode node' = mode node"
    using write_inode_facts(3)[OF assms] .
  from write_inode_bytes[OF assms] obtain b t w2 where
    bt: "meta_writer_append w2 (im s) (enc_inode b @ enc_tail t) = Inr (world s', im s')"
      "block_offset (im s') = block_offset (im s) \<longrightarrow>
         world s' = w2 \<and> mw_data (im s') = mw_data (im s) @ enc_inode b @ enc_tail t"
      "mode node AND S_IFMT \<noteq> S_IFDIR \<longrightarrow> w2 = world s"
      "mode node AND S_IFMT = S_IFDIR \<longrightarrow>
         (\<exists>di m2 di' gs. data node = Dir di \<and>
            write_dir (world s) (dm s) di = Inr (w2, m2, di', gs))"
      "(type node' = SQFS_INODE_FILE \<and> tail_nlink t = None) \<or>
       (type node' \<noteq> SQFS_INODE_FILE \<and>
        (\<exists>nl. hard_link_count node' = Inr nl \<and> tail_nlink t = Some (of_nat nl)))"
    by blast
  have dir: "\<exists>di m2 di' gs. data node = Dir di \<and>
                 write_dir (world s) (dm s) di = Inr (w2, m2, di', gs) \<and>
                 hard_link_count node = Inr (2 + length (children di)) \<and>
                 tail_nlink t = Some (of_nat (2 + length (children di)))"
    if d: "S_ISDIR (mode node)"
  proof -
    from d have f: "mode node AND S_IFMT = S_IFDIR" by (simp add: S_ISDIR_def)
    with bt(4) obtain di m2 di' gs where
      w: "data node = Dir di" "write_dir (world s) (dm s) di = Inr (w2, m2, di', gs)"
      by blast
    from wi_type_dir[OF _ ty] f m w(1) obtain w3 m3 di3 gs3 where
      x: "write_dir (world (wi_ser1 s tbl2)) (dm (wi_ser1 s tbl2)) di = Inr (w3, m3, di3, gs3)"
        "data node' = Dir di3"
        "type node' = (if dir_start_block di3 > 0xFFFFFFFF \<or> dir_size di3 > 0xFFFF
                       then SQFS_INODE_EXT_DIR else SQFS_INODE_DIR)"
      by auto
    from write_dir_children[OF x(1)] have c: "children di3 = children di" by simp
    from x(3) have nf: "type node' \<noteq> SQFS_INODE_FILE" by (simp split: if_splits)
    have "hard_link_count node' = Inr (2 + length (children di))"
      using d m' x(2) c by (simp add: hard_link_count.simps)
    moreover have "hard_link_count node = Inr (2 + length (children di))"
      using d w(1) by (simp add: hard_link_count.simps)
    ultimately show ?thesis using bt(5) nf w by auto
  qed
  have nodir: "hard_link_count node = Inr 1 \<and>
               tail_nlink t = (if type node' = SQFS_INODE_FILE then None else Some 1)"
    if d: "\<not> S_ISDIR (mode node)"
  proof -
    from d m' have "hard_link_count node' = Inr 1" "hard_link_count node = Inr 1"
      by (simp_all add: hard_link_count.simps)
    with bt(5) show ?thesis by auto
  qed
  have reg: "\<not> (\<exists>nl. hard_link_count node = Inr nl \<and> 1 < nl)"
    if r: "mode node AND S_IFMT = S_IFREG"
  proof -
    from r have "\<not> S_ISDIR (mode node)" by (simp add: S_ISDIR_def)
    then have "hard_link_count node = Inr 1" by (rule hard_link_count_not_dir)
    then show ?thesis by simp
  qed
  have w: "w2 = world s" if "\<not> S_ISDIR (mode node)"
    using that bt(3) by (simp add: S_ISDIR_def)
  from bt(1,2) w dir nodir reg show ?thesis by blast
qed

theorem serialized_nlink_witness:
  "\<exists>n1 s1 b1 t1 n2 s2 b2 t2 n3 s3 b3 t3.
     write_inode (ex_ser 131072 (dir_node [] [])) None
       (dir_node ''d'' [slink_node ''l'' ''a'']) = Inr (n1, s1) \<and>
     mw_data (im s1) = enc_inode b1 @ enc_tail t1 \<and> tail_nlink t1 = Some 3 \<and>
     mw_data (im s1) = [1, 0, 0xED, 0x41, 0, 0, 0, 0, 0, 0, 0, 0x5D, 2, 0, 0, 0,
                        0, 0, 0, 0, 3, 0, 0, 0, 21, 0, 0, 0, 1, 0, 0, 0] \<and>
     write_inode (ex_ser 131072 (dir_node [] [])) None
       (file_node ''a'' 10 [] None) = Inr (n2, s2) \<and>
     hard_link_count (file_node ''a'' 10 [] None) = Inr 1 \<and>
     mw_data (im s2) = enc_inode b2 @ enc_tail t2 \<and> tail_nlink t2 = None \<and>
     mw_data (im s2) = [2, 0, 0xA4, 0x81, 0, 0, 0, 0, 0, 0, 0, 0x5D, 2, 0, 0, 0,
                        96, 0, 0, 0, 0xFF, 0xFF, 0xFF, 0xFF, 0, 0, 0, 0, 10, 0, 0, 0] \<and>
     write_inode (ex_ser 131072 (dir_node [] [])) None
       (slink_node ''l'' ''a'') = Inr (n3, s3) \<and>
     mw_data (im s3) = enc_inode b3 @ enc_tail t3 \<and> tail_nlink t3 = Some 1 \<and>
     mw_data (im s3) = [3, 0, 0xFF, 0xA1, 0, 0, 0, 0, 0, 0, 0, 0x5D, 2, 0, 0, 0,
                        1, 0, 0, 0, 1, 0, 0, 0, 97]"
proof -
  obtain n1 s1 where
    a: "write_inode (ex_ser 131072 (dir_node [] [])) None
          (dir_node ''d'' [slink_node ''l'' ''a'']) = Inr (n1, s1)"
    using ex_dir_inode by blast
  obtain n2 s2 where
    b: "write_inode (ex_ser 131072 (dir_node [] [])) None
          (file_node ''a'' 10 [] None) = Inr (n2, s2)"
    using ex_file_inode by blast
  obtain n3 s3 where
    c: "write_inode (ex_ser 131072 (dir_node [] [])) None
          (slink_node ''l'' ''a'') = Inr (n3, s3)"
    using ex_slink_inode by blast
  have i: "block_offset (im (ex_ser 131072 (dir_node [] []))) = 0"
    "mw_data (im (ex_ser 131072 (dir_node [] []))) = []"
    by (simp_all add: ex_ser_def meta_writer_create_def)
  have d: "S_ISDIR (mode (dir_node ''d'' [slink_node ''l'' ''a'']))"
    "\<not> S_ISDIR (mode (file_node ''a'' 10 [] None))"
    "\<not> S_ISDIR (mode (slink_node ''l'' ''a''))"
    by (simp_all add: S_ISDIR_def dir_node_def file_node_def slink_node_def S_IF_defs)
  from ex_dir_bytes a have ea:
    "block_offset (im s1) = 0"
    "mw_data (im s1) = [1, 0, 0xED, 0x41, 0, 0, 0, 0, 0, 0, 0, 0x5D, 2, 0, 0, 0,
                        0, 0, 0, 0, 3, 0, 0, 0, 21, 0, 0, 0, 1, 0, 0, 0]"
    by simp_all
  from ex_file_bytes b have eb:
    "block_offset (im s2) = 0" "type n2 = SQFS_INODE_FILE"
    "mw_data (im s2) = [2, 0, 0xA4, 0x81, 0, 0, 0, 0, 0, 0, 0, 0x5D, 2, 0, 0, 0,
                        96, 0, 0, 0, 0xFF, 0xFF, 0xFF, 0xFF, 0, 0, 0, 0, 10, 0, 0, 0]"
    by simp_all
  from ex_slink_bytes c have ec:
    "block_offset (im s3) = 0" "type n3 = SQFS_INODE_SLINK"
    "mw_data (im s3) = [3, 0, 0xFF, 0xA1, 0, 0, 0, 0, 0, 0, 0, 0x5D, 2, 0, 0, 0,
                        1, 0, 0, 0, 1, 0, 0, 0, 97]"
    by simp_all
  from serialized_nlink[OF a] d(1) i ea(1) obtain b1 t1 where
    ra: "mw_data (im s1) = enc_inode b1 @ enc_tail t1" "tail_nlink t1 = Some 3"
    by (auto simp: dir_node_def)
  from serialized_nlink[OF b] d(2) i eb(1,2) obtain b2 t2 where
    rb: "mw_data (im s2) = enc_inode b2 @ enc_tail t2" "tail_nlink t2 = None"
      "hard_link_count (file_node ''a'' 10 [] None) = Inr 1"
    by auto
  from serialized_nlink[OF c] d(3) i ec(1,2) obtain b3 t3 where
    rc: "mw_data (im s3) = enc_inode b3 @ enc_tail t3" "tail_nlink t3 = Some 1"
    by (auto simp: SQFS_INODE_defs)
  from a b c ra rb rc ea(2) eb(3) ec(3) show ?thesis by blast
qed

text \<open>
  Claim C10. The common part of the inode that \<open>write_inode\<close> appends to the inode
  writer holds \<open>info->opt.def_mtime\<close> as its \<open>mod_time\<close>: these are the bytes 8 to 11 of
  what is appended. The \<open>mtime\<close> of the node is not written: with any other \<open>mtime\<close> the
  same bytes go to the same places, and nothing but the \<open>mtime\<close> of the node that comes
  back differs.
\<close>

theorem inode_mod_time_is_default:
  assumes "write_inode s p node = Inr (node', s')"
  shows "(\<exists>b t w2.
            meta_writer_append w2 (im s) (enc_inode b @ enc_tail t) = Inr (world s', im s') \<and>
            (block_offset (im s') = block_offset (im s) \<longrightarrow>
               mw_data (im s') = mw_data (im s) @ enc_inode b @ enc_tail t) \<and>
            (\<not> S_ISDIR (mode node) \<longrightarrow> w2 = world s) \<and>
            (S_ISDIR (mode node) \<longrightarrow>
               (\<exists>di m2 di' gs. data node = Dir di \<and>
                  write_dir (world s) (dm s) di = Inr (w2, m2, di', gs))) \<and>
            mod_time b = def_mtime (opt (info s)) \<and>
            take 4 (drop 8 (enc_inode b @ enc_tail t)) = le32 (def_mtime (opt (info s)))) \<and>
         write_inode s p (set_mtime mt node) = Inr (set_mtime mt node', s')"
proof -
  from write_inode_bytes[OF assms] obtain b t w2 where
    bt: "meta_writer_append w2 (im s) (enc_inode b @ enc_tail t) = Inr (world s', im s')"
      "block_offset (im s') = block_offset (im s) \<longrightarrow>
         world s' = w2 \<and> mw_data (im s') = mw_data (im s) @ enc_inode b @ enc_tail t"
      "mode node AND S_IFMT \<noteq> S_IFDIR \<longrightarrow> w2 = world s"
      "mode node AND S_IFMT = S_IFDIR \<longrightarrow>
         (\<exists>di m2 di' gs. data node = Dir di \<and>
            write_dir (world s) (dm s) di = Inr (w2, m2, di', gs))"
      "mod_time b = def_mtime (opt (info s))"
    by blast
  have "take 4 (drop 8 (enc_inode b @ enc_tail t)) = le32 (def_mtime (opt (info s)))"
    by (simp only: enc_inode_mod_time bt(5))
  with bt write_inode_set_mtime[OF assms, of mt] show ?thesis
    unfolding S_ISDIR_def by blast
qed

theorem inode_mod_time_is_default_witness:
  "\<exists>n' s' b t.
     write_inode (ex_ser 131072 (dir_node [] [])) None (file_node ''a'' 10 [] None)
       = Inr (n', s') \<and>
     mtime (file_node ''a'' 10 [] None) = 0x12345678 \<and>
     def_mtime (opt (info (ex_ser 131072 (dir_node [] [])))) = 0x5D000000 \<and>
     mw_data (im s') = enc_inode b @ enc_tail t \<and> mod_time b = 0x5D000000 \<and>
     take 4 (drop 8 (mw_data (im s'))) = [0, 0, 0, 0x5D] \<and>
     write_inode (ex_ser 131072 (dir_node [] [])) None
       (set_mtime 7 (file_node ''a'' 10 [] None)) = Inr (set_mtime 7 n', s')"
proof -
  obtain n' s' where
    a: "write_inode (ex_ser 131072 (dir_node [] [])) None (file_node ''a'' 10 [] None)
          = Inr (n', s')"
    using ex_file_inode by blast
  have i: "block_offset (im (ex_ser 131072 (dir_node [] []))) = 0"
    "mw_data (im (ex_ser 131072 (dir_node [] []))) = []"
    "def_mtime (opt (info (ex_ser 131072 (dir_node [] [])))) = 0x5D000000"
    by (simp_all add: ex_ser_def ex_info_def meta_writer_create_def)
  from ex_file_bytes a have e: "block_offset (im s') = 0"
    by simp
  have l: "le32 (0x5D000000 :: 32 word) = [0, 0, 0, 0x5D]"
    by (simp add: le32_def le_bytes_def upt_rec drop_bit_eq_div)
  from inode_mod_time_is_default[OF a, of 7] i e l obtain b t where
    "mw_data (im s') = enc_inode b @ enc_tail t" "mod_time b = 0x5D000000"
    "take 4 (drop 8 (mw_data (im s'))) = [0, 0, 0, 0x5D]"
    "write_inode (ex_ser 131072 (dir_node [] [])) None
       (set_mtime 7 (file_node ''a'' 10 [] None)) = Inr (set_mtime 7 n', s')"
    by auto
  with a i(3) show ?thesis by auto
qed

section \<open>Properties of \<open>write_dir\<close>\<close>

lemma count_entries_le: "count_entries c ds \<le> length ds"
  by (induction ds) auto

lemma count_entries_take:
  "x \<in> set (take (count_entries c ds) ds) \<Longrightarrow>
   drop_bit 16 (inode_ref x) = drop_bit 16 (inode_ref c) \<and> inode_num x - inode_num c \<le> 0xFFFF"
  by (induction ds) (auto split: if_splits simp: not_less)

lemma count_entries_stop:
  "count_entries c ds < length ds \<Longrightarrow>
   drop_bit 16 (inode_ref (ds ! count_entries c ds)) \<noteq> drop_bit 16 (inode_ref c) \<or>
   inode_num (ds ! count_entries c ds) - inode_num c > 0xFFFF"
  by (induction ds) (auto split: if_splits)

lemma write_dir_entries_eq:
  "write_dir_entries w m d cs i count sz = Inr (w', m', c', sz', ents) \<Longrightarrow>
   ents = map (\<lambda>x. (dir_entry d x, x)) (take (count - i) cs) \<and> c' = drop (count - i) cs"
proof (induction cs arbitrary: w m i sz ents)
  case Nil
  then show ?case by (auto split: if_splits)
next
  case (Cons x xs)
  show ?case
  proof (cases "i < count")
    case False
    with Cons.prems show ?thesis by auto
  next
    case True
    with Cons.prems obtain w2 m2 ents' where
      r: "write_dir_entries w2 m2 d xs (Suc i) count
            (sz + 8 + of_nat (length (name x))) = Inr (w', m', c', sz', ents')"
      and e: "ents = (dir_entry d x, x) # ents'"
      by (auto simp: Let_def split: sum.splits)
    from True have "count - i = Suc (count - Suc i)" by simp
    with Cons.IH[OF r] e show ?thesis by simp
  qed
qed

lemma write_dir_loop_eq:
  "write_dir_loop w m cs sz = Inr (w', m', sz', groups) \<Longrightarrow> groups = dir_groups cs"
proof (induction w m cs sz arbitrary: w' m' sz' groups rule: write_dir_loop.induct)
  case (1 w m sz)
  then show ?case by (simp add: write_dir_loop.simps dir_groups.simps)
next
  case (2 w m c cs sz)
  define n where "n = min SQFS_MAX_DIR_ENT (count_entries c (c # cs))"
  have n_alt: "(if count_entries c (c # cs) > SQFS_MAX_DIR_ENT then SQFS_MAX_DIR_ENT
                else count_entries c (c # cs)) = n"
    by (simp add: n_def min_def)
  from "2.prems" obtain w1 m1 w2 m2 c' sz2 ents gs where
    a: "meta_writer_append w m (enc_dir_header (dir_header c n)) = Inr (w1, m1)"
    and b: "write_dir_entries w1 m1 c (c # cs) 0 n (sz + 12) = Inr (w2, m2, c', sz2, ents)"
    and c: "write_dir_loop w2 m2 c' sz2 = Inr (w', m', sz', gs)"
    and g: "groups = (dir_header c n, ents) # gs"
    unfolding write_dir_loop.simps(2)[of w m c cs sz] Let_def n_alt
    by (auto split: sum.splits simp del: write_dir_entries.simps count_entries.simps)
  from write_dir_entries_eq[OF b] have
    e: "ents = map (\<lambda>x. (dir_entry c x, x)) (take n (c # cs))" "c' = drop n (c # cs)"
    by simp_all
  have "gs = dir_groups c'"
    by (rule "2.IH"[OF refl refl refl refl, unfolded n_alt, OF a refl b refl refl refl refl c])
  with g e show ?case
    by (simp add: dir_groups.simps(2)[of c cs] Let_def n_def del: count_entries.simps)
qed


lemma dir_groups_concat: "concat (map (\<lambda>g. map snd (snd g)) (dir_groups cs)) = cs"
proof (induction cs rule: dir_groups.induct)
  case 1
  show ?case by (simp add: dir_groups.simps)
next
  case (2 c cs)
  define n where "n = min SQFS_MAX_DIR_ENT (count_entries c (c # cs))"
  have "map snd (map (\<lambda>x. (dir_entry c x, x)) (take n (c # cs))) = take n (c # cs)"
    by (simp add: comp_def)
  with "2.IH"[OF n_def] show ?case
    by (simp add: dir_groups.simps(2)[of c cs] Let_def flip: n_def del: count_entries.simps)
qed

lemma dir_groups_length: "length cs \<le> length (dir_groups cs) * SQFS_MAX_DIR_ENT"
proof (induction cs rule: dir_groups.induct)
  case 1
  show ?case by simp
next
  case (2 c cs)
  define n where "n = min SQFS_MAX_DIR_ENT (count_entries c (c # cs))"
  have "n \<le> SQFS_MAX_DIR_ENT" by (simp add: n_def)
  moreover have "length (c # cs) \<le> n + length (drop n (c # cs))" by simp
  ultimately show ?case
    using "2.IH"[OF n_def]
    by (simp add: dir_groups.simps(2)[of c cs] Let_def flip: n_def del: count_entries.simps)
qed

lemma dir_header_fields [simp]:
  "hdr_inode_number (dir_header d n) = inode_num d"
  "hdr_start_block (dir_header d n) = ucast (drop_bit 16 (inode_ref d))"
  "hdr_count (dir_header d n) = ucast ((of_nat n :: 64 word) - 1)"
  by (simp_all add: dir_header_def htole32_def)

lemma sint_ucast_diff:
  fixes a b :: "32 word"
  assumes "- 32768 \<le> int (unat a) - int (unat b)" and "int (unat a) - int (unat b) \<le> 32767"
  shows "sint (ucast (a - b) :: 16 word) = int (unat a) - int (unat b)"
proof -
  have "sint (ucast (a - b) :: 16 word) = signed_take_bit 15 (uint (a - b))"
    by (simp only: ucast_eq sint_sbintrunc') simp
  also have "uint (a - b) = take_bit 32 (uint a - uint b)"
    by (simp only: uint_word_arith_bintrs) simp
  also have "signed_take_bit 15 (take_bit 32 (uint a - uint b)) = signed_take_bit 15 (uint a - uint b)"
    by (simp only: signed_take_bit_take_bit) simp
  also have "\<dots> = uint a - uint b"
    using assms by (intro signed_take_bit_int_eq_self) simp_all
  finally show ?thesis by simp
qed

lemma ucast_of_nat_64_16: "(ucast (of_nat k :: 64 word) :: 16 word) = of_nat k"
  by (rule bit_word_eqI) (auto simp add: bit_simps)

lemma ent_size_unat:
  assumes "0 < n" and "n \<le> 65536"
  shows "unat (ucast ((of_nat n :: 64 word) - 1) :: 16 word) = n - 1"
proof -
  from assms(1) obtain k where k: "n = Suc k" by (cases n) auto
  have "(of_nat n :: 64 word) - 1 = of_nat k" by (simp add: k)
  then have "unat (ucast ((of_nat n :: 64 word) - 1) :: 16 word) = k mod 65536"
    by (simp add: unat_of_nat ucast_of_nat_64_16)
  with assms(2) k show ?thesis by simp
qed

lemma write_dir_entries_bytes:
  "write_dir_entries w m d cs i count sz = Inr (w', m', c', sz', ents) \<Longrightarrow>
   meta_writer_append w m
     (concat (map (\<lambda>(e, c). enc_dir_entry e @ str_bytes (name c)) ents)) = Inr (w', m')"
proof (induction cs arbitrary: w m i sz ents)
  case Nil
  then show ?case by (auto split: if_splits)
next
  case (Cons x xs)
  show ?case
  proof (cases "i < count")
    case False
    with Cons.prems show ?thesis by auto
  next
    case True
    with Cons.prems obtain w1 m1 w2 m2 ents' where
      a: "meta_writer_append w m (enc_dir_entry (dir_entry d x)) = Inr (w1, m1)"
      and b: "meta_writer_append w1 m1 (str_bytes (name x)) = Inr (w2, m2)"
      and r: "write_dir_entries w2 m2 d xs (Suc i) count
            (sz + 8 + of_nat (length (name x))) = Inr (w', m', c', sz', ents')"
      and e: "ents = (dir_entry d x, x) # ents'"
      by (auto simp: Let_def split: sum.splits)
    from append_chain[OF append_chain[OF a b] Cons.IH[OF r]] e
    show ?thesis by simp
  qed
qed

lemma write_dir_loop_bytes:
  "write_dir_loop w m cs sz = Inr (w', m', sz', groups) \<Longrightarrow>
   meta_writer_append w m (enc_listing groups) = Inr (w', m')"
proof (induction w m cs sz arbitrary: w' m' sz' groups rule: write_dir_loop.induct)
  case (1 w m sz)
  then show ?case by (simp add: write_dir_loop.simps enc_listing_def)
next
  case (2 w m c cs sz)
  define n where "n = min SQFS_MAX_DIR_ENT (count_entries c (c # cs))"
  have n_alt: "(if count_entries c (c # cs) > SQFS_MAX_DIR_ENT then SQFS_MAX_DIR_ENT
                else count_entries c (c # cs)) = n"
    by (simp add: n_def min_def)
  from "2.prems" obtain w1 m1 w2 m2 c' sz2 ents gs where
    a: "meta_writer_append w m (enc_dir_header (dir_header c n)) = Inr (w1, m1)"
    and b: "write_dir_entries w1 m1 c (c # cs) 0 n (sz + 12) = Inr (w2, m2, c', sz2, ents)"
    and c: "write_dir_loop w2 m2 c' sz2 = Inr (w', m', sz', gs)"
    and g: "groups = (dir_header c n, ents) # gs"
    unfolding write_dir_loop.simps(2)[of w m c cs sz] Let_def n_alt
    by (auto split: sum.splits simp del: write_dir_entries.simps count_entries.simps)
  have r: "meta_writer_append w2 m2 (enc_listing gs) = Inr (w', m')"
    by (rule "2.IH"[OF refl refl refl refl, unfolded n_alt, OF a refl b refl refl refl refl c])
  from append_chain[OF append_chain[OF a write_dir_entries_bytes[OF b]] r]
  show ?case
    by (simp add: g enc_listing_def enc_group_def)
qed

lemma write_dir_bytes:
  assumes "write_dir w m dir = Inr (w', m', dir', groups)"
  shows "meta_writer_append w m (enc_listing (dir_groups (children dir))) = Inr (w', m')"
proof -
  from assms obtain sz where
    l: "write_dir_loop w m (children dir) 0 = Inr (w', m', sz, groups)"
    by (auto simp: write_dir_def split: sum.splits)
  from write_dir_loop_bytes[OF l] write_dir_loop_eq[OF l] show ?thesis by simp
qed

lemma dir_groups_suffix:
  "(h, es) \<in> set (dir_groups cs) \<Longrightarrow>
   \<exists>k n. k < length cs \<and> 1 \<le> n \<and> n \<le> SQFS_MAX_DIR_ENT \<and> k + n \<le> length cs \<and>
     n \<le> count_entries (cs ! k) (drop k cs) \<and>
     h = dir_header (cs ! k) n \<and>
     es = map (\<lambda>x. (dir_entry (cs ! k) x, x)) (take n (drop k cs))"
proof (induction cs rule: dir_groups.induct)
  case 1
  then show ?case by (simp add: dir_groups.simps)
next
  case (2 c cs)
  define n where "n = min SQFS_MAX_DIR_ENT (count_entries c (c # cs))"
  have n1: "1 \<le> n" "n \<le> SQFS_MAX_DIR_ENT" "n \<le> count_entries c (c # cs)"
    using count_entries_first[of c cs] by (simp_all add: n_def SQFS_MAX_DIR_ENT_def)
  have nl: "n \<le> length (c # cs)"
    using n1(3) count_entries_le[of c "c # cs"] by simp
  from "2.prems" consider
    (hd) "h = dir_header c n" "es = map (\<lambda>x. (dir_entry c x, x)) (take n (c # cs))"
    | (tl) "(h, es) \<in> set (dir_groups (drop n (c # cs)))"
    by (auto simp: dir_groups.simps(2)[of c cs] Let_def n_def simp del: count_entries.simps)
  then show ?case
  proof cases
    case hd
    with n1 nl show ?thesis
      by (intro exI[of _ 0] exI[of _ n]) (simp del: count_entries.simps)
  next
    case tl
    define ds where "ds = drop n (c # cs)"
    from "2.IH"[OF n_def tl] obtain k j where
      x: "k < length ds" "1 \<le> j" "j \<le> SQFS_MAX_DIR_ENT" "k + j \<le> length ds"
        "j \<le> count_entries (ds ! k) (drop k ds)"
        "h = dir_header (ds ! k) j"
        "es = map (\<lambda>x. (dir_entry (ds ! k) x, x)) (take j (drop k ds))"
      unfolding ds_def by blast
    have l: "length ds = length (c # cs) - n" by (simp add: ds_def)
    have a: "ds ! k = (c # cs) ! (n + k)"
      using x(1) l unfolding ds_def by (simp del: drop_Suc_Cons)
    have b: "drop k ds = drop (n + k) (c # cs)"
      unfolding ds_def by (simp add: add.commute del: drop_Suc_Cons)
    from x l have "n + k < length (c # cs)" "n + k + j \<le> length (c # cs)"
      by simp_all
    with x(2,3,5,6,7) show ?thesis
      unfolding a b by (intro exI[of _ "n + k"] exI[of _ j]) simp
  qed
qed

lemma write_inodes_numbers:
  "write_inodes s p cs = Inr (cs', s') \<Longrightarrow>
   length cs' = length cs \<and>
   map inode_num cs' = map (\<lambda>i. inode_counter (info s) + of_nat i) [0..<length cs] \<and>
   map mode cs' = map mode cs \<and> map name cs' = map name cs \<and>
   inode_counter (info s') = inode_counter (info s) + of_nat (length cs)"
proof (induction cs arbitrary: s cs')
  case Nil
  then show ?case by simp
next
  case (Cons c cs)
  from Cons.prems obtain c' s1 rest' where
    a: "write_inode s p c = Inr (c', s1)"
    and b: "write_inodes s1 p cs = Inr (rest', s')"
    and e: "cs' = c' # rest'"
    by (auto split: sum.splits)
  note f = write_inode_facts[OF a]
  from Cons.IH[OF b] have
    i: "length rest' = length cs"
      "map inode_num rest' = map (\<lambda>i. inode_counter (info s1) + of_nat i) [0..<length cs]"
      "map mode rest' = map mode cs" "map name rest' = map name cs"
      "inode_counter (info s') = inode_counter (info s1) + of_nat (length cs)"
    by simp_all
  have "map (\<lambda>i. inode_counter (info s) + of_nat i) [0..<length (c # cs)] =
        inode_counter (info s) # map (\<lambda>i. inode_counter (info s1) + of_nat i) [0..<length cs]"
    by (simp add: f(9) upt_conv_Cons map_Suc_upt[symmetric] del: upt_Suc)
  with i f e show ?case by simp
qed


lemma tree_size_kids: "tree_size n = Suc (sum_list (map tree_size (kids n)))"
  by (cases n; cases "data n"; cases "case data n of Dir di \<Rightarrow> di") (auto simp: kids_def)

lemma tree_size_below: "tree_size n = Suc (below n)"
  by (simp add: below_def tree_size_kids[of n])

lemma below_kids: "below n = length (kids n) + below_all (kids n)"
proof -
  have "sum_list (map tree_size cs) = length cs + sum_list (map below cs)" for cs
    by (induction cs) (simp_all add: tree_size_below)
  then show ?thesis by (simp add: below_def below_all_def)
qed

lemma write_subdirs_no_dirs:
  "\<not> list_ex (\<lambda>it. S_ISDIR (mode it)) cs \<Longrightarrow> write_subdirs s cs = Inr (cs, s)"
  by (induction cs) simp_all

lemma write_child_inodes_steps:
  assumes "write_child_inodes s d = Inr (d1, s1)"
  shows "\<exists>cs1 sK. write_subdirs s (kids d) = Inr (cs1, sK) \<and>
           write_inodes sK (Some (inode_num d)) cs1 = Inr (kids d1, s1) \<and>
           mode d1 = mode d \<and> name d1 = name d \<and> inode_num d1 = inode_num d \<and>
           inode_ref d1 = inode_ref d \<and>
           (\<exists>di. data d = Dir di) \<and> (\<exists>di. data d1 = Dir di)"
proof (cases d)
  case (Tree_node nm u g m mt xa r k ty dat)
  show ?thesis
  proof (cases dat)
    case (Dir di)
    obtain cs dsz dsb dbo where di: "di = Dir_info cs dsz dsb dbo" by (cases di)
    have e: "(if list_ex (\<lambda>it. S_ISDIR (mode it)) cs then write_subdirs s cs else Inr (cs, s))
               = write_subdirs s cs"
      by (simp add: write_subdirs_no_dirs)
    from assms obtain cs1 sK cs2 where
      a: "write_subdirs s cs = Inr (cs1, sK)"
      and b: "write_inodes sK (Some k) cs1 = Inr (cs2, s1)"
      and c: "d1 = Tree_node nm u g m mt xa r k ty (Dir (Dir_info cs2 dsz dsb dbo))"
      unfolding Tree_node Dir di write_child_inodes.simps e
      by (auto split: sum.splits)
    show ?thesis
      using a b unfolding Tree_node Dir di c by (simp add: kids_def)
  next
    case (File x)
    with assms Tree_node show ?thesis by simp
  next
    case (Slink_target x)
    with assms Tree_node show ?thesis by simp
  next
    case (Devno x)
    with assms Tree_node show ?thesis by simp
  qed
qed

lemma traversal_counter:
  "write_child_inodes s d = Inr (d1, s1) \<Longrightarrow>
     \<exists>m. m \<le> below d \<and> inode_counter (info s1) = inode_counter (info s) + of_nat m"
  "write_subdirs s cs = Inr (cs1, s1) \<Longrightarrow>
     length cs1 = length cs \<and>
     (\<exists>m. m \<le> below_all cs \<and> inode_counter (info s1) = inode_counter (info s) + of_nat m)"
proof (induction s d and s cs arbitrary: d1 s1 and cs1 s1
    rule: write_child_inodes_write_subdirs.induct)
  case (1 s nm u g m mt xa r k ty cs dsz dsb dbo)
  define d where "d = Tree_node nm u g m mt xa r k ty (Dir (Dir_info cs dsz dsb dbo))"
  have kd: "kids d = cs" by (simp add: d_def kids_def)
  from write_child_inodes_steps[OF "1.prems"[folded d_def]] kd obtain cs1 sK where
    a: "write_subdirs s cs = Inr (cs1, sK)"
    and b: "write_inodes sK (Some (inode_num d)) cs1 = Inr (kids d1, s1)"
    by auto
  have "length cs1 = length cs \<and>
     (\<exists>m. m \<le> below_all cs \<and> inode_counter (info sK) = inode_counter (info s) + of_nat m)"
  proof (cases "list_ex (\<lambda>it. S_ISDIR (mode it)) cs")
    case True
    from "1.IH"[OF True a] show ?thesis .
  next
    case False
    from write_subdirs_no_dirs[OF False, of s] a have "cs1 = cs" "sK = s" by simp_all
    then show ?thesis by (intro conjI exI[of _ 0]) simp_all
  qed
  then obtain m1 where
    m1: "length cs1 = length cs" "m1 \<le> below_all cs"
      "inode_counter (info sK) = inode_counter (info s) + of_nat m1"
    by blast
  from write_inodes_numbers[OF b] m1
  have "inode_counter (info s1) = inode_counter (info s) + of_nat (m1 + length cs)"
    by simp
  moreover have "m1 + length cs \<le> below d"
    using m1(2) by (simp add: below_kids kd)
  ultimately show ?case unfolding d_def by blast
next
  case (2 s nm u g m mt xa r k ty fi)
  then show ?case by simp
next
  case (3 s nm u g m mt xa r k ty t)
  then show ?case by simp
next
  case (4 s nm u g m mt xa r k ty dn)
  then show ?case by simp
next
  case (5 s)
  then show ?case by (simp add: below_all_def)
next
  case (6 s it rest)
  show ?case
  proof (cases "S_ISDIR (mode it)")
    case False
    with "6.prems" obtain rest' where
      a: "write_subdirs s rest = Inr (rest', s1)" and e: "cs1 = it # rest'"
      by (auto split: sum.splits)
    from "6.IH"(1)[OF False a] obtain m where
      "length rest' = length rest" "m \<le> below_all rest"
      "inode_counter (info s1) = inode_counter (info s) + of_nat m"
      by blast
    then show ?thesis
      unfolding e by (intro conjI exI[of _ m]) (simp_all add: below_all_def)
  next
    case True
    with "6.prems" obtain it' s2 rest' where
      a: "write_child_inodes s it = Inr (it', s2)"
      and b: "write_subdirs s2 rest = Inr (rest', s1)" and e: "cs1 = it' # rest'"
      by (auto split: sum.splits)
    from True have nn: "\<not> \<not> S_ISDIR (mode it)" by simp
    from "6.IH"(2)[OF nn a] obtain m1 where
      m1: "m1 \<le> below it" "inode_counter (info s2) = inode_counter (info s) + of_nat m1"
      by blast
    from "6.IH"(3)[OF nn a refl b] obtain m2 where
      m2: "length rest' = length rest" "m2 \<le> below_all rest"
        "inode_counter (info s1) = inode_counter (info s2) + of_nat m2"
      by blast
    from m1 m2 show ?thesis
      unfolding e by (intro conjI exI[of _ "m1 + m2"]) (simp_all add: below_all_def)
  qed
qed


lemma write_inode_listing:
  assumes "write_inode s p n = Inr (n', s')" and "S_ISDIR (mode n)"
  shows "\<exists>w. meta_writer_append (world s) (dm s) (enc_listing (dir_groups (kids n)))
               = Inr (w, dm s')"
    and "kids n' = kids n"
proof -
  from write_inode_steps[OF assms(1)] obtain tbl1 u tbl2 g s2 s3 where
    st: "wi_type (wi_ser1 s tbl2) (wi_node1 s n) = Inr (n', s2)"
      "im_append s2 (enc_inode (wi_base s2 n' u g)) = Inr s3"
      "wi_tail s3 p n' (wi_base s2 n' u g) = Inr s'"
    by blast
  have m: "mode (wi_node1 s n) AND S_IFMT = S_IFDIR" "data (wi_node1 s n) = data n"
    using assms(2) by (simp_all add: wi_node1_def S_ISDIR_def)
  from wi_type_dir[OF m(1) st(1)] m(2) obtain di w m2 di' gs where
    x: "data n = Dir di"
      "write_dir (world (wi_ser1 s tbl2)) (dm (wi_ser1 s tbl2)) di = Inr (w, m2, di', gs)"
      "data n' = Dir di'"
      "s2 = (wi_ser1 s tbl2)\<lparr>world := w, dm := m2,
               dlog := dlog (wi_ser1 s tbl2) @ [gs]\<rparr>"
    by auto
  have d: "dm s' = m2"
    using im_append_keeps[OF st(2)] wi_tail_log[OF st(3)] x(4) by simp
  from write_dir_bytes[OF x(2)] d x(1)
  show "\<exists>w. meta_writer_append (world s) (dm s) (enc_listing (dir_groups (kids n)))
               = Inr (w, dm s')"
    by (auto simp: wi_ser1_def kids_def)
  from write_dir_children[OF x(2)] x(1,3) show "kids n' = kids n"
    by (simp add: kids_def)
qed

lemma unat_of_nat_32: "n < 2 ^ 32 \<Longrightarrow> unat (of_nat n :: 32 word) = n"
  by (simp add: unat_of_nat)

lemma groups_numbered:
  assumes "map inode_num cs = map (\<lambda>i. K + of_nat i) [0..<length cs]"
    and "(h, es) \<in> set (dir_groups cs)"
  shows "es \<noteq> []" and "length es \<le> SQFS_MAX_DIR_ENT"
    and "unat (hdr_count h) + 1 = length es"
    and "hdr_inode_number h = inode_num (snd (hd es))"
    and "hdr_start_block h = ucast (drop_bit 16 (inode_ref (snd (hd es))))"
    and "(e, c) \<in> set es \<Longrightarrow>
           \<exists>j k. j < length es \<and> k + j < length cs \<and> c = cs ! (k + j) \<and>
             hdr_inode_number h = K + of_nat k \<and>
             inode_num c = hdr_inode_number h + of_nat j \<and>
             e = dir_entry (snd (hd es)) c \<and>
             drop_bit 16 (inode_ref c) = drop_bit 16 (inode_ref (snd (hd es)))"
proof -
  from dir_groups_suffix[OF assms(2)] obtain k n where
    x: "k < length cs" "1 \<le> n" "n \<le> SQFS_MAX_DIR_ENT" "k + n \<le> length cs"
      "n \<le> count_entries (cs ! k) (drop k cs)"
      "h = dir_header (cs ! k) n"
      "es = map (\<lambda>x. (dir_entry (cs ! k) x, x)) (take n (drop k cs))"
    by blast
  have len: "length es = n"
    using x(4) by (simp add: x(7))
  from x(2) len show "es \<noteq> []" by auto
  from x(3) len show "length es \<le> SQFS_MAX_DIR_ENT" by simp
  have hd: "snd (hd es) = cs ! k"
  proof -
    from x(1,2) have "take n (drop k cs) \<noteq> []" by simp
    then have "hd es = (dir_entry (cs ! k) (hd (take n (drop k cs))), hd (take n (drop k cs)))"
      unfolding x(7) by (simp add: hd_map)
    moreover have "hd (take n (drop k cs)) = cs ! k"
      using x(1,2) by (simp add: hd_drop_conv_nth)
    ultimately show ?thesis by simp
  qed
  show "unat (hdr_count h) + 1 = length es"
  proof -
    from x(2) obtain q where q: "n = Suc q" by (cases n) auto
    have "(of_nat n :: 64 word) - 1 = of_nat q" by (simp add: q)
    then have "hdr_count h = of_nat q"
      unfolding x(6) by (simp add: ucast_of_nat_64_32)
    moreover have "q < 2 ^ 32" using x(3) q by (simp add: SQFS_MAX_DIR_ENT_def)
    ultimately show ?thesis using len q by (simp add: unat_of_nat_32)
  qed
  show "hdr_inode_number h = inode_num (snd (hd es))"
    unfolding x(6) hd by simp
  show "hdr_start_block h = ucast (drop_bit 16 (inode_ref (snd (hd es))))"
    unfolding x(6) hd by simp
  show "\<exists>j k. j < length es \<and> k + j < length cs \<and> c = cs ! (k + j) \<and>
             hdr_inode_number h = K + of_nat k \<and>
             inode_num c = hdr_inode_number h + of_nat j \<and>
             e = dir_entry (snd (hd es)) c \<and>
             drop_bit 16 (inode_ref c) = drop_bit 16 (inode_ref (snd (hd es)))"
    if "(e, c) \<in> set es"
  proof -
    from that have "(e, c) \<in> (\<lambda>x. (dir_entry (cs ! k) x, x)) ` set (take n (drop k cs))"
      unfolding x(7) set_map .
    then have c: "c \<in> set (take n (drop k cs))" "e = dir_entry (cs ! k) c"
      by blast+
    from c(1) obtain j where
      j: "j < length (take n (drop k cs))" "c = take n (drop k cs) ! j"
      by (auto simp: in_set_conv_nth)
    from j(1) x(4) have jn: "j < n" "k + j < length cs" by simp_all
    with j(2) have cj: "c = cs ! (k + j)" by simp
    have num: "inode_num (cs ! i) = K + of_nat i" if "i < length cs" for i
    proof -
      from that have "inode_num (cs ! i) = map inode_num cs ! i" by simp
      also have "\<dots> = K + of_nat i" unfolding assms(1) using that by simp
      finally show ?thesis .
    qed
    have hk: "hdr_inode_number h = K + of_nat k"
      unfolding x(6) using num[OF x(1)] by simp
    have nc: "inode_num c = hdr_inode_number h + of_nat j"
      unfolding hk cj using num[OF jn(2)] by simp
    have "set (take n (drop k cs))
            \<subseteq> set (take (count_entries (cs ! k) (drop k cs)) (drop k cs))"
      by (rule set_take_subset_set_take[OF x(5)])
    with c(1) have "c \<in> set (take (count_entries (cs ! k) (drop k cs)) (drop k cs))"
      by blast
    then have "drop_bit 16 (inode_ref c) = drop_bit 16 (inode_ref (cs ! k))"
      by (rule count_entries_take[THEN conjunct1])
    with jn len cj hk nc c(2) hd show ?thesis by auto
  qed
qed


lemma listing_of_numbered_children:
  assumes "write_child_inodes s d = Inr (d1, s1)"
    and "write_inode s2 p d1 = Inr (d2, s3)"
    and "S_ISDIR (mode d)"
  shows "\<exists>K w.
     map inode_num (kids d1) = map (\<lambda>i. K + of_nat i) [0..<length (kids d1)] \<and>
     (unat (inode_counter (info s)) + tree_size d \<le> 2 ^ 32 \<longrightarrow>
        unat K + length (kids d1) < 2 ^ 32) \<and>
     meta_writer_append (world s2) (dm s2) (enc_listing (dir_groups (kids d1)))
       = Inr (w, dm s3) \<and>
     (block_offset (dm s3) = block_offset (dm s2) \<longrightarrow>
        mw_data (dm s3) = mw_data (dm s2) @ enc_listing (dir_groups (kids d1)))"
proof -
  from write_child_inodes_steps[OF assms(1)] obtain cs1 sK where
    a: "write_subdirs s (kids d) = Inr (cs1, sK)"
    and b: "write_inodes sK (Some (inode_num d)) cs1 = Inr (kids d1, s1)"
    and m: "mode d1 = mode d"
    by blast
  define K where "K = inode_counter (info sK)"
  from write_inodes_numbers[OF b] have
    n: "length (kids d1) = length cs1"
      "map inode_num (kids d1) = map (\<lambda>i. K + of_nat i) [0..<length (kids d1)]"
    by (simp_all add: K_def)
  from traversal_counter(2)[OF a] obtain q where
    q: "length cs1 = length (kids d)" "q \<le> below_all (kids d)"
      "K = inode_counter (info s) + of_nat q"
    unfolding K_def by blast
  have nw: "unat K + length (kids d1) < 2 ^ 32"
    if "unat (inode_counter (info s)) + tree_size d \<le> 2 ^ 32"
  proof -
    have "unat K \<le> unat (inode_counter (info s)) + unat (of_nat q :: 32 word)"
      unfolding q(3) unat_word_ariths(1) by (rule mod_less_eq_dividend)
    also have "unat (of_nat q :: 32 word) \<le> q"
      by (simp add: unat_of_nat)
    finally have "unat K + length (kids d1) \<le> unat (inode_counter (info s)) + below d"
      using q(1,2) n(1) by (simp add: below_kids)
    with that show ?thesis by (simp add: tree_size_below)
  qed
  from assms(3) m have "S_ISDIR (mode d1)" by simp
  from write_inode_listing(1)[OF assms(2) this] obtain w where
    w: "meta_writer_append (world s2) (dm s2) (enc_listing (dir_groups (kids d1)))
          = Inr (w, dm s3)"
    by blast
  from meta_writer_append_same_block[OF w]
  have "block_offset (dm s3) = block_offset (dm s2) \<longrightarrow>
        mw_data (dm s3) = mw_data (dm s2) @ enc_listing (dir_groups (kids d1))"
    by simp
  with n(2) nw w show ?thesis by blast
qed

subsection \<open>Runs that succeed\<close>

text \<open>
  \<open>write_dir\<close> succeeds exactly when appending its listing in one piece does; a listing,
  the inode of a named pipe and the inode of a directory that fit into the current
  block of their writer are written without a flush. So the inodes and the listing of
  a directory of named pipes are written whenever there is room for them in the blocks
  and in the id table.
\<close>

lemma id_table_ok:
  "length tbl < 0x10000 \<Longrightarrow>
   \<exists>tbl' i. id_table_id_to_index tbl x = Inr (tbl', i) \<and> length tbl' \<le> length tbl + 1"
  by (auto simp: id_table_id_to_index_def split: option.splits)

lemma append_split:
  assumes "meta_writer_append w m (a @ b) = Inr r"
  shows "\<exists>w1 m1. meta_writer_append w m a = Inr (w1, m1) \<and> meta_writer_append w1 m1 b = Inr r"
  using assms unfolding meta_writer_append_append by (auto split: sum.splits)

lemma write_dir_entries_ok:
  "meta_writer_append w m
     (concat (map (\<lambda>c. enc_dir_entry (dir_entry d c) @ str_bytes (name c))
        (take (count - i) cs))) = Inr (w', m') \<Longrightarrow>
   count - i \<le> length cs \<Longrightarrow>
   \<exists>sz'. write_dir_entries w m d cs i count sz =
     Inr (w', m', drop (count - i) cs, sz', map (\<lambda>x. (dir_entry d x, x)) (take (count - i) cs))"
proof (induction cs arbitrary: w m i sz)
  case Nil
  then show ?case by simp
next
  case (Cons x xs)
  show ?case
  proof (cases "i < count")
    case False
    with Cons.prems show ?thesis by simp
  next
    case True
    then have n: "count - i = Suc (count - Suc i)" by simp
    from Cons.prems(1) have
      "meta_writer_append w m
         ((enc_dir_entry (dir_entry d x) @ str_bytes (name x))
          @ concat (map (\<lambda>c. enc_dir_entry (dir_entry d c) @ str_bytes (name c))
              (take (count - Suc i) xs))) = Inr (w', m')"
      unfolding n by simp
    from append_split[OF this] obtain w2 m2 where
      a: "meta_writer_append w m (enc_dir_entry (dir_entry d x) @ str_bytes (name x))
            = Inr (w2, m2)"
      and r: "meta_writer_append w2 m2
         (concat (map (\<lambda>c. enc_dir_entry (dir_entry d c) @ str_bytes (name c))
              (take (count - Suc i) xs))) = Inr (w', m')"
      by blast
    from append_split[OF a] obtain w1 m1 where
      a1: "meta_writer_append w m (enc_dir_entry (dir_entry d x)) = Inr (w1, m1)"
      and a2: "meta_writer_append w1 m1 (str_bytes (name x)) = Inr (w2, m2)"
      by blast
    from Cons.prems(2) n have "count - Suc i \<le> length xs" by simp
    from Cons.IH[OF r this, of "sz + 8 + of_nat (length (name x))"] obtain sz' where
      "write_dir_entries w2 m2 d xs (Suc i) count (sz + 8 + of_nat (length (name x))) =
         Inr (w', m', drop (count - Suc i) xs, sz',
              map (\<lambda>x. (dir_entry d x, x)) (take (count - Suc i) xs))"
      by blast
    with True a1 a2 show ?thesis
      unfolding n by (simp add: Let_def)
  qed
qed

lemma write_dir_loop_ok:
  "meta_writer_append w m (enc_listing (dir_groups cs)) = Inr (w', m') \<Longrightarrow>
   \<exists>sz'. write_dir_loop w m cs sz = Inr (w', m', sz', dir_groups cs)"
proof (induction cs arbitrary: w m sz rule: dir_groups.induct)
  case 1
  then show ?case by (simp add: write_dir_loop.simps dir_groups.simps enc_listing_def)
next
  case (2 c cs)
  define n where "n = min SQFS_MAX_DIR_ENT (count_entries c (c # cs))"
  have n_alt: "(if count_entries c (c # cs) > SQFS_MAX_DIR_ENT then SQFS_MAX_DIR_ENT
                else count_entries c (c # cs)) = n"
    by (simp add: n_def min_def)
  have nl: "n \<le> length (c # cs)"
    using count_entries_le[of c "c # cs"] by (simp add: n_def)
  have g: "dir_groups (c # cs) =
             (dir_header c n, map (\<lambda>x. (dir_entry c x, x)) (take n (c # cs)))
             # dir_groups (drop n (c # cs))"
    by (simp add: dir_groups.simps(2)[of c cs] Let_def n_def del: count_entries.simps)
  have e: "enc_listing (dir_groups (c # cs)) =
             (enc_dir_header (dir_header c n)
              @ concat (map (\<lambda>x. enc_dir_entry (dir_entry c x) @ str_bytes (name x))
                          (take n (c # cs))))
             @ enc_listing (dir_groups (drop n (c # cs)))"
    unfolding g by (simp add: enc_listing_def enc_group_def comp_def del: take_Suc_Cons)
  from append_split[OF "2.prems"[unfolded e]] obtain w2 m2 where
    a: "meta_writer_append w m (enc_dir_header (dir_header c n)
              @ concat (map (\<lambda>x. enc_dir_entry (dir_entry c x) @ str_bytes (name x))
                          (take n (c # cs)))) = Inr (w2, m2)"
    and r: "meta_writer_append w2 m2 (enc_listing (dir_groups (drop n (c # cs))))
              = Inr (w', m')"
    by blast
  from append_split[OF a] obtain w1 m1 where
    a1: "meta_writer_append w m (enc_dir_header (dir_header c n)) = Inr (w1, m1)"
    and a2: "meta_writer_append w1 m1
               (concat (map (\<lambda>x. enc_dir_entry (dir_entry c x) @ str_bytes (name x))
                          (take (n - 0) (c # cs)))) = Inr (w2, m2)"
    by auto
  from nl have "n - 0 \<le> length (c # cs)" by simp
  from write_dir_entries_ok[OF a2 this, of "sz + 12"] obtain sz2 where
    b: "write_dir_entries w1 m1 c (c # cs) 0 n (sz + 12) =
          Inr (w2, m2, drop n (c # cs), sz2, map (\<lambda>x. (dir_entry c x, x)) (take n (c # cs)))"
    by auto
  from "2.IH"[OF n_def r, of sz2] obtain sz' where
    l: "write_dir_loop w2 m2 (drop n (c # cs)) sz2 =
          Inr (w', m', sz', dir_groups (drop n (c # cs)))"
    by blast
  show ?case
    unfolding write_dir_loop.simps(2)[of w m c cs sz] Let_def n_alt g
    using a1 b l by (simp del: write_dir_entries.simps count_entries.simps)
qed

lemma length_enc_listing_le:
  "length (enc_listing (dir_groups cs)) \<le> sum_list (map (\<lambda>c. 20 + length (name c)) cs)"
proof (induction cs rule: dir_groups.induct)
  case 1
  show ?case by (simp add: dir_groups.simps enc_listing_def)
next
  case (2 c cs)
  define n where "n = min SQFS_MAX_DIR_ENT (count_entries c (c # cs))"
  have n1: "1 \<le> n"
    using count_entries_first[of c cs] by (simp add: n_def SQFS_MAX_DIR_ENT_def)
  have g: "dir_groups (c # cs) =
             (dir_header c n, map (\<lambda>x. (dir_entry c x, x)) (take n (c # cs)))
             # dir_groups (drop n (c # cs))"
    by (simp add: dir_groups.simps(2)[of c cs] Let_def n_def del: count_entries.simps)
  have s: "length (concat (map (\<lambda>x. enc_dir_entry (dir_entry c x) @ str_bytes (name x)) xs))
             = sum_list (map (\<lambda>c. 8 + length (name c)) xs)" for xs
    by (induction xs) (simp_all add: str_bytes_def)
  have u: "sum_list (map (\<lambda>c. 8 + length (name c)) xs)
             \<le> sum_list (map (\<lambda>c. 20 + length (name c)) xs)" for xs :: "tree_node list"
    by (induction xs) simp_all
  have t: "12 + sum_list (map (\<lambda>c. 8 + length (name c)) xs)
             \<le> sum_list (map (\<lambda>c. 20 + length (name c)) xs)"
    if "xs \<noteq> []" for xs :: "tree_node list"
  proof (cases xs)
    case Nil
    with that show ?thesis by simp
  next
    case (Cons y ys)
    with u[of ys] show ?thesis by simp
  qed
  have ne: "take n (c # cs) \<noteq> []" using n1 by auto
  have "length (enc_listing (dir_groups (c # cs))) =
          12 + sum_list (map (\<lambda>c. 8 + length (name c)) (take n (c # cs)))
          + length (enc_listing (dir_groups (drop n (c # cs))))"
    unfolding g by (simp add: enc_listing_def enc_group_def comp_def s del: take_Suc_Cons)
  also have "\<dots> \<le> sum_list (map (\<lambda>c. 20 + length (name c)) (take n (c # cs)))
          + sum_list (map (\<lambda>c. 20 + length (name c)) (drop n (c # cs)))"
    using t[OF ne] "2.IH"[OF n_def] by simp
  also have "\<dots> = sum_list (map (\<lambda>c. 20 + length (name c)) (c # cs))"
    unfolding sum_list_append[symmetric] map_append[symmetric] append_take_drop_id ..
  finally show ?case .
qed


lemma write_dir_ok:
  assumes "offset m + length (enc_listing (dir_groups (children dir))) < SQFS_META_BLOCK_SIZE"
  shows "\<exists>dir'. write_dir w m dir =
           Inr (w, m\<lparr>mw_data := mw_data m @ enc_listing (dir_groups (children dir)),
                     offset := offset m + length (enc_listing (dir_groups (children dir)))\<rparr>,
                dir', dir_groups (children dir))"
proof -
  from write_dir_loop_ok[OF meta_writer_append_small[OF assms, of w], of 0] obtain sz' where
    "write_dir_loop w m (children dir) 0 =
       Inr (w, m\<lparr>mw_data := mw_data m @ enc_listing (dir_groups (children dir)),
                 offset := offset m + length (enc_listing (dir_groups (children dir)))\<rparr>,
            sz', dir_groups (children dir))"
    by blast
  then show ?thesis by (simp add: write_dir_def)
qed

lemma write_inode_alt:
  "write_inode s p node =
     bind_err (id_table_id_to_index (idtbl (info s)) (uid node)) (\<lambda>(tbl1, u).
     bind_err (id_table_id_to_index tbl1 (gid node)) (\<lambda>(tbl2, g).
     bind_err (wi_type (wi_ser1 s tbl2) (wi_node1 s node)) (\<lambda>(node2, s2).
     bind_err (im_append s2 (enc_inode (wi_base s2 node2 u g))) (\<lambda>s3.
     bind_err (wi_tail s3 p node2 (wi_base s2 node2 u g)) (\<lambda>s4. Inr (node2, s4))))))"
  unfolding write_inode_def wi_ser1_def wi_node1_def wi_base_def Let_def by (rule refl)

lemma im_append_small:
  assumes "offset (im s) + length bs < SQFS_META_BLOCK_SIZE"
  shows "im_append s bs =
           Inr (s\<lparr>im := (im s)\<lparr>mw_data := mw_data (im s) @ bs,
                                offset := offset (im s) + length bs\<rparr>\<rparr>)"
  by (simp add: im_append_def meta_writer_append_small[OF assms])

lemma write_inode_fifo_ok:
  assumes "mode c AND S_IFMT = S_IFIFO"
    and "length (idtbl (info s)) + 2 \<le> 0x10000"
    and "offset (im s) + 20 < SQFS_META_BLOCK_SIZE"
  shows "\<exists>c' s'. write_inode s p c = Inr (c', s') \<and>
           offset (im s') = offset (im s) + 20 \<and>
           length (idtbl (info s')) \<le> length (idtbl (info s)) + 2 \<and>
           dm s' = dm s"
proof -
  from assms(2) have "length (idtbl (info s)) < 0x10000" by simp
  from id_table_ok[OF this, of "uid c"] obtain tbl1 u where
    a: "id_table_id_to_index (idtbl (info s)) (uid c) = Inr (tbl1, u)"
      "length tbl1 \<le> length (idtbl (info s)) + 1"
    by blast
  from a(2) assms(2) have "length tbl1 < 0x10000" by simp
  from id_table_ok[OF this, of "gid c"] obtain tbl2 g where
    b: "id_table_id_to_index tbl1 (gid c) = Inr (tbl2, g)"
      "length tbl2 \<le> length tbl1 + 1"
    by blast
  define n2 where "n2 = set_type SQFS_INODE_FIFO (wi_node1 s c)"
  define s1 where "s1 = wi_ser1 s tbl2"
  define base where "base = wi_base s1 n2 u g"
  have m: "mode (wi_node1 s c) AND S_IFMT = S_IFIFO"
    using assms(1) by (simp add: wi_node1_def)
  have ne: "(S_IFIFO :: 16 word) \<noteq> S_IFSOCK" "(S_IFIFO :: 16 word) \<noteq> S_IFDIR"
    by (simp_all add: S_IF_defs)
  have ty: "wi_type s1 (wi_node1 s c) = Inr (n2, s1)"
    by (simp add: wi_type_def m ne n2_def)
  have o1: "offset (im s1) = offset (im s)" "mw_data (im s1) = mw_data (im s)"
    "dm s1 = dm s" "idtbl (info s1) = tbl2"
    by (simp_all add: s1_def wi_ser1_def)
  define s3 where
    "s3 = s1\<lparr>im := (im s1)\<lparr>mw_data := mw_data (im s1) @ enc_inode base,
                              offset := offset (im s1) + length (enc_inode base)\<rparr>\<rparr>"
  have i1: "im_append s1 (enc_inode base) = Inr s3"
    unfolding s3_def using assms(3) o1 by (intro im_append_small) simp
  have h: "hard_link_count n2 = Inr 1"
    using m ne by (intro hard_link_count_not_dir) (simp add: n2_def S_ISDIR_def)
  define ipc where "ipc = \<lparr>ipc_nlink = (of_nat 1 :: 32 word)\<rparr>"
  define s4 where
    "s4 = s3\<lparr>im := (im s3)\<lparr>mw_data := mw_data (im s3) @ enc_ipc ipc,
                              offset := offset (im s3) + length (enc_ipc ipc)\<rparr>\<rparr>"
  have i2: "im_append s3 (enc_ipc ipc) = Inr s4"
    unfolding s4_def using assms(3) o1 by (intro im_append_small) (simp add: s3_def)
  have tl: "wi_tail s3 p n2 base = Inr (log_inode base (Tail_ipc ipc) s4)"
    using i2 h by (simp add: wi_tail_def n2_def bind_err_def ipc_def)
  have r: "write_inode s p c = Inr (n2, log_inode base (Tail_ipc ipc) s4)"
    unfolding write_inode_alt
    using a(1) b(1) ty i1 tl by (simp add: bind_err_def s1_def base_def)
  have "offset (im (log_inode base (Tail_ipc ipc) s4)) = offset (im s) + 20"
    "idtbl (info (log_inode base (Tail_ipc ipc) s4)) = tbl2"
    "dm (log_inode base (Tail_ipc ipc) s4) = dm s"
    using o1 by (simp_all add: log_inode_def s4_def s3_def)
  with r a(2) b(2) show ?thesis by simp
qed

lemma write_inodes_fifo_ok:
  assumes "list_all (\<lambda>c. mode c AND S_IFMT = S_IFIFO) cs"
    and "length (idtbl (info s)) + 2 * length cs \<le> 0x10000"
    and "offset (im s) + 20 * length cs < SQFS_META_BLOCK_SIZE"
  shows "\<exists>cs' s'. write_inodes s p cs = Inr (cs', s') \<and>
           offset (im s') = offset (im s) + 20 * length cs \<and>
           length (idtbl (info s')) \<le> length (idtbl (info s)) + 2 * length cs \<and>
           dm s' = dm s"
  using assms
proof (induction cs arbitrary: s)
  case Nil
  then show ?case by simp
next
  case (Cons c cs)
  from Cons.prems have
    p: "mode c AND S_IFMT = S_IFIFO" "length (idtbl (info s)) + 2 \<le> 0x10000"
      "offset (im s) + 20 < SQFS_META_BLOCK_SIZE"
    by simp_all
  from write_inode_fifo_ok[OF p, of p] obtain c' s1 where
    a: "write_inode s p c = Inr (c', s1)" "offset (im s1) = offset (im s) + 20"
      "length (idtbl (info s1)) \<le> length (idtbl (info s)) + 2" "dm s1 = dm s"
    by blast
  from Cons.prems a have
    q: "list_all (\<lambda>c. mode c AND S_IFMT = S_IFIFO) cs"
      "length (idtbl (info s1)) + 2 * length cs \<le> 0x10000"
      "offset (im s1) + 20 * length cs < SQFS_META_BLOCK_SIZE"
    by simp_all
  from Cons.IH[OF q] obtain cs' s' where
    b: "write_inodes s1 p cs = Inr (cs', s')"
      "offset (im s') = offset (im s1) + 20 * length cs"
      "length (idtbl (info s')) \<le> length (idtbl (info s1)) + 2 * length cs" "dm s' = dm s1"
    by blast
  from a b show ?case by simp
qed


lemma write_inode_dir_ok:
  assumes "mode n AND S_IFMT = S_IFDIR" and "data n = Dir di"
    and "length (idtbl (info s)) + 2 \<le> 0x10000"
    and "offset (im s) + 40 < SQFS_META_BLOCK_SIZE"
    and "offset (dm s) + length (enc_listing (dir_groups (children di))) < SQFS_META_BLOCK_SIZE"
  shows "\<exists>n' s'. write_inode s p n = Inr (n', s')"
proof -
  from assms(3) have "length (idtbl (info s)) < 0x10000" by simp
  from id_table_ok[OF this, of "uid n"] obtain tbl1 u where
    a: "id_table_id_to_index (idtbl (info s)) (uid n) = Inr (tbl1, u)"
      "length tbl1 \<le> length (idtbl (info s)) + 1"
    by blast
  from a(2) assms(3) have "length tbl1 < 0x10000" by simp
  from id_table_ok[OF this, of "gid n"] obtain tbl2 g where
    b: "id_table_id_to_index tbl1 (gid n) = Inr (tbl2, g)"
    by blast
  define s1 where "s1 = wi_ser1 s tbl2"
  have o1: "offset (im s1) = offset (im s)" "dm s1 = dm s" "im s1 = im s"
    by (simp_all add: s1_def wi_ser1_def)
  have m: "mode (wi_node1 s n) AND S_IFMT = S_IFDIR" "data (wi_node1 s n) = Dir di"
    using assms(1,2) by (simp_all add: wi_node1_def)
  have mn: "mode (wi_node1 s n) = mode n"
    by (simp add: wi_node1_def)
  from write_dir_ok[of "dm s1" di "world s1"] assms(5) o1 obtain di' m2 where
    wd: "write_dir (world s1) (dm s1) di = Inr (world s1, m2, di', dir_groups (children di))"
    by auto
  from write_dir_children[OF wd] have c: "children di' = children di" by simp
  obtain n2 s2 where
    ty: "wi_type s1 (wi_node1 s n) = Inr (n2, s2)"
    and n2: "data n2 = Dir di'" "mode n2 = mode n" "im s2 = im s"
      "type n2 = SQFS_INODE_DIR \<or> type n2 = SQFS_INODE_EXT_DIR"
  proof (cases "dir_start_block di' > 0xFFFFFFFF \<or> dir_size di' > 0xFFFF")
    case True
    show ?thesis
      by (rule that[of "set_type SQFS_INODE_EXT_DIR
                 (set_data (Dir di') (set_type SQFS_INODE_DIR (wi_node1 s n)))"
               "s1\<lparr>world := world s1, dm := m2,
                    dlog := dlog s1 @ [dir_groups (children di)]\<rparr>"])
         (use True wd m(2) mn o1 in \<open>simp_all add: wi_type_dir_eq[OF m(1)]\<close>)
  next
    case False
    show ?thesis
      by (rule that[of "set_data (Dir di') (set_type SQFS_INODE_DIR (wi_node1 s n))"
               "s1\<lparr>world := world s1, dm := m2,
                    dlog := dlog s1 @ [dir_groups (children di)]\<rparr>"])
         (use False wd m(2) mn o1 in \<open>simp_all add: wi_type_dir_eq[OF m(1)]\<close>)
  qed
  define base where "base = wi_base s2 n2 u g"
  define s3 where
    "s3 = s2\<lparr>im := (im s2)\<lparr>mw_data := mw_data (im s2) @ enc_inode base,
                              offset := offset (im s2) + length (enc_inode base)\<rparr>\<rparr>"
  have i1: "im_append s2 (enc_inode base) = Inr s3"
    unfolding s3_def using assms(4) n2(3) by (intro im_append_small) simp
  have o3: "offset (im s3) = offset (im s) + 16"
    by (simp add: s3_def n2(3))
  have h: "hard_link_count n2 = Inr (2 + length (children di'))"
    using assms(1) n2(1,2) by (simp add: hard_link_count.simps S_ISDIR_def)
  have "\<exists>s4. wi_tail s3 p n2 base = Inr s4"
  proof -
    from n2(4) show ?thesis
    proof
      assume t: "type n2 = SQFS_INODE_DIR"
      have sm: "offset (im s3) + length (enc_dir x) < SQFS_META_BLOCK_SIZE" for x
        using assms(4) o3 by simp
      show ?thesis
        using t h n2(1)
        by (simp add: wi_tail_def bind_err_def SQFS_INODE_defs Let_def im_append_small[OF sm])
    next
      assume t: "type n2 = SQFS_INODE_EXT_DIR"
      have sm: "offset (im s3) + length (enc_dir_ext x) < SQFS_META_BLOCK_SIZE" for x
        using assms(4) o3 by simp
      show ?thesis
        using t h n2(1)
        by (simp add: wi_tail_def bind_err_def SQFS_INODE_defs Let_def im_append_small[OF sm])
    qed
  qed
  then obtain s4 where tl: "wi_tail s3 p n2 base = Inr s4" by blast
  have "write_inode s p n = Inr (n2, s4)"
    unfolding write_inode_alt
    using a(1) b(1) ty i1 tl by (simp add: bind_err_def s1_def base_def)
  then show ?thesis by blast
qed


lemma fifo_dir_ok:
  assumes "S_ISDIR (mode d)" and "data d = Dir di"
    and "list_all (\<lambda>c. mode c AND S_IFMT = S_IFIFO) (children di)"
    and "length (idtbl (info s)) + 2 * length (children di) + 2 \<le> 0x10000"
    and "offset (im s) + 20 * length (children di) + 40 < SQFS_META_BLOCK_SIZE"
    and "offset (dm s) + sum_list (map (\<lambda>c. 20 + length (name c)) (children di))
           < SQFS_META_BLOCK_SIZE"
  shows "\<exists>d1 s1 d2 s3. write_child_inodes s d = Inr (d1, s1) \<and>
           write_inode s1 p d1 = Inr (d2, s3) \<and> length (kids d1) = length (children di)"
proof -
  obtain nm u g m mt xa r k ty cs dsz dsb dbo where
    d: "d = Tree_node nm u g m mt xa r k ty (Dir (Dir_info cs dsz dsb dbo))"
    and di: "di = Dir_info cs dsz dsb dbo"
    using assms(2) by (cases d; cases di) auto
  have cs: "children di = cs" by (simp add: di)
  have nd: "\<not> list_ex (\<lambda>it. S_ISDIR (mode it)) cs"
    using assms(3) unfolding cs
    by (auto simp: list_all_iff list_ex_iff S_ISDIR_def S_IF_defs)
  from assms(3-5) have
    q: "list_all (\<lambda>c. mode c AND S_IFMT = S_IFIFO) cs"
      "length (idtbl (info s)) + 2 * length cs \<le> 0x10000"
      "offset (im s) + 20 * length cs < SQFS_META_BLOCK_SIZE"
    by (simp_all add: cs)
  from write_inodes_fifo_ok[OF q, of "Some k"] obtain cs2 s1 where
    a: "write_inodes s (Some k) cs = Inr (cs2, s1)"
      "offset (im s1) = offset (im s) + 20 * length cs"
      "length (idtbl (info s1)) \<le> length (idtbl (info s)) + 2 * length cs"
      "dm s1 = dm s"
    by blast
  define d1 where "d1 = Tree_node nm u g m mt xa r k ty (Dir (Dir_info cs2 dsz dsb dbo))"
  have w: "write_child_inodes s d = Inr (d1, s1)"
    unfolding d d1_def using nd a(1) by simp
  note n = write_inodes_numbers[OF a(1)]
  have l: "sum_list (map (\<lambda>c. 20 + length (name c)) cs2)
             = sum_list (map (\<lambda>c. 20 + length (name c)) cs)"
  proof -
    have "map (\<lambda>c. 20 + length (name c)) xs = map (\<lambda>x. 20 + length x) (map name xs)"
      for xs :: "tree_node list"
      by simp
    with n show ?thesis by (simp del: map_map)
  qed
  have "\<exists>d2 s3. write_inode s1 p d1 = Inr (d2, s3)"
  proof (rule write_inode_dir_ok[where di = "Dir_info cs2 dsz dsb dbo"])
    show "mode d1 AND S_IFMT = S_IFDIR"
      using assms(1) by (simp add: d d1_def S_ISDIR_def)
    show "data d1 = Dir (Dir_info cs2 dsz dsb dbo)"
      by (simp add: d1_def)
    show "length (idtbl (info s1)) + 2 \<le> 0x10000"
      using a(3) assms(4) by (simp add: cs)
    show "offset (im s1) + 40 < SQFS_META_BLOCK_SIZE"
      using a(2) assms(5) by (simp add: cs)
    show "offset (dm s1) + length (enc_listing (dir_groups (children (Dir_info cs2 dsz dsb dbo))))
            < SQFS_META_BLOCK_SIZE"
      using length_enc_listing_le[of cs2] l assms(6) a(4) by (simp add: cs)
  qed
  moreover have "length (kids d1) = length (children di)"
    using n by (simp add: d1_def kids_def cs)
  ultimately show ?thesis using w by blast
qed

lemma ex_many_fifo_run:
  "\<exists>d1 s1 d2 s3.
     write_child_inodes (ex_ser 131072 (dir_node [] [])) (many_fifo_dir 300) = Inr (d1, s1) \<and>
     write_inode s1 None d1 = Inr (d2, s3) \<and> length (kids d1) = 300"
proof -
  let ?cs = "map (\<lambda>i. fifo_node [char_of (65 + i div 26), char_of (97 + i mod 26)]) [0..<300]"
  have "\<exists>d1 s1 d2 s3.
     write_child_inodes (ex_ser 131072 (dir_node [] [])) (many_fifo_dir 300) = Inr (d1, s1) \<and>
     write_inode s1 None d1 = Inr (d2, s3) \<and>
     length (kids d1) = length (children (Dir_info ?cs 0 0 0))"
  proof (rule fifo_dir_ok)
    show "S_ISDIR (mode (many_fifo_dir 300))"
      by (simp add: many_fifo_dir_def S_ISDIR_def)
    show "data (many_fifo_dir 300) = Dir (Dir_info ?cs 0 0 0)"
      by (simp add: many_fifo_dir_def)
    show "list_all (\<lambda>c. mode c AND S_IFMT = S_IFIFO) (children (Dir_info ?cs 0 0 0))"
      by (simp add: list_all_iff fifo_node_def S_IF_defs)
    show "length (idtbl (info (ex_ser 131072 (dir_node [] []))))
            + 2 * length (children (Dir_info ?cs 0 0 0)) + 2 \<le> 0x10000"
      by (simp add: ex_ser_def ex_info_def)
    show "offset (im (ex_ser 131072 (dir_node [] [])))
            + 20 * length (children (Dir_info ?cs 0 0 0)) + 40 < SQFS_META_BLOCK_SIZE"
      by (simp add: ex_ser_def meta_writer_create_def SQFS_META_BLOCK_SIZE_def)
    show "offset (dm (ex_ser 131072 (dir_node [] [])))
            + sum_list (map (\<lambda>c. 20 + length (name c)) (children (Dir_info ?cs 0 0 0)))
            < SQFS_META_BLOCK_SIZE"
      by (simp add: ex_ser_def meta_writer_create_def SQFS_META_BLOCK_SIZE_def fifo_node_def
          comp_def sum_list_triv)
  qed
  then show ?thesis by simp
qed

lemma ex_two_file_listing:
  "map_sum id (\<lambda>(d2, s3). (block_offset (dm s3), mw_data (dm s3), map inode_num (kids d2)))
     (bind_err (write_child_inodes (ex_ser 131072 (dir_node [] [])) two_file_dir)
        (\<lambda>(d1, s1). write_inode s1 None d1))
   = Inr (0, [1, 0, 0, 0, 0, 0, 0, 0, 2, 0, 0, 0,
              0, 0, 0, 0, 2, 0, 0, 0, 97,
              32, 0, 1, 0, 2, 0, 1, 0, 98, 99], [2, 3])"
  by (simp add: two_file_dir_def eval_defs kids_def enc_inode_def enc_file_def enc_dir_def
      enc_dir_header_def enc_dir_entry_def
      le16_def le32_def le_bytes_def upt_rec drop_bit_eq_div htole16_def htole32_def)

lemma ex_two_file_children:
  "map_sum id (\<lambda>(d1, s1). (block_offset (dm s1), mw_data (dm s1)))
     (write_child_inodes (ex_ser 131072 (dir_node [] [])) two_file_dir) = Inr (0, [])"
  by (simp add: two_file_dir_def eval_defs)

lemma ex_two_file_run:
  "\<exists>d1 s1 d2 s3.
     write_child_inodes (ex_ser 131072 (dir_node [] [])) two_file_dir = Inr (d1, s1) \<and>
     write_inode s1 None d1 = Inr (d2, s3) \<and>
     block_offset (dm s1) = 0 \<and> mw_data (dm s1) = [] \<and>
     block_offset (dm s3) = 0 \<and>
     mw_data (dm s3) = [1, 0, 0, 0, 0, 0, 0, 0, 2, 0, 0, 0,
                        0, 0, 0, 0, 2, 0, 0, 0, 97,
                        32, 0, 1, 0, 2, 0, 1, 0, 98, 99] \<and>
     map inode_num (kids d1) = [2, 3]"
proof -
  let ?r = "bind_err (write_child_inodes (ex_ser 131072 (dir_node [] [])) two_file_dir)
        (\<lambda>(d1, s1). write_inode s1 None d1)"
  from ex_two_file_listing obtain d2 s3 where
    r: "?r = Inr (d2, s3)"
    and v: "block_offset (dm s3) = 0"
      "mw_data (dm s3) = [1, 0, 0, 0, 0, 0, 0, 0, 2, 0, 0, 0,
                        0, 0, 0, 0, 2, 0, 0, 0, 97,
                        32, 0, 1, 0, 2, 0, 1, 0, 98, 99]"
      "map inode_num (kids d2) = [2, 3]"
    by (cases ?r) auto
  from r obtain d1 s1 where
    a: "write_child_inodes (ex_ser 131072 (dir_node [] [])) two_file_dir = Inr (d1, s1)"
    and b: "write_inode s1 None d1 = Inr (d2, s3)"
    unfolding bind_err_Inr by auto
  have "S_ISDIR (mode two_file_dir)"
    by (simp add: two_file_dir_def S_ISDIR_def)
  with write_child_inodes_steps[OF a] have "S_ISDIR (mode d1)" by auto
  from write_inode_listing(2)[OF b this] v(3) have "map inode_num (kids d1) = [2, 3]"
    by simp
  moreover from ex_two_file_children a have "block_offset (dm s1) = 0" "mw_data (dm s1) = []"
    by simp_all
  ultimately show ?thesis using a b v(1,2) by auto
qed

text \<open>
  Claim C3. The listing of a directory is written by \<open>write_inode\<close>, which calls
  \<open>write_dir\<close>, after \<open>write_child_inodes\<close> has given the children of the directory their
  inode numbers, one after the other. What then reaches the directory writer is a
  sequence of groups, each a header followed by its entries; the groups hold the
  children in the order of the list; a group has 1 to 256 entries, counted by its
  header; the inode number and the start block of the header are those of the first
  child of the group; every entry of a group refers to an inode in the block of the
  header (a child in another block starts a new header), and its inode number is less
  than 256 above that of the header, far inside the signed 16-bit range (a child
  outside of it would start a new header; with the numbers the children get there is
  none). The children are at most 256 times the headers: 300 children take at least
  two. As long as the writer stays in the same block the groups are the end of
  \<open>dm->data\<close>.
\<close>

theorem dir_listing_in_groups:
  assumes "write_child_inodes s d = Inr (d1, s1)"
    and "write_inode s2 p d1 = Inr (d2, s3)"
    and "S_ISDIR (mode d)"
  shows "\<exists>groups w.
     meta_writer_append (world s2) (dm s2) (enc_listing groups) = Inr (w, dm s3) \<and>
     (block_offset (dm s3) = block_offset (dm s2) \<longrightarrow>
        mw_data (dm s3) = mw_data (dm s2) @ enc_listing groups) \<and>
     concat (map (\<lambda>(h, es). map snd es) groups) = kids d1 \<and>
     length (kids d1) \<le> length groups * SQFS_MAX_DIR_ENT \<and>
     (length (kids d1) = 300 \<longrightarrow> 2 \<le> length groups) \<and>
     (\<forall>(h, es) \<in> set groups.
        es \<noteq> [] \<and> length es \<le> SQFS_MAX_DIR_ENT \<and> unat (hdr_count h) + 1 = length es \<and>
        hdr_inode_number h = inode_num (snd (hd es)) \<and>
        hdr_start_block h = ucast (drop_bit 16 (inode_ref (snd (hd es)))) \<and>
        (\<forall>(e, c) \<in> set es.
           drop_bit 16 (inode_ref c) = drop_bit 16 (inode_ref (snd (hd es))) \<and>
           hdr_start_block h = ucast (drop_bit 16 (inode_ref c)) \<and>
           unat (inode_num c - hdr_inode_number h) < SQFS_MAX_DIR_ENT))"
proof -
  from listing_of_numbered_children[OF assms] obtain K w where
    k: "map inode_num (kids d1) = map (\<lambda>i. K + of_nat i) [0..<length (kids d1)]"
    and w: "meta_writer_append (world s2) (dm s2) (enc_listing (dir_groups (kids d1)))
          = Inr (w, dm s3)"
    and b: "block_offset (dm s3) = block_offset (dm s2) \<longrightarrow>
        mw_data (dm s3) = mw_data (dm s2) @ enc_listing (dir_groups (kids d1))"
    by blast
  define groups where "groups = dir_groups (kids d1)"
  have c: "concat (map (\<lambda>(h, es). map snd es) groups) = kids d1"
    using dir_groups_concat[of "kids d1"] by (simp add: groups_def case_prod_unfold)
  have l: "length (kids d1) \<le> length groups * SQFS_MAX_DIR_ENT"
    unfolding groups_def by (rule dir_groups_length)
  then have l3: "length (kids d1) = 300 \<longrightarrow> 2 \<le> length groups"
    by (auto simp: SQFS_MAX_DIR_ENT_def)
  have g: "es \<noteq> [] \<and> length es \<le> SQFS_MAX_DIR_ENT \<and> unat (hdr_count h) + 1 = length es \<and>
        hdr_inode_number h = inode_num (snd (hd es)) \<and>
        hdr_start_block h = ucast (drop_bit 16 (inode_ref (snd (hd es)))) \<and>
        (\<forall>(e, c) \<in> set es.
           drop_bit 16 (inode_ref c) = drop_bit 16 (inode_ref (snd (hd es))) \<and>
           hdr_start_block h = ucast (drop_bit 16 (inode_ref c)) \<and>
           unat (inode_num c - hdr_inode_number h) < SQFS_MAX_DIR_ENT)"
    if "(h, es) \<in> set groups" for h es
  proof -
    from that have m: "(h, es) \<in> set (dir_groups (kids d1))" by (simp add: groups_def)
    note p = groups_numbered[OF k m]
    have "drop_bit 16 (inode_ref c) = drop_bit 16 (inode_ref (snd (hd es))) \<and>
           hdr_start_block h = ucast (drop_bit 16 (inode_ref c)) \<and>
           unat (inode_num c - hdr_inode_number h) < SQFS_MAX_DIR_ENT"
      if "(e, c) \<in> set es" for e c
    proof -
      from p(6)[OF that] obtain j where
        j: "j < length es" "inode_num c = hdr_inode_number h + of_nat j"
          "drop_bit 16 (inode_ref c) = drop_bit 16 (inode_ref (snd (hd es)))"
        by blast
      from j(1) p(2) have "j < 2 ^ 32" by (simp add: SQFS_MAX_DIR_ENT_def)
      then have "unat (inode_num c - hdr_inode_number h) = j"
        unfolding j(2) by (simp add: unat_of_nat_32)
      with j p(2,5) show ?thesis by simp
    qed
    with p(1-5) show ?thesis by blast
  qed
  from w b c l l3 g show ?thesis
    unfolding groups_def[symmetric] by blast
qed

theorem dir_listing_in_groups_witness:
  "\<exists>d1 s1 d2 s3 groups e1 t1 e2 t3 many w.
     write_child_inodes (ex_ser 131072 (dir_node [] [])) (many_fifo_dir 300) = Inr (e1, t1) \<and>
     write_inode t1 None e1 = Inr (e2, t3) \<and>
     S_ISDIR (mode (many_fifo_dir 300)) \<and>
     length (kids e1) = 300 \<and>
     meta_writer_append (world t1) (dm t1) (enc_listing many) = Inr (w, dm t3) \<and>
     2 \<le> length many \<and>
     write_child_inodes (ex_ser 131072 (dir_node [] [])) two_file_dir = Inr (d1, s1) \<and>
     write_inode s1 None d1 = Inr (d2, s3) \<and>
     S_ISDIR (mode two_file_dir) \<and>
     map inode_num (kids d1) = [2, 3] \<and>
     mw_data (dm s1) = [] \<and>
     mw_data (dm s3) = enc_listing groups \<and>
     mw_data (dm s3) = [1, 0, 0, 0, 0, 0, 0, 0, 2, 0, 0, 0,
                        0, 0, 0, 0, 2, 0, 0, 0, 97,
                        32, 0, 1, 0, 2, 0, 1, 0, 98, 99] \<and>
     concat (map (\<lambda>(h, es). map snd es) groups) = kids d1 \<and>
     (\<forall>(h, es) \<in> set groups.
        es \<noteq> [] \<and> length es \<le> SQFS_MAX_DIR_ENT \<and> unat (hdr_count h) + 1 = length es \<and>
        hdr_inode_number h = inode_num (snd (hd es)) \<and>
        hdr_start_block h = ucast (drop_bit 16 (inode_ref (snd (hd es)))) \<and>
        (\<forall>(e, c) \<in> set es.
           drop_bit 16 (inode_ref c) = drop_bit 16 (inode_ref (snd (hd es))) \<and>
           hdr_start_block h = ucast (drop_bit 16 (inode_ref c)) \<and>
           unat (inode_num c - hdr_inode_number h) < SQFS_MAX_DIR_ENT))"
proof -
  from ex_two_file_run obtain d1 s1 d2 s3 where
    a: "write_child_inodes (ex_ser 131072 (dir_node [] [])) two_file_dir = Inr (d1, s1)"
    and b: "write_inode s1 None d1 = Inr (d2, s3)"
    and z: "block_offset (dm s1) = 0" "mw_data (dm s1) = []"
    and v: "block_offset (dm s3) = 0"
      "mw_data (dm s3) = [1, 0, 0, 0, 0, 0, 0, 0, 2, 0, 0, 0,
                        0, 0, 0, 0, 2, 0, 0, 0, 97,
                        32, 0, 1, 0, 2, 0, 1, 0, 98, 99]"
      "map inode_num (kids d1) = [2, 3]"
    by auto
  have m: "S_ISDIR (mode two_file_dir)"
    by (simp add: two_file_dir_def S_ISDIR_def)
  from dir_listing_in_groups[OF a b m] obtain groups where
    g: "block_offset (dm s3) = block_offset (dm s1) \<longrightarrow>
          mw_data (dm s3) = mw_data (dm s1) @ enc_listing groups"
      "concat (map (\<lambda>(h, es). map snd es) groups) = kids d1"
      "\<forall>(h, es) \<in> set groups.
        es \<noteq> [] \<and> length es \<le> SQFS_MAX_DIR_ENT \<and> unat (hdr_count h) + 1 = length es \<and>
        hdr_inode_number h = inode_num (snd (hd es)) \<and>
        hdr_start_block h = ucast (drop_bit 16 (inode_ref (snd (hd es)))) \<and>
        (\<forall>(e, c) \<in> set es.
           drop_bit 16 (inode_ref c) = drop_bit 16 (inode_ref (snd (hd es))) \<and>
           hdr_start_block h = ucast (drop_bit 16 (inode_ref c)) \<and>
           unat (inode_num c - hdr_inode_number h) < SQFS_MAX_DIR_ENT)"
    by blast
  from g(1) z v(1) have e: "mw_data (dm s3) = enc_listing groups"
    by simp
  from ex_many_fifo_run obtain e1 t1 e2 t3 where
    c: "write_child_inodes (ex_ser 131072 (dir_node [] [])) (many_fifo_dir 300) = Inr (e1, t1)"
    and d: "write_inode t1 None e1 = Inr (e2, t3)"
    and k: "length (kids e1) = 300"
    by blast
  have mm: "S_ISDIR (mode (many_fifo_dir 300))"
    by (simp add: many_fifo_dir_def S_ISDIR_def)
  from dir_listing_in_groups[OF c d mm] k obtain many w where
    h: "meta_writer_append (world t1) (dm t1) (enc_listing many) = Inr (w, dm t3)"
      "2 \<le> length many"
    by blast
  show ?thesis
    apply (rule exI[of _ d1], rule exI[of _ s1], rule exI[of _ d2], rule exI[of _ s3],
        rule exI[of _ groups], rule exI[of _ e1], rule exI[of _ t1], rule exI[of _ e2],
        rule exI[of _ t3], rule exI[of _ many], rule exI[of _ w])
    using a b m z(2) v(2,3) e g(2,3) c d mm k h by simp
qed

text \<open>
  Claim C4. With the inode numbers that \<open>write_child_inodes\<close> gives the children (the
  tree is small enough for the 32-bit counter not to wrap around), every entry that
  reaches the directory writer stores, as a signed 16-bit value, the difference between
  the inode number of its child and the inode number in the header of its group, a
  value from 0 to 255; its size field is the length of the name minus one, cut to 16
  bits, which for the names a directory can hold (of 1 to 65536 bytes) is that number.
\<close>

theorem dir_entries_delta_encoded:
  assumes "write_child_inodes s d = Inr (d1, s1)"
    and "write_inode s2 p d1 = Inr (d2, s3)"
    and "S_ISDIR (mode d)"
    and "unat (inode_counter (info s)) + tree_size d \<le> 2 ^ 32"
  shows "\<exists>groups w.
     meta_writer_append (world s2) (dm s2) (enc_listing groups) = Inr (w, dm s3) \<and>
     (block_offset (dm s3) = block_offset (dm s2) \<longrightarrow>
        mw_data (dm s3) = mw_data (dm s2) @ enc_listing groups) \<and>
     concat (map (\<lambda>(h, es). map snd es) groups) = kids d1 \<and>
     (\<forall>(h, es) \<in> set groups. \<forall>(e, c) \<in> set es.
        sint (inode_diff e) = int (unat (inode_num c)) - int (unat (hdr_inode_number h)) \<and>
        0 \<le> sint (inode_diff e) \<and> sint (inode_diff e) < 256 \<and>
        ent_size e = ucast ((of_nat (length (name c)) :: 64 word) - 1) \<and>
        (0 < length (name c) \<and> length (name c) \<le> 65536 \<longrightarrow>
           unat (ent_size e) = length (name c) - 1))"
proof -
  from listing_of_numbered_children[OF assms(1-3)] assms(4) obtain K w where
    k: "map inode_num (kids d1) = map (\<lambda>i. K + of_nat i) [0..<length (kids d1)]"
    and nw: "unat K + length (kids d1) < 2 ^ 32"
    and w: "meta_writer_append (world s2) (dm s2) (enc_listing (dir_groups (kids d1)))
          = Inr (w, dm s3)"
    and b: "block_offset (dm s3) = block_offset (dm s2) \<longrightarrow>
        mw_data (dm s3) = mw_data (dm s2) @ enc_listing (dir_groups (kids d1))"
    by blast
  define groups where "groups = dir_groups (kids d1)"
  have c: "concat (map (\<lambda>(h, es). map snd es) groups) = kids d1"
    using dir_groups_concat[of "kids d1"] by (simp add: groups_def case_prod_unfold)
  have g: "sint (inode_diff e) = int (unat (inode_num c)) - int (unat (hdr_inode_number h)) \<and>
        0 \<le> sint (inode_diff e) \<and> sint (inode_diff e) < 256 \<and>
        ent_size e = ucast ((of_nat (length (name c)) :: 64 word) - 1) \<and>
        (0 < length (name c) \<and> length (name c) \<le> 65536 \<longrightarrow>
           unat (ent_size e) = length (name c) - 1)"
    if "(h, es) \<in> set groups" "(e, c) \<in> set es" for h es e c
  proof -
    from that have m: "(h, es) \<in> set (dir_groups (kids d1))" by (simp add: groups_def)
    note p = groups_numbered[OF k m]
    from p(6)[OF that(2)] obtain j q where
      j: "j < length es" "q + j < length (kids d1)"
        "hdr_inode_number h = K + of_nat q"
        "inode_num c = hdr_inode_number h + of_nat j"
        "e = dir_entry (snd (hd es)) c"
      by blast
    from j(1) p(2) have j256: "j < 256" by (simp add: SQFS_MAX_DIR_ENT_def)
    have uq: "unat (K + of_nat q :: 32 word) = unat K + q"
    proof -
      from nw j(2) have "q < 2 ^ 32" "unat K + q < 2 ^ 32" by simp_all
      then show ?thesis
        by (simp add: unat_add_lem[THEN iffD1] unat_of_nat_32)
    qed
    have uj: "unat (K + of_nat q + of_nat j :: 32 word) = unat K + q + j"
    proof -
      from nw j(2) have "j < 2 ^ 32" "unat (K + of_nat q :: 32 word) + j < 2 ^ 32"
        by (simp_all add: uq)
      then show ?thesis
        by (simp add: unat_add_lem[THEN iffD1] unat_of_nat_32 uq)
    qed
    have df: "int (unat (inode_num c)) - int (unat (hdr_inode_number h)) = int j"
      unfolding j(4) unfolding j(3) uq uj by simp
    have i: "inode_diff e = ucast (inode_num c - hdr_inode_number h)"
      unfolding j(5) p(4) by (simp add: dir_entry_def htole16_def)
    have s: "ent_size e = ucast ((of_nat (length (name c)) :: 64 word) - 1)"
      unfolding j(5) by (simp add: dir_entry_def htole16_def)
    have "sint (inode_diff e) = int (unat (inode_num c)) - int (unat (hdr_inode_number h))"
      unfolding i using df j256 by (intro sint_ucast_diff) simp_all
    with df j256 s ent_size_unat show ?thesis by auto
  qed
  from w b c g show ?thesis
    unfolding groups_def[symmetric] by blast
qed


theorem dir_entries_delta_encoded_witness:
  "\<exists>d1 s1 d2 s3 groups.
     write_child_inodes (ex_ser 131072 (dir_node [] [])) two_file_dir = Inr (d1, s1) \<and>
     write_inode s1 None d1 = Inr (d2, s3) \<and>
     S_ISDIR (mode two_file_dir) \<and>
     unat (inode_counter (info (ex_ser 131072 (dir_node [] [])))) + tree_size two_file_dir
       \<le> 2 ^ 32 \<and>
     map inode_num (kids d1) = [2, 3] \<and>
     mw_data (dm s1) = [] \<and>
     mw_data (dm s3) = enc_listing groups \<and>
     mw_data (dm s3) = [1, 0, 0, 0, 0, 0, 0, 0, 2, 0, 0, 0,
                        0, 0, 0, 0, 2, 0, 0, 0, 97,
                        32, 0, 1, 0, 2, 0, 1, 0, 98, 99] \<and>
     concat (map (\<lambda>(h, es). map snd es) groups) = kids d1 \<and>
     (\<forall>(h, es) \<in> set groups. \<forall>(e, c) \<in> set es.
        sint (inode_diff e) = int (unat (inode_num c)) - int (unat (hdr_inode_number h)) \<and>
        0 \<le> sint (inode_diff e) \<and> sint (inode_diff e) < 256 \<and>
        ent_size e = ucast ((of_nat (length (name c)) :: 64 word) - 1) \<and>
        (0 < length (name c) \<and> length (name c) \<le> 65536 \<longrightarrow>
           unat (ent_size e) = length (name c) - 1))"
proof -
  from ex_two_file_run obtain d1 s1 d2 s3 where
    a: "write_child_inodes (ex_ser 131072 (dir_node [] [])) two_file_dir = Inr (d1, s1)"
    and b: "write_inode s1 None d1 = Inr (d2, s3)"
    and z: "block_offset (dm s1) = 0" "mw_data (dm s1) = []"
    and v: "block_offset (dm s3) = 0"
      "mw_data (dm s3) = [1, 0, 0, 0, 0, 0, 0, 0, 2, 0, 0, 0,
                        0, 0, 0, 0, 2, 0, 0, 0, 97,
                        32, 0, 1, 0, 2, 0, 1, 0, 98, 99]"
      "map inode_num (kids d1) = [2, 3]"
    by auto
  have m: "S_ISDIR (mode two_file_dir)"
    by (simp add: two_file_dir_def S_ISDIR_def)
  have n: "unat (inode_counter (info (ex_ser 131072 (dir_node [] []))))
             + tree_size two_file_dir \<le> 2 ^ 32"
    by (simp add: ex_ser_def ex_info_def two_file_dir_def dir_node_def file_node_def)
  from dir_entries_delta_encoded[OF a b m n] obtain groups where
    g: "block_offset (dm s3) = block_offset (dm s1) \<longrightarrow>
          mw_data (dm s3) = mw_data (dm s1) @ enc_listing groups"
      "concat (map (\<lambda>(h, es). map snd es) groups) = kids d1"
      "\<forall>(h, es) \<in> set groups. \<forall>(e, c) \<in> set es.
        sint (inode_diff e) = int (unat (inode_num c)) - int (unat (hdr_inode_number h)) \<and>
        0 \<le> sint (inode_diff e) \<and> sint (inode_diff e) < 256 \<and>
        ent_size e = ucast ((of_nat (length (name c)) :: 64 word) - 1) \<and>
        (0 < length (name c) \<and> length (name c) \<le> 65536 \<longrightarrow>
           unat (ent_size e) = length (name c) - 1)"
    by blast
  from g(1) z v(1) have e: "mw_data (dm s3) = enc_listing groups"
    by simp
  show ?thesis
    apply (rule exI[of _ d1], rule exI[of _ s1], rule exI[of _ d2], rule exI[of _ s3],
        rule exI[of _ groups])
    using a b m n z(2) v(2,3) e g(2,3) by simp
qed

end
